theory Spec2Isabelle
  imports Complex_Main "HOL-Library.Multiset"
begin

section \<open>Item profiles and the weighted feature string\<close>

text \<open>
  A movie profile is the dictionary built by \<open>build_movie_profile\<close> in
  \<^verbatim>\<open>ai_recommender.py\<close>. The fields that \<open>create_feature_string\<close> reads with
  \<open>profile.get(...)\<close> are optional here: \<open>None\<close> is a missing key. Python treats a
  missing key, an empty list and an empty string alike in \<open>if profile.get(k):\<close>.
  \<open>build_movie_profile\<close> always sets \<open>id\<close>, \<open>title\<close> and \<open>vote_average\<close>; values
  of another type than the provider documents (a vote average that is not a number) are
  not modelled.
  Scores are Python floats; they are modelled as real numbers, so rounding errors of
  the floating-point unit are outside this development.
\<close>

record profile =
  p_id :: int
  p_title :: string
  p_overview :: "string option"
  p_genres :: "string list option"
  p_cast :: "string list option"
  p_director :: "string list option"
  p_crew :: "string list option"
  p_keywords :: "string list option"
  p_ml_tags :: "string list option"
  p_release_year :: "string option"
  p_vote_average :: real
  p_popularity :: "real option"

text \<open>\<open>sep.join(xs)\<close> of Python.\<close>

fun py_join :: "string \<Rightarrow> string list \<Rightarrow> string" where
  "py_join sep [] = []"
| "py_join sep [x] = x"
| "py_join sep (x # y # ys) = x @ sep @ py_join sep (y # ys)"

text \<open>Truth value of \<open>profile.get(k)\<close> for a list field and for a string field.\<close>

fun truthy :: "'a list option \<Rightarrow> bool" where
  "truthy None = False"
| "truthy (Some xs) = (xs \<noteq> [])"

fun get_list :: "'a list option \<Rightarrow> 'a list" where
  "get_list None = []"
| "get_list (Some xs) = xs"

text \<open>
  \<open>create_feature_string\<close>, statement by statement: \<open>features\<close> is the list the
  source extends, and the result is \<open>' '.join(features)\<close>. The argument \<open>None\<close>
  stands for a falsy profile (\<open>None\<close> or the empty dictionary), for which the source
  returns the empty string at once.
\<close>

definition create_feature_string :: "profile option \<Rightarrow> string" where
  "create_feature_string po =
    (case po of
       None \<Rightarrow> []
     | Some p \<Rightarrow>
        (let features = [];
             features = (if truthy (p_genres p)
                         then features @ replicate 3 (py_join '' '' (get_list (p_genres p)))
                         else features);
             features = (if truthy (p_director p)
                         then features @ replicate 3 (py_join '' '' (get_list (p_director p)))
                         else features);
             features = (if truthy (p_keywords p)
                         then features @ replicate 2 (py_join '' '' (get_list (p_keywords p)))
                         else features);
             features = (if truthy (p_ml_tags p)
                         then features @ replicate 2 (py_join '' '' (get_list (p_ml_tags p)))
                         else features);
             features = (if truthy (p_cast p)
                         then features @ replicate 2 (py_join '' '' (get_list (p_cast p)))
                         else features);
             features = (if truthy (p_overview p)
                         then features @ [get_list (p_overview p)]
                         else features);
             features = (if truthy (p_crew p)
                         then features @ [py_join '' '' (get_list (p_crew p))]
                         else features)
         in py_join '' '' features))"

text \<open>
  The specification's reading of the same function: a fixed table of fields with their
  repetition weights; each non-empty field is joined into one block, the block is
  repeated, and all blocks are joined by single spaces.
\<close>

definition weight_table :: "profile \<Rightarrow> (string list \<times> nat) list" where
  "weight_table p =
    [(get_list (p_genres p), 3),
     (get_list (p_director p), 3),
     (get_list (p_keywords p), 2),
     (get_list (p_ml_tags p), 2),
     (get_list (p_cast p), 2),
     (case p_overview p of None \<Rightarrow> [] | Some s \<Rightarrow> (if s = [] then [] else [s]), 1),
     (get_list (p_crew p), 1)]"

definition weighted_blocks :: "(string list \<times> nat) list \<Rightarrow> string list" where
  "weighted_blocks tab =
     concat (map (\<lambda>(xs, w). if xs = [] then [] else replicate w (py_join '' '' xs)) tab)"

definition spec_feature_string :: "profile \<Rightarrow> string" where
  "spec_feature_string p = py_join '' '' (weighted_blocks (weight_table p))"

text \<open>
  Words of a string as \<open>str.split()\<close> counts them: maximal runs of characters that are
  not whitespace. The whitespace characters are the ASCII ones of \<open>str.isspace\<close>.
\<close>

definition is_space :: "char \<Rightarrow> bool" where
  "is_space c = (let n = (of_char c :: nat) in (9 \<le> n \<and> n \<le> 13) \<or> (28 \<le> n \<and> n \<le> 32))"

fun split_ws :: "string \<Rightarrow> string \<Rightarrow> string list" where
  "split_ws cur [] = (if cur = [] then [] else [cur])"
| "split_ws cur (c # cs) =
     (if is_space c then (if cur = [] then split_ws [] cs else cur # split_ws [] cs)
      else split_ws (cur @ [c]) cs)"

definition py_split :: "string \<Rightarrow> string list" where
  "py_split s = split_ws [] s"

text \<open>The tokens of a list-valued field: the words of its entries, in order.\<close>

definition field_tokens :: "string list \<Rightarrow> string list" where
  "field_tokens xs = concat (map py_split xs)"

definition rep_tokens :: "nat \<Rightarrow> string list \<Rightarrow> string list" where
  "rep_tokens w ts = concat (replicate w ts)"

section \<open>Python primitives used by the engine\<close>

text \<open>
  Exceptions are values: a function that can raise returns \<open>py_error + 'a\<close>, with
  \<open>Inl\<close> for the exception.
\<close>

datatype py_error = ValueError | IndexError | KeyError

text \<open>
  \<open>int(s)\<close> on a string: surrounding whitespace is skipped, one sign is allowed, and
  the rest must be decimal digits, with single underscores allowed between digits.
  Anything else raises \<open>ValueError\<close>. A character of the model is a code point below
  256, among which the decimal digits are the ASCII ones. The whitespace that \<open>int\<close>
  skips is not that of \<open>str.split\<close>: it is the characters 9 to 13 and 32, and the two
  spaces 133 and 160 beyond ASCII, which the conversion turns into blanks first; the
  separators 28 to 31 are not skipped, so that a string with one of them raises.
\<close>

definition is_int_space :: "char \<Rightarrow> bool" where
  "is_int_space c =
     (let n = (of_char c :: nat) in (9 \<le> n \<and> n \<le> 13) \<or> n = 32 \<or> n = 133 \<or> n = 160)"

definition is_digit :: "char \<Rightarrow> bool" where
  "is_digit c = (let n = (of_char c :: nat) in 48 \<le> n \<and> n \<le> 57)"

definition digit_val :: "char \<Rightarrow> nat" where
  "digit_val c = of_char c - 48"

definition int_strip :: "string \<Rightarrow> string" where
  "int_strip s = rev (dropWhile is_int_space (rev (dropWhile is_int_space s)))"

fun digits_ok :: "string \<Rightarrow> bool" where
  "digits_ok [] = False"
| "digits_ok [c] = is_digit c"
| "digits_ok (c # d # cs) =
     (is_digit c \<and> (if d = CHR ''_'' then digits_ok cs else digits_ok (d # cs)))"

definition digits_value :: "string \<Rightarrow> nat" where
  "digits_value s = foldl (\<lambda>acc c. if c = CHR ''_'' then acc else 10 * acc + digit_val c) 0 s"

definition py_int :: "string \<Rightarrow> py_error + int" where
  "py_int s =
    (let t = int_strip s;
         (neg, body) = (case t of
                          c # r \<Rightarrow> (if c = CHR ''-'' then (True, r)
                                    else if c = CHR ''+'' then (False, r) else (False, t))
                        | [] \<Rightarrow> (False, t))
     in if digits_ok body
        then Inr (if neg then - int (digits_value body) else int (digits_value body))
        else Inl ValueError)"

text \<open>
  \<open>round(x, ndigits)\<close>: rounding to the nearest multiple of \<open>10 ^ -ndigits\<close>, ties
  to even, on the real value.
\<close>

definition round_half_even :: "real \<Rightarrow> int" where
  "round_half_even x =
    (let f = \<lfloor>x\<rfloor>; d = x - of_int f
     in if d < 1 / 2 then f else if 1 / 2 < d then f + 1 else if even f then f else f + 1)"

definition py_round :: "real \<Rightarrow> nat \<Rightarrow> real" where
  "py_round x ndigits = of_int (round_half_even (x * 10 ^ ndigits)) / 10 ^ ndigits"

text \<open>Indexing a list or an array raises \<open>IndexError\<close> out of range.\<close>

definition nth_err :: "'a list \<Rightarrow> nat \<Rightarrow> py_error + 'a" where
  "nth_err xs i = (if i < length xs then Inr (xs ! i) else Inl IndexError)"

section \<open>The collaborative-filtering model and its neighbour lookup\<close>

text \<open>
  The pickled dictionary written by \<open>build_and_save_cf_model\<close> in
  \<^verbatim>\<open>movielens.py\<close>, with the keys that \<open>recommend_similar_by_tmdbId\<close> and
  \<open>recommend_similar_by_movieId\<close> read. \<open>index_to_movieId\<close> is optional because the
  lookup tests it against \<open>None\<close>.
\<close>

record cf_model =
  item_index :: "int \<rightharpoonup> nat"
  user_index :: "int \<rightharpoonup> nat"
  top_indices :: "nat list list"
  top_scores :: "real list list"
  index_to_movieId :: "int list option"
  movieId_to_tmdbId :: "int \<rightharpoonup> int"
  tmdbId_to_movieId :: "int \<rightharpoonup> int"

text \<open>
  \<open>np.argsort(-scores)\<close>: the positions ordered by descending score. Positions with
  equal scores are kept in ascending order here; numpy's default sort leaves that order
  open.
\<close>

definition argsort_desc :: "real list \<Rightarrow> nat list" where
  "argsort_desc scores = sort_key (\<lambda>j. - (scores ! j)) [0..<length scores]"

text \<open>
  The loop of \<open>recommend_similar_by_movieId\<close> over \<open>order\<close>: the \<open>break\<close> test
  \<open>len(recs) >= top_n\<close> comes after the append, on every iteration.
\<close>

fun movie_loop :: "int \<Rightarrow> nat list \<Rightarrow> real list \<Rightarrow> int list \<Rightarrow> nat \<Rightarrow> nat list \<Rightarrow> int list
    \<Rightarrow> py_error + int list" where
  "movie_loop movie_id neighbors scores i2m top_n [] recs = Inr recs"
| "movie_loop movie_id neighbors scores i2m top_n (j # js) recs =
    (case nth_err neighbors j of
       Inl e \<Rightarrow> Inl e
     | Inr nb \<Rightarrow>
        (case nth_err i2m nb of
           Inl e \<Rightarrow> Inl e
         | Inr mid \<Rightarrow>
            (let recs' = (if mid \<noteq> movie_id \<and> 0 < scores ! j then recs @ [mid] else recs)
             in if top_n \<le> length recs' then Inr recs'
                else movie_loop movie_id neighbors scores i2m top_n js recs')))"

definition recommend_similar_by_movieId :: "int \<Rightarrow> cf_model \<Rightarrow> int list \<Rightarrow> nat
    \<Rightarrow> py_error + int list" where
  "recommend_similar_by_movieId movie_id model i2m top_n =
    (case item_index model movie_id of
       None \<Rightarrow> Inr []
     | Some idx \<Rightarrow>
        (case nth_err (top_indices model) idx of
           Inl e \<Rightarrow> Inl e
         | Inr neighbors \<Rightarrow>
            (case nth_err (top_scores model) idx of
               Inl e \<Rightarrow> Inl e
             | Inr scores \<Rightarrow>
                 movie_loop movie_id neighbors scores i2m top_n (argsort_desc scores) [])))"

text \<open>
  The loop of \<open>recommend_similar_by_tmdbId\<close>: \<open>if tid:\<close> skips a missing id and
  the id 0.
\<close>

fun tmdb_loop :: "(int \<rightharpoonup> int) \<Rightarrow> nat \<Rightarrow> int list \<Rightarrow> int list \<Rightarrow> int list" where
  "tmdb_loop m2t top_n [] tmdb_recs = tmdb_recs"
| "tmdb_loop m2t top_n (mid # mids) tmdb_recs =
    (let tmdb_recs' = (case m2t mid of
                         None \<Rightarrow> tmdb_recs
                       | Some tid \<Rightarrow> if tid \<noteq> 0 then tmdb_recs @ [tid] else tmdb_recs)
     in if top_n \<le> length tmdb_recs' then tmdb_recs' else tmdb_loop m2t top_n mids tmdb_recs')"

definition recommend_similar_by_tmdbId :: "int \<Rightarrow> cf_model \<Rightarrow> nat \<Rightarrow> py_error + int list" where
  "recommend_similar_by_tmdbId tmdb_id model top_n =
    (case (tmdbId_to_movieId model tmdb_id, index_to_movieId model) of
       (Some ml_movie_id, Some i2m) \<Rightarrow>
         (case recommend_similar_by_movieId ml_movie_id model i2m (top_n * 2) of
            Inl e \<Rightarrow> Inl e
          | Inr rec_ml_ids \<Rightarrow> Inr (tmdb_loop (movieId_to_tmdbId model) top_n rec_ml_ids []))
     | _ \<Rightarrow> Inr [])"

section \<open>The engine state and the lazy load of the model\<close>

text \<open>
  \<open>_try_load_cf\<close> of \<^verbatim>\<open>ai_recommender.py\<close>. The file at \<open>CF_MODEL_PATH\<close> is
  absent, unreadable (loading raises) or holds a model; \<open>ml_available\<close> is the flag
  \<open>_ML_AVAILABLE\<close>. The engine keeps \<open>cf_model\<close> (here \<open>cf_model_of\<close>) and
  \<open>cf_loaded\<close>.
\<close>

datatype cf_file = Absent | Unreadable | Stored cf_model

record engine =
  cf_model_of :: "cf_model option"
  cf_loaded :: bool

definition init_engine :: engine where
  "init_engine = \<lparr>cf_model_of = None, cf_loaded = False\<rparr>"

definition try_load_cf :: "bool \<Rightarrow> cf_file \<Rightarrow> engine \<Rightarrow> engine" where
  "try_load_cf ml_available file eng =
    (if cf_loaded eng then eng
     else (let eng = eng\<lparr>cf_loaded := True\<rparr>
           in if \<not> ml_available then eng\<lparr>cf_model_of := None\<rparr>
              else (case file of
                      Absent \<Rightarrow> eng
                    | Unreadable \<Rightarrow> eng\<lparr>cf_model_of := None\<rparr>
                    | Stored m \<Rightarrow> eng\<lparr>cf_model_of := Some m\<rparr>)))"

text \<open>
  \<open>_cf_neighbors_for_tmdb\<close>: the set of the model's neighbours of a TMDb id, empty
  when no model is loaded. An exception of the lookup is passed on.
\<close>

definition cf_neighbors_for_tmdb :: "bool \<Rightarrow> cf_file \<Rightarrow> engine \<Rightarrow> int \<Rightarrow> nat
    \<Rightarrow> (py_error + int set) \<times> engine" where
  "cf_neighbors_for_tmdb ml_available file eng tmdb_id top_n =
    (let eng = try_load_cf ml_available file eng
     in (case cf_model_of eng of
           None \<Rightarrow> (Inr {}, eng)
         | Some m \<Rightarrow>
            (case recommend_similar_by_tmdbId tmdb_id m top_n of
               Inl e \<Rightarrow> (Inl e, eng)
             | Inr recs \<Rightarrow> (Inr (set recs), eng))))"

section \<open>The hybrid scorer\<close>

text \<open>
  The entries of \<open>scored_movies\<close> and the dictionaries the engine returns. The
  personalization layer reads \<open>profile\<close>, \<open>final_score\<close> and
  \<open>similarity_score\<close> with \<open>rec.get\<close>, so they are optional in a recommendation.
\<close>

record scored_movie =
  sm_profile :: profile
  similarity_score :: real
  final_score :: real
  rerank_score :: "real option"

record recommendation =
  rec_id :: int
  rec_title :: string
  rec_profile :: "profile option"
  rec_similarity_score :: "real option"
  rec_final_score :: "real option"
  rec_personalization_score :: "real option"

text \<open>
  What a request reads from outside the engine: the metadata provider
  (\<open>tmdb_fetch\<close>, the profile that \<open>build_movie_profile\<close> assembles for an id, or
  \<open>None\<close>), the deduplicated set of candidate ids in the order it is iterated, the
  vectorizer (TF-IDF or embeddings) as a function from the feature strings of the seed
  and of the candidates to the similarities and the pairwise similarity matrix of the
  candidates, or \<open>None\<close> when it raises, the optional cross-encoder, whose
  \<open>predict\<close> gives one score per pair or raises, and the configuration.
\<close>

record world =
  tmdb_fetch :: "int \<Rightarrow> profile option"
  candidate_ids :: "int list"
  similarity :: "string \<Rightarrow> string list \<Rightarrow> (real list \<times> (nat \<Rightarrow> nat \<Rightarrow> real)) option"
  reranker :: "((string \<times> string) list \<Rightarrow> real list option) option"
  reranker_top_k :: int
  ml_available :: bool
  cf_model_file :: cf_file

text \<open>\<open>build_movie_profile\<close> stores the requested id in the profile.\<close>

definition build_movie_profile :: "world \<Rightarrow> int \<Rightarrow> profile option" where
  "build_movie_profile w movie_id = map_option (\<lambda>p. p\<lparr>p_id := movie_id\<rparr>) (tmdb_fetch w movie_id)"

text \<open>
  The adjustments computed in the loop over the candidates of
  \<open>get_intelligent_recommendations\<close>, under the names of its local variables.
\<close>

definition rating_boost :: "real \<Rightarrow> real" where
  "rating_boost rating = (if 6 \<le> rating then (rating / 10) * 0.08 else 0)"

definition popularity_boost :: "profile \<Rightarrow> real" where
  "popularity_boost p = min ((case p_popularity p of None \<Rightarrow> 0 | Some v \<Rightarrow> v) / 1000) 0.02"

definition release_year_text :: "profile \<Rightarrow> string" where
  "release_year_text p =
     (case p_release_year p of None \<Rightarrow> ''0'' | Some s \<Rightarrow> if s = [] then ''0'' else s)"

definition age_penalty :: "int \<Rightarrow> real \<Rightarrow> real" where
  "age_penalty release_year rating =
     (if 0 < release_year \<and> release_year < 1990 \<and> rating < 7.5 then - 0.05 else 0)"

definition cf_boost :: "int set \<Rightarrow> profile \<Rightarrow> real" where
  "cf_boost cf_neighbors p = (if cf_neighbors \<noteq> {} \<and> p_id p \<in> cf_neighbors then 0.05 else 0)"

text \<open>
  The loop over \<open>enumerate(candidate_profiles)\<close>. A candidate below 0.03 is skipped
  before anything else is read from it; \<open>int(...)\<close> of the release year can raise,
  which ends the loop with the exception.
\<close>

fun score_loop :: "int set \<Rightarrow> real list \<Rightarrow> (nat \<times> profile) list
    \<Rightarrow> py_error + scored_movie list" where
  "score_loop cf_neighbors similarities [] = Inr []"
| "score_loop cf_neighbors similarities ((i, p) # rest) =
    (case nth_err similarities i of
       Inl e \<Rightarrow> Inl e
     | Inr score \<Rightarrow>
        if score < 0.03 then score_loop cf_neighbors similarities rest
        else
          (let rating = p_vote_average p
           in case py_int (release_year_text p) of
                Inl e \<Rightarrow> Inl e
              | Inr release_year \<Rightarrow>
                 (let final = score + rating_boost rating + popularity_boost p
                               + age_penalty release_year rating + cf_boost cf_neighbors p
                  in case score_loop cf_neighbors similarities rest of
                       Inl e \<Rightarrow> Inl e
                     | Inr ms \<Rightarrow>
                         Inr (\<lparr>sm_profile = p, similarity_score = score, final_score = final,
                               rerank_score = None\<rparr> # ms))))"

text \<open>The entry appended for a candidate whose release year reads as \<open>y\<close>.\<close>

definition scored_entry :: "int set \<Rightarrow> real \<Rightarrow> profile \<Rightarrow> int \<Rightarrow> scored_movie" where
  "scored_entry N score p y =
     \<lparr>sm_profile = p, similarity_score = score,
      final_score = score + rating_boost (p_vote_average p) + popularity_boost p
                     + age_penalty y (p_vote_average p) + cf_boost N p,
      rerank_score = None\<rparr>"

text \<open>
  \<open>xs.sort(key=..., reverse=True)\<close>: descending, and entries with equal keys keep
  their order.
\<close>

definition sort_desc :: "('a \<Rightarrow> real) \<Rightarrow> 'a list \<Rightarrow> 'a list" where
  "sort_desc key xs = sort_key (\<lambda>x. - key x) xs"

text \<open>
  The optional second stage. \<open>zip(subset, scores)\<close> stops at the shorter list; an
  entry without \<open>rerank_score\<close> sorts with 0. A failure of \<open>predict\<close> leaves the
  list as it is.
\<close>

definition join_text :: "profile \<Rightarrow> string" where
  "join_text p =
    (let parts = [p_title p];
         parts = (if truthy (p_overview p) then parts @ [get_list (p_overview p)] else parts);
         parts = (if truthy (p_genres p) then parts @ [py_join '' '' (get_list (p_genres p))]
                  else parts);
         parts = (if truthy (p_keywords p) then parts @ [py_join '' '' (get_list (p_keywords p))]
                  else parts)
     in take 5120 (py_join '' '' parts))"

fun attach_scores :: "scored_movie list \<Rightarrow> real list \<Rightarrow> scored_movie list" where
  "attach_scores (item # items) (s # ss) = item\<lparr>rerank_score := Some s\<rparr> # attach_scores items ss"
| "attach_scores items ss = items"

definition rerank :: "world \<Rightarrow> profile \<Rightarrow> scored_movie list \<Rightarrow> scored_movie list" where
  "rerank w source_profile scored_movies =
    (case reranker w of
       None \<Rightarrow> scored_movies
     | Some predict \<Rightarrow>
        if scored_movies = [] then scored_movies
        else
          (let top_k = nat (max 1 (reranker_top_k w));
               subset = take top_k scored_movies;
               query_text = join_text source_profile;
               pairs = map (\<lambda>item. (query_text, join_text (sm_profile item))) subset
           in case predict pairs of
                None \<Rightarrow> scored_movies
              | Some scores \<Rightarrow>
                 (let subset = attach_scores subset scores;
                      subset = sort_desc (\<lambda>x. case rerank_score x of None \<Rightarrow> 0 | Some s \<Rightarrow> s) subset
                  in subset @ drop top_k scored_movies)))"

text \<open>What the second stage leaves untouched in an entry.\<close>

definition core :: "scored_movie \<Rightarrow> profile \<times> real \<times> real" where
  "core m = (sm_profile m, similarity_score m, final_score m)"

section \<open>Diversification by maximal marginal relevance\<close>

text \<open>
  \<open>id_to_idx\<close> is the dictionary comprehension over
  \<open>enumerate(candidate_profiles)\<close>: a later profile with the same id wins.
  \<open>pairwise_sim\<close> is the matrix \<open>pairwise\<close> of the source and \<open>diversity\<close> its
  local variable \<open>div\<close>.
\<close>

definition id_to_idx :: "profile list \<Rightarrow> int \<rightharpoonup> nat" where
  "id_to_idx candidate_profiles = map_of (rev (zip (map p_id candidate_profiles) [0..<length candidate_profiles]))"

fun max_default :: "real list \<Rightarrow> real \<Rightarrow> real" where
  "max_default [] d = d"
| "max_default (x # xs) d = foldl max x xs"

definition mmr_value :: "real \<Rightarrow> (int \<rightharpoonup> nat) \<Rightarrow> (nat \<Rightarrow> nat \<Rightarrow> real) \<Rightarrow> scored_movie list
    \<Rightarrow> nat list \<Rightarrow> nat \<Rightarrow> real" where
  "mmr_value lam idmap pairwise_sim scored_movies selected si =
    (let prof = sm_profile (scored_movies ! si);
         rel = final_score (scored_movies ! si);
         diversity = (case idmap (p_id prof) of
                  None \<Rightarrow> 0
                | Some idx \<Rightarrow>
                   if selected = [] then 0
                   else (let sel_indices =
                               List.map_filter (\<lambda>j. idmap (p_id (sm_profile (scored_movies ! j)))) selected
                         in max_default (map (pairwise_sim idx) sel_indices) 0))
     in lam * rel - (1 - lam) * diversity)"

text \<open>
  The inner \<open>for si in available\<close> loop with \<open>best_i\<close> and \<open>best_mmr\<close>, and the
  outer \<open>while\<close> loop, which runs while candidates are available and fewer than
  \<open>num_recommendations\<close> are selected: the recursion is on the number of selections
  still to make. When no value exceeds the initial \<open>best_mmr = -1e9\<close>, \<open>best_i\<close>
  stays \<open>None\<close> and \<open>available.remove(None)\<close> raises; the source catches this and
  falls back to the first \<open>num_recommendations\<close> entries. The trade-off \<open>lam\<close> is a
  parameter; the source fixes it to \<open>lambda_rel = 0.7\<close>.
\<close>

fun mmr_scan :: "(nat \<Rightarrow> real) \<Rightarrow> nat list \<Rightarrow> nat option \<times> real \<Rightarrow> nat option \<times> real" where
  "mmr_scan mmr [] best = best"
| "mmr_scan mmr (si # rest) (best_i, best_mmr) =
    (if best_mmr < mmr si then mmr_scan mmr rest (Some si, mmr si)
     else mmr_scan mmr rest (best_i, best_mmr))"

fun mmr_loop :: "(nat list \<Rightarrow> nat \<Rightarrow> real) \<Rightarrow> nat \<Rightarrow> nat list \<Rightarrow> nat list \<Rightarrow> nat list option" where
  "mmr_loop mmr 0 available selected = Some selected"
| "mmr_loop mmr (Suc n) available selected =
    (if available = [] then Some selected
     else (case fst (mmr_scan (mmr selected) available (None, - 1000000000)) of
             None \<Rightarrow> None
           | Some best_i \<Rightarrow> mmr_loop mmr n (remove1 best_i available) (selected @ [best_i])))"

definition mmr_select :: "real \<Rightarrow> (int \<rightharpoonup> nat) \<Rightarrow> (nat \<Rightarrow> nat \<Rightarrow> real) \<Rightarrow> scored_movie list \<Rightarrow> nat
    \<Rightarrow> scored_movie list" where
  "mmr_select lam idmap pairwise_sim scored_movies num_recommendations =
    (case mmr_loop (mmr_value lam idmap pairwise_sim scored_movies) num_recommendations
            [0..<length scored_movies] [] of
       Some selected \<Rightarrow> map (\<lambda>i. scored_movies ! i) selected
     | None \<Rightarrow> take num_recommendations scored_movies)"

definition lambda_rel :: real where
  "lambda_rel = 0.7"

section \<open>The request: scoring path and fallback\<close>

text \<open>
  \<open>rank_scored\<close> is the part of the \<open>try\<close> block after the scoring loop,
  \<open>scoring_path\<close> the whole \<open>try\<close> block, and \<open>cf_fallback\<close> the \<open>except\<close>
  block, which lists up to twelve neighbours of the model. The order in which Python
  iterates a set is not modelled; the neighbours are taken in ascending order. A count
  \<open>num_recommendations\<close> is a natural number.
\<close>

definition to_recommendation :: "scored_movie \<Rightarrow> recommendation" where
  "to_recommendation item =
    \<lparr>rec_id = p_id (sm_profile item), rec_title = p_title (sm_profile item),
     rec_profile = Some (sm_profile item),
     rec_similarity_score = Some (py_round (similarity_score item * 100) 1),
     rec_final_score = None, rec_personalization_score = None\<rparr>"

definition rank_scored :: "world \<Rightarrow> profile \<Rightarrow> profile list \<Rightarrow> (nat \<Rightarrow> nat \<Rightarrow> real)
    \<Rightarrow> scored_movie list \<Rightarrow> nat \<Rightarrow> recommendation list" where
  "rank_scored w source_profile candidate_profiles pairwise_sim scored_movies num_recommendations =
    (let scored_movies = filter (\<lambda>m. 0.03 \<le> similarity_score m) scored_movies;
         scored_movies = sort_desc final_score scored_movies;
         scored_movies = rerank w source_profile scored_movies;
         final_list = mmr_select lambda_rel (id_to_idx candidate_profiles) pairwise_sim scored_movies
                        num_recommendations
     in map to_recommendation (take num_recommendations final_list))"

definition scoring_path :: "world \<Rightarrow> engine \<Rightarrow> int \<Rightarrow> nat \<Rightarrow> profile \<Rightarrow> profile list
    \<Rightarrow> (py_error + recommendation list) \<times> engine" where
  "scoring_path w eng source_movie_id num_recommendations source_profile candidate_profiles =
    (let source_features = create_feature_string (Some source_profile);
         candidate_features = map (\<lambda>p. create_feature_string (Some p)) candidate_profiles
     in case similarity w source_features candidate_features of
          None \<Rightarrow> (Inl ValueError, eng)
        | Some (similarities, pairwise_sim) \<Rightarrow>
           (case cf_neighbors_for_tmdb (ml_available w) (cf_model_file w) eng source_movie_id 50 of
              (Inl e, eng) \<Rightarrow> (Inl e, eng)
            | (Inr cf_neighbors, eng) \<Rightarrow>
               (case score_loop cf_neighbors similarities (List.enumerate 0 candidate_profiles) of
                  Inl e \<Rightarrow> (Inl e, eng)
                | Inr scored_movies \<Rightarrow>
                    (Inr (rank_scored w source_profile candidate_profiles pairwise_sim scored_movies
                           num_recommendations), eng))))"

definition cf_fallback :: "world \<Rightarrow> engine \<Rightarrow> int \<Rightarrow> (py_error + recommendation list) \<times> engine" where
  "cf_fallback w eng source_movie_id =
    (case cf_neighbors_for_tmdb (ml_available w) (cf_model_file w) eng source_movie_id 12 of
       (Inl e, eng) \<Rightarrow> (Inl e, eng)
     | (Inr cf_neighbors, eng) \<Rightarrow>
        if cf_neighbors \<noteq> {}
        then (Inr (map (\<lambda>prof. \<lparr>rec_id = p_id prof, rec_title = p_title prof,
                                  rec_profile = Some prof, rec_similarity_score = Some 0,
                                  rec_final_score = None, rec_personalization_score = None\<rparr>)
                     (List.map_filter (build_movie_profile w)
                        (take 12 (sorted_list_of_set cf_neighbors)))), eng)
        else (Inr [], eng))"

definition get_intelligent_recommendations :: "world \<Rightarrow> engine \<Rightarrow> int \<Rightarrow> nat
    \<Rightarrow> (py_error + recommendation list) \<times> engine" where
  "get_intelligent_recommendations w eng source_movie_id num_recommendations =
    (case build_movie_profile w source_movie_id of
       None \<Rightarrow> (Inr [], eng)
     | Some source_profile \<Rightarrow>
        (let candidate_profiles = List.map_filter (build_movie_profile w) (candidate_ids w)
         in if candidate_profiles = [] then (Inr [], eng)
            else (case scoring_path w eng source_movie_id num_recommendations source_profile
                         candidate_profiles of
                    (Inr recommendations, eng) \<Rightarrow> (Inr recommendations, eng)
                  | (Inl e, eng) \<Rightarrow> cf_fallback w eng source_movie_id)))"

section \<open>User profiles and preference learning\<close>

text \<open>
  The profile dictionary of \<^verbatim>\<open>user_preference.py\<close>: the ratings (keyed by
  \<open>str(movie_id)\<close>), the watchlist, the liked and disliked ids and the four preference
  accumulators. The histories of views, trailer clicks and searches play no part in the
  functions below and are left out. The profiles on disk are a map from user ids; a
  missing or unreadable file loads as the empty profile.
\<close>

record preferences =
  pref_genres :: "string \<rightharpoonup> real"
  pref_directors :: "string \<rightharpoonup> real"
  pref_actors :: "string \<rightharpoonup> real"
  pref_keywords :: "string \<rightharpoonup> real"

record rating_entry =
  rating :: real
  timestamp :: string

record user_profile =
  up_user_id :: string
  up_ratings :: "string \<rightharpoonup> rating_entry"
  up_watchlist :: "int list"
  up_disliked :: "int list"
  up_liked :: "int list"
  up_preferences :: preferences

definition empty_profile :: "string \<Rightarrow> user_profile" where
  "empty_profile user_id =
    \<lparr>up_user_id = user_id, up_ratings = Map.empty, up_watchlist = [], up_disliked = [],
     up_liked = [],
     up_preferences = \<lparr>pref_genres = Map.empty, pref_directors = Map.empty,
                        pref_actors = Map.empty, pref_keywords = Map.empty\<rparr>\<rparr>"

definition load_user_profile :: "(string \<rightharpoonup> user_profile) \<Rightarrow> string \<Rightarrow> user_profile" where
  "load_user_profile disk user_id =
     (case disk user_id of None \<Rightarrow> empty_profile user_id | Some data \<Rightarrow> data)"

text \<open>\<open>save_user_profile\<close> swallows a failure of the write and leaves the file as it was.\<close>

definition save_user_profile :: "bool \<Rightarrow> (string \<rightharpoonup> user_profile) \<Rightarrow> string \<Rightarrow> user_profile
    \<Rightarrow> (string \<rightharpoonup> user_profile)" where
  "save_user_profile write_ok disk user_id profile =
     (if write_ok then disk(user_id \<mapsto> profile) else disk)"

text \<open>\<open>str(n)\<close> of an integer.\<close>

fun str_nat :: "nat \<Rightarrow> string" where
  "str_nat n = (if n < 10 then [char_of (48 + n)]
                else str_nat (n div 10) @ [char_of (48 + n mod 10)])"

definition str_int :: "int \<Rightarrow> string" where
  "str_int i = (if i < 0 then CHR ''-'' # str_nat (nat (- i)) else str_nat (nat i))"

text \<open>
  The movie data handed to \<open>track_rating\<close>: an entry of \<open>genres\<close>, \<open>cast\<close> or
  \<open>keywords\<close> is a name or a dictionary with an optional \<open>name\<close>; a director is a
  name.
\<close>

datatype named = Name string | Dict "string option"

fun item_name :: "named \<Rightarrow> string" where
  "item_name (Name s) = s"
| "item_name (Dict None) = []"
| "item_name (Dict (Some s)) = s"

record movie_data =
  md_genres :: "named list option"
  md_director :: "string list option"
  md_cast :: "named list option"
  md_keywords :: "named list option"

text \<open>
  One loop of \<open>_update_preferences\<close>: every non-empty name gets
  \<open>round(prefs.get(name, 0) + weight, 2)\<close>.
\<close>

fun bump :: "real \<Rightarrow> string list \<Rightarrow> (string \<rightharpoonup> real) \<Rightarrow> (string \<rightharpoonup> real)" where
  "bump weight [] prefs = prefs"
| "bump weight (name # names) prefs =
     bump weight names
       (if name = [] then prefs
        else prefs(name \<mapsto> py_round ((case prefs name of None \<Rightarrow> 0 | Some v \<Rightarrow> v) + weight) 2))"

definition update_preferences :: "preferences \<Rightarrow> movie_data \<Rightarrow> real \<Rightarrow> preferences" where
  "update_preferences prefs md weight =
    prefs\<lparr>pref_genres := bump weight (map item_name (get_list (md_genres md))) (pref_genres prefs),
          pref_directors := bump weight (get_list (md_director md)) (pref_directors prefs),
          pref_actors := bump (weight * 0.5) (map item_name (take 5 (get_list (md_cast md))))
                           (pref_actors prefs),
          pref_keywords := bump (weight * 0.3) (map item_name (take 10 (get_list (md_keywords md))))
                             (pref_keywords prefs)\<rparr>"

text \<open>
  \<open>track_rating\<close>: \<open>now\<close> is \<open>datetime.now().isoformat()\<close>; the movie data
  \<open>None\<close> stands for a falsy argument (\<open>None\<close> or an empty dictionary). The function
  returns the profile and writes it to disk.
\<close>

definition track_rating :: "(string \<rightharpoonup> user_profile) \<Rightarrow> bool \<Rightarrow> string \<Rightarrow> string \<Rightarrow> int \<Rightarrow> real
    \<Rightarrow> movie_data option \<Rightarrow> user_profile \<times> (string \<rightharpoonup> user_profile)" where
  "track_rating disk write_ok user_id now movie_id r movie_data =
    (let profile = load_user_profile disk user_id;
         profile = profile\<lparr>up_ratings :=
                      (up_ratings profile)(str_int movie_id \<mapsto> \<lparr>rating = r, timestamp = now\<rparr>)\<rparr>;
         profile = (case movie_data of
                      None \<Rightarrow> profile
                    | Some md \<Rightarrow>
                       if 4 \<le> r
                       then profile\<lparr>up_preferences :=
                              update_preferences (up_preferences profile) md (r / 5)\<rparr>
                       else profile)
     in (profile, save_user_profile write_ok disk user_id profile))"

text \<open>
  The accumulator of a name that occurs \<open>n\<close> times in a list: \<open>n\<close> rounded additions
  of the weight.
\<close>

definition accumulated :: "real \<Rightarrow> string list \<Rightarrow> (string \<rightharpoonup> real) \<Rightarrow> string \<Rightarrow> real option" where
  "accumulated weight names prefs name =
    (if name \<in> set names \<and> name \<noteq> []
     then Some (((\<lambda>v. py_round (v + weight) 2) ^^ count_list names name)
                  (case prefs name of None \<Rightarrow> 0 | Some v \<Rightarrow> v))
     else prefs name)"

section \<open>The personalization layer\<close>

text \<open>
  The three loops of \<open>_calculate_personalization_score\<close> and their caps. A missing
  profile is the empty dictionary, all of whose lists are empty.
\<close>

fun overlap :: "(string \<rightharpoonup> real) \<Rightarrow> real \<Rightarrow> string list \<Rightarrow> real \<Rightarrow> real" where
  "overlap prefs w [] score = score"
| "overlap prefs w (name # names) score =
     overlap prefs w names (case prefs name of None \<Rightarrow> score | Some v \<Rightarrow> score + v * w)"

definition movie_genres :: "profile option \<Rightarrow> string list" where
  "movie_genres mp = (case mp of None \<Rightarrow> [] | Some p \<Rightarrow> get_list (p_genres p))"

definition movie_director :: "profile option \<Rightarrow> string list" where
  "movie_director mp = (case mp of None \<Rightarrow> [] | Some p \<Rightarrow> get_list (p_director p))"

definition movie_cast :: "profile option \<Rightarrow> string list" where
  "movie_cast mp = (case mp of None \<Rightarrow> [] | Some p \<Rightarrow> get_list (p_cast p))"

definition genre_score :: "preferences \<Rightarrow> profile option \<Rightarrow> real" where
  "genre_score user_prefs mp = overlap (pref_genres user_prefs) 0.03 (movie_genres mp) 0"

definition director_score :: "preferences \<Rightarrow> profile option \<Rightarrow> real" where
  "director_score user_prefs mp = overlap (pref_directors user_prefs) 0.05 (movie_director mp) 0"

definition actor_score :: "preferences \<Rightarrow> profile option \<Rightarrow> real" where
  "actor_score user_prefs mp = overlap (pref_actors user_prefs) 0.01 (take 5 (movie_cast mp)) 0"

definition calculate_personalization_score :: "preferences \<Rightarrow> profile option \<Rightarrow> real" where
  "calculate_personalization_score user_prefs mp =
    (let score = 0;
         score = score + min (genre_score user_prefs mp) 0.15;
         score = score + min (director_score user_prefs mp) 0.10;
         score = score + min (actor_score user_prefs mp) 0.05
     in min score 0.30)"

text \<open>
  The loop body of \<open>get_personalized_recommendations\<close>: \<open>None\<close> is the \<open>continue\<close>
  for a film the user has rated. \<open>base_recs\<close> is the list that
  \<open>get_intelligent_recommendations\<close> or \<open>_get_profile_based_recommendations\<close> returned.
\<close>

definition base_score :: "recommendation \<Rightarrow> real" where
  "base_score r =
    (case rec_final_score r of
       Some f \<Rightarrow> f
     | None \<Rightarrow> (case rec_similarity_score r of Some s \<Rightarrow> s | None \<Rightarrow> 0))"

definition is_disliked :: "user_profile \<Rightarrow> recommendation \<Rightarrow> bool" where
  "is_disliked profile r =
    (case rec_profile r of None \<Rightarrow> False | Some p \<Rightarrow> p_id p \<in> set (up_disliked profile))"

definition rating_key :: "recommendation \<Rightarrow> string" where
  "rating_key r = (case rec_profile r of None \<Rightarrow> ''None'' | Some p \<Rightarrow> str_int (p_id p))"

definition personalize :: "user_profile \<Rightarrow> recommendation \<Rightarrow> recommendation option" where
  "personalize profile r =
    (let movie_profile = rec_profile r;
         personalization_score =
           calculate_personalization_score (up_preferences profile) movie_profile;
         final = base_score r + personalization_score;
         final = (if is_disliked profile r then final - 0.5 else final)
     in if up_ratings profile (rating_key r) \<noteq> None then None
        else Some (r\<lparr>rec_personalization_score := Some (py_round (personalization_score * 100) 1),
                     rec_final_score := Some final\<rparr>))"

definition get_personalized_recommendations :: "user_profile \<Rightarrow> recommendation list \<Rightarrow> nat
    \<Rightarrow> recommendation list" where
  "get_personalized_recommendations profile base_recs num_recommendations =
    (if base_recs = [] then []
     else take num_recommendations
            (sort_desc (\<lambda>x. case rec_final_score x of None \<Rightarrow> 0 | Some f \<Rightarrow> f)
               (List.map_filter (personalize profile) base_recs)))"

section \<open>The offline builder of the similarity model\<close>

text \<open>
  The tables of \<^verbatim>\<open>movielens.py\<close>: a ratings row has a user, a film and a rating; a
  links row maps a MovieLens id to a TMDb id, which can be missing. Missing ratings
  (\<open>NaN\<close>) are not modelled.
\<close>

record rating_row =
  userId :: int
  movieId :: int
  stars :: real

record link_row =
  link_movieId :: int
  link_tmdbId :: "int option"

text \<open>\<open>dict(zip(keys, values))\<close>: a later pair with the same key wins.\<close>

definition dict_zip :: "'a list \<Rightarrow> 'b list \<Rightarrow> ('a \<rightharpoonup> 'b)" where
  "dict_zip ks vs = map_of (rev (zip ks vs))"

definition build_tmdb_mapping :: "link_row list \<Rightarrow> (int \<rightharpoonup> int) \<times> (int \<rightharpoonup> int)" where
  "build_tmdb_mapping links =
    (let clean = filter (\<lambda>l. link_tmdbId l \<noteq> None) links;
         movie_ids = map link_movieId clean;
         tmdb_ids = map (\<lambda>l. the (link_tmdbId l)) clean
     in (dict_zip movie_ids tmdb_ids, dict_zip tmdb_ids movie_ids))"

text \<open>\<open>Series.unique()\<close>: the distinct values in the order of their first occurrence.\<close>

definition unique :: "'a list \<Rightarrow> 'a list" where
  "unique xs = rev (remdups (rev xs))"

text \<open>
  \<open>build_item_user_matrix\<close>. The sparse matrix is modelled by its dense rows; the
  constructor of the sparse matrix adds up the ratings of a repeated (film, user) pair.
  The ratings are taken to be 32-bit floats already (those of MovieLens are multiples of
  0.5): their conversion and the rounding of such a sum are not modelled.
\<close>

definition build_item_user_matrix :: "rating_row list
    \<Rightarrow> real list list \<times> (int \<rightharpoonup> nat) \<times> (int \<rightharpoonup> nat)" where
  "build_item_user_matrix ratings =
    (let unique_users = unique (map userId ratings);
         unique_items = unique (map movieId ratings);
         user_index = dict_zip unique_users [0..<length unique_users];
         item_index = dict_zip unique_items [0..<length unique_items];
         mat = map (\<lambda>mid. map (\<lambda>uid. sum_list (map stars
                     (filter (\<lambda>r. movieId r = mid \<and> userId r = uid) ratings))) unique_users)
                 unique_items
     in (mat, item_index, user_index))"

text \<open>
  The arithmetic of \<open>compute_item_similarities_blockwise\<close>. The matrix, its products,
  the norms and the similarities are arrays of 32-bit floats. A finite float is modelled by
  the real number it denotes, and the rounded operations of the source are parameters of
  the model, so that what is proved of the tables holds for every rounding:
  \<open>a_dot u v\<close> is the entry of \<open>block * item_user_T\<close> for the rows \<open>u\<close> and \<open>v\<close>,
  \<open>a_norm u\<close> the entry of \<open>norms\<close> for the row \<open>u\<close>, \<open>a_mul\<close> the product in \<open>denom\<close>
  and \<open>a_div\<close> the quotient in \<open>sims\<close>. Infinities and \<open>NaN\<close> (overflow) are not modelled.
\<close>

record arith =
  a_dot :: "real list \<Rightarrow> real list \<Rightarrow> real"
  a_norm :: "real list \<Rightarrow> real"
  a_mul :: "real \<Rightarrow> real \<Rightarrow> real"
  a_div :: "real \<Rightarrow> real \<Rightarrow> real"

text \<open>
  The index and similarity arrays of a row after the mask \<open>idx != global_row\<close>. The
  sparse product stores the non-zero entries of a row; they are taken in ascending column
  order.
\<close>

definition masked_row :: "arith \<Rightarrow> real list list \<Rightarrow> real list \<Rightarrow> nat \<Rightarrow> nat list \<times> real list" where
  "masked_row ar item_user norms global_row =
    (let idx = filter (\<lambda>j. a_dot ar (item_user ! global_row) (item_user ! j) \<noteq> 0)
                 [0..<length item_user];
         vals = map (\<lambda>j. a_dot ar (item_user ! global_row) (item_user ! j)) idx;
         denom = map (\<lambda>j. a_mul ar (norms ! global_row) (norms ! j)) idx;
         sims = map (\<lambda>(v, d). a_div ar v d) (zip vals denom);
         kept = filter (\<lambda>(j, s). j \<noteq> global_row) (zip idx sims)
     in (map fst kept, map snd kept))"

text \<open>
  The array \<open>order\<close>: all positions by descending similarity when there are at most
  \<open>top_k\<close>, otherwise \<open>top_k\<close> positions of largest similarity (\<open>np.argpartition\<close>,
  which leaves their order open), sorted by descending similarity.
\<close>

definition top_order :: "real list \<Rightarrow> nat \<Rightarrow> nat list" where
  "top_order sims top_k =
    (if length sims \<le> top_k then argsort_desc sims
     else (let part = take top_k (argsort_desc sims)
           in map (\<lambda>i. part ! i) (argsort_desc (map (\<lambda>i. sims ! i) part))))"

text \<open>
  The body of the loop over the rows of a block: the first \<open>k\<close> slots of the row are
  overwritten, the others keep what they hold.
\<close>

definition store_row :: "arith \<Rightarrow> real list list \<Rightarrow> real list \<Rightarrow> nat \<Rightarrow> nat
    \<Rightarrow> nat list list \<times> real list list \<Rightarrow> nat list list \<times> real list list" where
  "store_row ar item_user norms top_k global_row tables =
    (let (top_indices, top_scores) = tables;
         (idx, sims) = masked_row ar item_user norms global_row
     in if sims = [] then tables
        else (let order = top_order sims top_k;
                  k = min top_k (length order)
              in (top_indices[global_row :=
                    take k (map (\<lambda>i. idx ! i) order) @ drop k (top_indices ! global_row)],
                  top_scores[global_row :=
                    take k (map (\<lambda>i. sims ! i) order) @ drop k (top_scores ! global_row)])))"

fun rows_loop :: "arith \<Rightarrow> real list list \<Rightarrow> real list \<Rightarrow> nat \<Rightarrow> nat list
    \<Rightarrow> nat list list \<times> real list list \<Rightarrow> nat list list \<times> real list list" where
  "rows_loop ar item_user norms top_k [] tables = tables"
| "rows_loop ar item_user norms top_k (global_row # rest) tables =
     rows_loop ar item_user norms top_k rest (store_row ar item_user norms top_k global_row tables)"

function block_loop :: "arith \<Rightarrow> real list list \<Rightarrow> real list \<Rightarrow> nat \<Rightarrow> nat \<Rightarrow> nat
    \<Rightarrow> nat list list \<times> real list list \<Rightarrow> nat list list \<times> real list list" where
  "block_loop ar item_user norms top_k block_size start tables =
    (if start < length item_user \<and> 0 < block_size
     then block_loop ar item_user norms top_k block_size (start + block_size)
            (rows_loop ar item_user norms top_k
               [start..<min (start + block_size) (length item_user)] tables)
     else tables)"
  by pat_completeness auto
termination
  by (relation "measure (\<lambda>(ar, item_user, norms, top_k, block_size, start, tables).
        length item_user - start)") auto

declare block_loop.simps [simp del]

text \<open>
  \<open>np.zeros\<close> raises for a negative \<open>top_k\<close> and \<open>range\<close> for a block size of 0; a
  negative block size gives an empty range.
\<close>

definition compute_item_similarities_blockwise :: "arith \<Rightarrow> real list list \<Rightarrow> int \<Rightarrow> int
    \<Rightarrow> py_error + nat list list \<times> real list list" where
  "compute_item_similarities_blockwise ar item_user top_k block_size =
    (let n_items = length item_user;
         norms = map (a_norm ar) item_user
     in if top_k < 0 then Inl ValueError
        else (let top_indices = replicate n_items (replicate (nat top_k) 0);
                  top_scores = replicate n_items (replicate (nat top_k) 0)
              in if block_size = 0 then Inl ValueError
                 else if block_size < 0 then Inr (top_indices, top_scores)
                 else Inr (block_loop ar item_user norms (nat top_k) (nat block_size) 0
                             (top_indices, top_scores))))"

text \<open>
  \<open>build_and_save_cf_model\<close>: the result is the value returned (\<open>None\<close> or the model
  path) together with the files, a map from paths to the saved models.
\<close>

definition item_count :: "rating_row list \<Rightarrow> int \<Rightarrow> int" where
  "item_count rows mid = int (length (filter (\<lambda>r. movieId r = mid) rows))"

definition build_and_save_cf_model :: "arith \<Rightarrow> (string \<rightharpoonup> cf_model) \<Rightarrow> rating_row list \<Rightarrow> link_row list
    \<Rightarrow> string \<Rightarrow> int \<Rightarrow> int \<Rightarrow> int \<Rightarrow> py_error + string option \<times> (string \<rightharpoonup> cf_model)" where
  "build_and_save_cf_model ar files ratings links model_path top_k min_item_ratings block_size =
    (let (movie_to_tmdb, tmdb_to_movie) = build_tmdb_mapping links;
         valid = filter (\<lambda>r. movie_to_tmdb (movieId r) \<noteq> None) ratings;
         valid = (if 1 < min_item_ratings
                  then filter (\<lambda>r. min_item_ratings \<le> item_count valid (movieId r)) valid
                  else valid)
     in if valid = [] then Inr (None, files)
        else (let (item_user, item_index, user_index) = build_item_user_matrix valid
              in case compute_item_similarities_blockwise ar item_user top_k block_size of
                   Inl e \<Rightarrow> Inl e
                 | Inr (indices, scores) \<Rightarrow>
                    (let index_to_movie = unique (map movieId valid)
                     in Inr (Some model_path,
                             files(model_path \<mapsto>
                               \<lparr>item_index = item_index, user_index = user_index,
                                top_indices = indices, top_scores = scores,
                                index_to_movieId = Some index_to_movie,
                                movieId_to_tmdbId = movie_to_tmdb,
                                tmdbId_to_movieId = tmdb_to_movie\<rparr>)))))"

text \<open>
  Auxiliary notions for the properties of the tables: the similarity the code computes
  for two rows, and what the loops leave in row \<open>g\<close> of the two tables.
\<close>

definition stored_sim :: "arith \<Rightarrow> real list list \<Rightarrow> nat \<Rightarrow> nat \<Rightarrow> real" where
  "stored_sim ar item_user g j =
     a_div ar (a_dot ar (item_user ! g) (item_user ! j))
       (a_mul ar (a_norm ar (item_user ! g)) (a_norm ar (item_user ! j)))"

definition neighbor_row :: "arith \<Rightarrow> real list list \<Rightarrow> nat \<Rightarrow> nat \<Rightarrow> nat list \<times> real list" where
  "neighbor_row ar item_user top_k g =
    (let (idx, sims) = masked_row ar item_user (map (a_norm ar) item_user) g;
         order = top_order sims top_k
     in (map (\<lambda>i. idx ! i) order @ replicate (top_k - length order) 0,
         map (\<lambda>i. sims ! i) order @ replicate (top_k - length order) 0))"

text \<open>The columns with a stored, non-zero product in row \<open>g\<close>, without \<open>g\<close> itself.\<close>

definition neighbors_of :: "arith \<Rightarrow> real list list \<Rightarrow> nat \<Rightarrow> nat list" where
  "neighbors_of ar M g = filter (\<lambda>j. a_dot ar (M ! g) (M ! j) \<noteq> 0 \<and> j \<noteq> g) [0..<length M]"

text \<open>
  The state of the tables when the rows below \<open>s\<close> have been processed: these hold
  their final content and the others are still zero.
\<close>

definition tables_upto :: "arith \<Rightarrow> real list list \<Rightarrow> nat \<Rightarrow> nat \<Rightarrow> nat list list \<times> real list list \<Rightarrow> bool" where
  "tables_upto ar M K s tables =
    (length (fst tables) = length M \<and> length (snd tables) = length M \<and>
     (\<forall>g < length M.
        (if g < s then (fst tables ! g, snd tables ! g) = neighbor_row ar M K g
         else (fst tables ! g, snd tables ! g) = (replicate K 0, replicate K 0))))"

text \<open>
  What the rounded operations keep of the signs: the product of two rows without negative
  entries is not negative, a denominator (the product of two norms, each at least the
  \<open>1e-10\<close> added to it) is positive, and the quotient of a non-negative number by a
  positive one is not negative.
\<close>

definition sign_faithful :: "arith \<Rightarrow> bool" where
  "sign_faithful ar =
    ((\<forall>u v. (\<forall>x \<in> set u. 0 \<le> x) \<and> (\<forall>x \<in> set v. 0 \<le> x) \<longrightarrow> 0 \<le> a_dot ar u v) \<and>
     (\<forall>u v. 0 < a_mul ar (a_norm ar u) (a_norm ar v)) \<and>
     (\<forall>x y. 0 \<le> x \<and> 0 < y \<longrightarrow> 0 \<le> a_div ar x y))"

text \<open>
  The operations as IEEE arithmetic performs them on 32-bit floats, on which the examples
  are run. \<open>float32\<close> rounds a real number to the nearest number with a significand of
  24 bits, ties to even; the range of the exponent is not bounded, so that overflow and
  subnormal numbers are left out. Every operation is rounded once: the products and the
  partial sums of a product of rows and of a sum of squares, taken from left to right
  (the libraries may add in another order, which matters only where a partial sum is
  rounded), the square root, the addition of the constant \<open>1e-10\<close>, itself rounded to a
  float, the product of two norms and the quotient.
\<close>

definition float32 :: "real \<Rightarrow> real" where
  "float32 x =
    (if x = 0 then 0
     else (let e = \<lfloor>log 2 \<bar>x\<bar>\<rfloor> - 23
           in of_int (round_half_even (x / 2 powr of_int e)) * 2 powr of_int e))"

definition float32_dot :: "real list \<Rightarrow> real list \<Rightarrow> real" where
  "float32_dot u v = foldl (\<lambda>acc (a, b). float32 (acc + float32 (a * b))) 0 (zip u v)"

definition float32_norm :: "real list \<Rightarrow> real" where
  "float32_norm u =
     float32 (float32 (sqrt (foldl (\<lambda>acc a. float32 (acc + float32 (a * a))) 0 u))
              + float32 (1 / 10 ^ 10))"

definition float32_arith :: arith where
  "float32_arith = \<lparr>a_dot = float32_dot, a_norm = float32_norm,
     a_mul = (\<lambda>x y. float32 (x * y)), a_div = (\<lambda>x y. float32 (x / y))\<rparr>"

section \<open>Example inputs\<close>

text \<open>A small model: three films, the first with two neighbours.\<close>

definition ex_model :: cf_model where
  "ex_model = \<lparr>item_index = [10 \<mapsto> 0, 70 \<mapsto> 1, 80 \<mapsto> 2],
     user_index = [1 \<mapsto> 0],
     top_indices = [[1, 2], [0, 0], [0, 0]],
     top_scores = [[0.9, 0.4], [0.9, 0], [0.4, 0]],
     index_to_movieId = Some [10, 70, 80],
     movieId_to_tmdbId = [10 \<mapsto> 1, 70 \<mapsto> 7, 80 \<mapsto> 6],
     tmdbId_to_movieId = [1 \<mapsto> 10, 7 \<mapsto> 70, 6 \<mapsto> 80]\<rparr>"

text \<open>A concrete profile, used to evaluate the definitions.\<close>

definition ex_profile :: profile where
  "ex_profile = \<lparr>p_id = 603, p_title = ''The Matrix'', p_overview = Some ''A hacker wakes'',
     p_genres = Some [''Action'', ''Science Fiction''], p_cast = Some [''Keanu Reeves''],
     p_director = Some [''Lana Wachowski''], p_crew = Some [], p_keywords = None,
     p_ml_tags = Some [''cyberpunk''], p_release_year = Some ''1999'',
     p_vote_average = 8.2, p_popularity = Some 80\<rparr>"

definition ex_old_profile :: profile where
  "ex_old_profile = \<lparr>p_id = 7, p_title = ''Planet of the Apes'', p_overview = Some ''Astronauts crash'',
     p_genres = Some [''Science Fiction''], p_cast = Some [''Charlton Heston''],
     p_director = Some [''Franklin Schaffner''], p_crew = None, p_keywords = Some [''ape''],
     p_ml_tags = None, p_release_year = Some ''1968'',
     p_vote_average = 7, p_popularity = Some 5\<rparr>"

definition ex_scored :: "scored_movie list" where
  "ex_scored =
    [\<lparr>sm_profile = ex_profile, similarity_score = 0.4, final_score = 0.5, rerank_score = None\<rparr>,
     \<lparr>sm_profile = ex_old_profile, similarity_score = 0.8, final_score = 0.9, rerank_score = None\<rparr>,
     \<lparr>sm_profile = ex_profile\<lparr>p_id := 9\<rparr>, similarity_score = 0.85, final_score = 0.9,
      rerank_score = None\<rparr>]"

text \<open>
  Two requests for the seed 1. In the first, candidate 6, with similarity 0.5, has a
  release year that is not a number, and candidate 7 has similarity 0.01; in the second
  the candidates are 9, with similarity 0.5, and 7, with similarity 0.01, both with a
  numeric release year.
\<close>

definition ex_tba_profile :: profile where
  "ex_tba_profile = \<lparr>p_id = 6, p_title = ''Untitled Sequel'', p_overview = Some ''A sequel'',
     p_genres = Some [''Science Fiction''], p_cast = None,
     p_director = None, p_crew = None, p_keywords = None,
     p_ml_tags = None, p_release_year = Some ''TBA'',
     p_vote_average = 6.5, p_popularity = Some 12\<rparr>"

definition ex_world :: world where
  "ex_world = \<lparr>tmdb_fetch = (\<lambda>i. if i = 1 then Some ex_profile
                               else if i = 7 then Some ex_old_profile
                               else if i = 6 then Some ex_tba_profile
                               else if i = 9 then Some ex_profile else None),
     candidate_ids = [6, 7],
     similarity = (\<lambda>source_features candidate_features.
                     Some ([0.5, 0.01], \<lambda>i j. if i = j then 1 else 0)),
     reranker = None, reranker_top_k = 40, ml_available = True,
     cf_model_file = Stored ex_model\<rparr>"

definition ex_world_ok :: world where
  "ex_world_ok = ex_world\<lparr>candidate_ids := [9, 7]\<rparr>"

text \<open>
  The first request with a model whose list \<open>index_to_movieId\<close> lacks its last entry:
  the lookup of the neighbours of the seed raises \<open>IndexError\<close>.
\<close>

definition ex_world_short :: world where
  "ex_world_short =
     ex_world\<lparr>cf_model_file := Stored (ex_model\<lparr>index_to_movieId := Some [10, 70]\<rparr>)\<rparr>"

text \<open>A user who likes action films and dislikes film 42.\<close>

definition ex_prefs :: preferences where
  "ex_prefs = \<lparr>pref_genres = [''Action'' \<mapsto> 2], pref_directors = Map.empty,
                pref_actors = [''Keanu Reeves'' \<mapsto> 1.5], pref_keywords = Map.empty\<rparr>"

definition ex_rec42 :: recommendation where
  "ex_rec42 = \<lparr>rec_id = 42, rec_title = ''The Matrix'',
      rec_profile = Some (ex_profile\<lparr>p_id := 42\<rparr>), rec_similarity_score = Some 45.3,
      rec_final_score = None, rec_personalization_score = None\<rparr>"

text \<open>A second entry of a base list, with a lower score; the user has not disliked it.\<close>

definition ex_rec43 :: recommendation where
  "ex_rec43 = \<lparr>rec_id = 43, rec_title = ''Planet of the Apes'',
      rec_profile = Some (ex_old_profile\<lparr>p_id := 43\<rparr>), rec_similarity_score = Some 30,
      rec_final_score = None, rec_personalization_score = None\<rparr>"

definition ex_user :: user_profile where
  "ex_user = (empty_profile ''u1'')\<lparr>up_disliked := [42], up_preferences := ex_prefs\<rparr>"

definition ex_movie_data :: movie_data where
  "ex_movie_data = \<lparr>md_genres = Some [Dict (Some ''Action''), Name ''Drama'', Dict None],
     md_director = Some [''Lana Wachowski''], md_cast = Some [Name ''Keanu Reeves''],
     md_keywords = Some [Dict (Some ''hacker'')]\<rparr>"

definition ex_disk :: "string \<rightharpoonup> user_profile" where
  "ex_disk = [''u1'' \<mapsto> ex_user]"

text \<open>A ratings table with two linked films of two ratings each.\<close>

definition ex_ratings :: "rating_row list" where
  "ex_ratings =
     [\<lparr>userId = 1, movieId = 10, stars = 4\<rparr>, \<lparr>userId = 2, movieId = 10, stars = 5\<rparr>,
      \<lparr>userId = 1, movieId = 70, stars = 3\<rparr>, \<lparr>userId = 2, movieId = 70, stars = 4.5\<rparr>,
      \<lparr>userId = 1, movieId = 99, stars = 2\<rparr>]"

definition ex_links :: "link_row list" where
  "ex_links = [\<lparr>link_movieId = 10, link_tmdbId = Some 1\<rparr>, \<lparr>link_movieId = 70, link_tmdbId = Some 7\<rparr>,
               \<lparr>link_movieId = 99, link_tmdbId = None\<rparr>]"

text \<open>The matrix of three films and two users.\<close>

definition ex_matrix :: "real list list" where
  "ex_matrix = [[4, 5], [3, 4], [2, 0]]"

section \<open>Properties of the feature string\<close>

lemma is_space_blank: "is_space CHR '' ''"
  by (simp add: is_space_def)

lemma split_ws_sep:
  "split_ws cur (a @ '' '' @ b) = split_ws cur a @ split_ws [] b"
  by (induction a arbitrary: cur) (simp_all add: is_space_blank)

lemma py_split_sep: "py_split (a @ '' '' @ b) = py_split a @ py_split b"
  unfolding py_split_def by (rule split_ws_sep)

lemma py_split_join: "py_split (py_join '' '' xs) = concat (map py_split xs)"
proof (induction "'' ''" xs rule: py_join.induct)
  case 1
  show ?case by (simp add: py_split_def)
next
  case (2 x)
  show ?case by simp
next
  case (3 x y ys)
  have "py_split (py_join '' '' (x # y # ys)) = py_split x @ py_split (py_join '' '' (y # ys))"
    using py_split_sep [of x "py_join '' '' (y # ys)"] by simp
  with 3 show ?case by simp
qed

lemma py_split_rep:
  "concat (replicate w (py_split (py_join '' '' xs))) = rep_tokens w (field_tokens xs)"
  by (simp add: rep_tokens_def field_tokens_def py_split_join)

lemma field_tokens_Nil: "field_tokens [] = []"
  by (simp add: field_tokens_def)

lemma rep_tokens_Nil: "rep_tokens w [] = []"
  by (induction w) (simp_all add: rep_tokens_def)

lemma length_rep_tokens: "length (rep_tokens w ts) = w * length ts"
  by (induction w) (simp_all add: rep_tokens_def)

lemma truthy_get_list: "truthy f \<longleftrightarrow> get_list f \<noteq> []"
  by (cases f) simp_all

lemma split_blocks:
  "py_split (py_join '' '' (weighted_blocks tab)) =
     concat (map (\<lambda>(xs, w). rep_tokens w (field_tokens xs)) tab)"
proof -
  have "concat (map py_split (weighted_blocks tab)) =
     concat (map (\<lambda>(xs, w). rep_tokens w (field_tokens xs)) tab)"
    by (induction tab)
       (auto simp: weighted_blocks_def py_split_rep field_tokens_Nil rep_tokens_Nil)
  then show ?thesis by (simp add: py_split_join)
qed

lemma create_feature_string_spec:
  "create_feature_string (Some p) = spec_feature_string p"
  by (cases "p_overview p")
     (simp_all add: create_feature_string_def spec_feature_string_def weighted_blocks_def
        weight_table_def truthy_get_list)

lemma overview_tokens:
  "field_tokens (case ov of None \<Rightarrow> [] | Some s \<Rightarrow> (if s = [] then [] else [s])) =
   py_split (get_list ov)"
  by (cases ov) (simp_all add: field_tokens_def py_split_def)

text \<open>
  Claim C1. For every profile, \<open>create_feature_string\<close> is the space-joined
  concatenation of the blocks of the non-empty fields in the fixed order genres (3 times),
  director (3), keywords (2), MovieLens tags (2), cast (2), overview (1), crew (1), each
  list joined by spaces before it is repeated. An empty or missing field adds nothing, so
  the words of the result are exactly the tokens of each field repeated as often as the
  field's weight, and the word count is the weighted sum of the token counts. A falsy
  profile gives the empty string.
\<close>

theorem create_feature_string_weighted:
  "create_feature_string None = [] \<and>
   create_feature_string (Some p) = spec_feature_string p \<and>
   py_split (create_feature_string (Some p)) =
     rep_tokens 3 (field_tokens (get_list (p_genres p))) @
     rep_tokens 3 (field_tokens (get_list (p_director p))) @
     rep_tokens 2 (field_tokens (get_list (p_keywords p))) @
     rep_tokens 2 (field_tokens (get_list (p_ml_tags p))) @
     rep_tokens 2 (field_tokens (get_list (p_cast p))) @
     rep_tokens 1 (py_split (get_list (p_overview p))) @
     rep_tokens 1 (field_tokens (get_list (p_crew p))) \<and>
   length (py_split (create_feature_string (Some p))) =
     3 * length (field_tokens (get_list (p_genres p))) +
     3 * length (field_tokens (get_list (p_director p))) +
     2 * length (field_tokens (get_list (p_keywords p))) +
     2 * length (field_tokens (get_list (p_ml_tags p))) +
     2 * length (field_tokens (get_list (p_cast p))) +
     1 * length (py_split (get_list (p_overview p))) +
     1 * length (field_tokens (get_list (p_crew p)))"
proof -
  have none: "create_feature_string None = []"
    by (simp add: create_feature_string_def)
  have eq: "create_feature_string (Some p) = spec_feature_string p"
    by (rule create_feature_string_spec)
  have toks: "py_split (create_feature_string (Some p)) =
     rep_tokens 3 (field_tokens (get_list (p_genres p))) @
     rep_tokens 3 (field_tokens (get_list (p_director p))) @
     rep_tokens 2 (field_tokens (get_list (p_keywords p))) @
     rep_tokens 2 (field_tokens (get_list (p_ml_tags p))) @
     rep_tokens 2 (field_tokens (get_list (p_cast p))) @
     rep_tokens 1 (py_split (get_list (p_overview p))) @
     rep_tokens 1 (field_tokens (get_list (p_crew p)))"
    unfolding eq spec_feature_string_def split_blocks
    by (simp add: weight_table_def overview_tokens)
  have len: "length (py_split (create_feature_string (Some p))) =
     3 * length (field_tokens (get_list (p_genres p))) +
     3 * length (field_tokens (get_list (p_director p))) +
     2 * length (field_tokens (get_list (p_keywords p))) +
     2 * length (field_tokens (get_list (p_ml_tags p))) +
     2 * length (field_tokens (get_list (p_cast p))) +
     1 * length (py_split (get_list (p_overview p))) +
     1 * length (field_tokens (get_list (p_crew p)))"
    unfolding toks by (simp add: length_rep_tokens)
  from none eq toks len show ?thesis by blast
qed

theorem create_feature_string_weighted_witness:
  "py_split (create_feature_string (Some ex_profile)) =
     [''Action'', ''Science'', ''Fiction'', ''Action'', ''Science'', ''Fiction'',
      ''Action'', ''Science'', ''Fiction'', ''Lana'', ''Wachowski'', ''Lana'', ''Wachowski'',
      ''Lana'', ''Wachowski'', ''cyberpunk'', ''cyberpunk'', ''Keanu'', ''Reeves'',
      ''Keanu'', ''Reeves'', ''A'', ''hacker'', ''wakes''] \<and>
   length (py_split (create_feature_string (Some ex_profile))) = 24"
proof -
  note toks = create_feature_string_weighted [of ex_profile, THEN conjunct2, THEN conjunct2,
      THEN conjunct1]
  have "rep_tokens 3 (field_tokens (get_list (p_genres ex_profile))) @
     rep_tokens 3 (field_tokens (get_list (p_director ex_profile))) @
     rep_tokens 2 (field_tokens (get_list (p_keywords ex_profile))) @
     rep_tokens 2 (field_tokens (get_list (p_ml_tags ex_profile))) @
     rep_tokens 2 (field_tokens (get_list (p_cast ex_profile))) @
     rep_tokens 1 (py_split (get_list (p_overview ex_profile))) @
     rep_tokens 1 (field_tokens (get_list (p_crew ex_profile))) =
     [''Action'', ''Science'', ''Fiction'', ''Action'', ''Science'', ''Fiction'',
      ''Action'', ''Science'', ''Fiction'', ''Lana'', ''Wachowski'', ''Lana'', ''Wachowski'',
      ''Lana'', ''Wachowski'', ''cyberpunk'', ''cyberpunk'', ''Keanu'', ''Reeves'',
      ''Keanu'', ''Reeves'', ''A'', ''hacker'', ''wakes'']"
    by code_simp
  with toks show ?thesis by simp
qed

section \<open>Properties of the scoring loop\<close>

lemma score_loop_sound:
  "score_loop N sims xs = Inr ms \<Longrightarrow> m \<in> set ms \<Longrightarrow>
     \<exists>i p y. (i, p) \<in> set xs \<and> i < length sims \<and> 0.03 \<le> sims ! i \<and>
        py_int (release_year_text p) = Inr y \<and> m = scored_entry N (sims ! i) p y"
proof (induction xs arbitrary: ms)
  case Nil
  then show ?case by simp
next
  case (Cons x xs)
  obtain i p where x: "x = (i, p)" by (cases x)
  show ?case
  proof (cases "i < length sims")
    case False
    with Cons.prems x show ?thesis by (simp add: nth_err_def)
  next
    case inr: True
    show ?thesis
    proof (cases "sims ! i < 0.03")
      case True
      with Cons.prems x inr have "score_loop N sims xs = Inr ms" by (simp add: nth_err_def)
      from Cons.IH [OF this Cons.prems(2)] show ?thesis by auto
    next
      case False
      with Cons.prems(1) x inr obtain y ms' where
        y: "py_int (release_year_text p) = Inr y" and
        ms': "score_loop N sims xs = Inr ms'" and
        ms: "ms = scored_entry N (sims ! i) p y # ms'"
        by (auto simp: nth_err_def scored_entry_def Let_def split: sum.splits)
      show ?thesis
      proof (cases "m = scored_entry N (sims ! i) p y")
        case True
        have "(i, p) \<in> set (x # xs)" using x by simp
        moreover have "0.03 \<le> sims ! i" using False by simp
        ultimately show ?thesis using inr y True by blast
      next
        case neq: False
        with ms Cons.prems(2) have "m \<in> set ms'" by simp
        from Cons.IH [OF ms' this] show ?thesis by auto
      qed
    qed
  qed
qed

lemma score_loop_complete:
  "score_loop N sims xs = Inr ms \<Longrightarrow> (i, p) \<in> set xs \<Longrightarrow> 0.03 \<le> sims ! i \<Longrightarrow>
     \<exists>y. py_int (release_year_text p) = Inr y \<and> scored_entry N (sims ! i) p y \<in> set ms"
proof (induction xs arbitrary: ms)
  case Nil
  then show ?case by simp
next
  case (Cons x xs)
  obtain j q where x: "x = (j, q)" by (cases x)
  show ?case
  proof (cases "j < length sims")
    case False
    with Cons.prems x show ?thesis by (simp add: nth_err_def)
  next
    case inr: True
    show ?thesis
    proof (cases "sims ! j < 0.03")
      case True
      with Cons.prems x inr have l: "score_loop N sims xs = Inr ms" by (simp add: nth_err_def)
      from True Cons.prems x have "(i, p) \<in> set xs" by auto
      from Cons.IH [OF l this Cons.prems(3)] show ?thesis .
    next
      case False
      with Cons.prems(1) x inr obtain y ms' where
        y: "py_int (release_year_text q) = Inr y" and
        ms': "score_loop N sims xs = Inr ms'" and
        ms: "ms = scored_entry N (sims ! j) q y # ms'"
        by (auto simp: nth_err_def scored_entry_def Let_def split: sum.splits)
      show ?thesis
      proof (cases "(i, p) = (j, q)")
        case True
        with y ms show ?thesis by auto
      next
        case neq: False
        with x Cons.prems(2) have "(i, p) \<in> set xs" by auto
        from Cons.IH [OF ms' this Cons.prems(3)] ms show ?thesis by auto
      qed
    qed
  qed
qed

lemma score_loop_total:
  "(\<forall>(i, p) \<in> set xs. i < length sims \<and>
       (0.03 \<le> sims ! i \<longrightarrow> (\<exists>y. py_int (release_year_text p) = Inr y)))
    \<Longrightarrow> \<exists>ms. score_loop N sims xs = Inr ms"
proof (induction xs)
  case Nil
  then show ?case by simp
next
  case (Cons x xs)
  obtain i p where x: "x = (i, p)" by (cases x)
  from Cons obtain ms where ms: "score_loop N sims xs = Inr ms" by auto
  from Cons.prems x have inr: "i < length sims" by auto
  show ?case
  proof (cases "sims ! i < 0.03")
    case True
    with x inr ms show ?thesis by (simp add: nth_err_def)
  next
    case False
    with Cons.prems x obtain y where "py_int (release_year_text p) = Inr y" by auto
    with x inr ms False show ?thesis by (simp add: nth_err_def Let_def)
  qed
qed

lemma in_set_enumerate0: "(i, p) \<in> set (List.enumerate 0 cps) \<longleftrightarrow> i < length cps \<and> cps ! i = p"
  by (auto simp: in_set_enumerate_eq)

text \<open>
  Claim C4. When the similarities cover the candidates and the release year of every
  candidate at or above 0.03 reads as an integer, the scoring loop returns, it keeps
  every candidate at or above 0.03, and the final score of every entry is the raw
  similarity plus the rating boost \<open>(vote_average / 10) * 0.08\<close> (only from a vote
  average of 6), plus the popularity boost \<open>min (popularity / 1000) 0.02\<close>, plus the
  age penalty \<open>- 0.05\<close> (only for a known release year before 1990 and a vote average
  below 7.5), plus the collaborative boost.
\<close>

theorem score_adjustments:
  assumes len: "length cps \<le> length sims"
    and years: "\<forall>i < length cps. 0.03 \<le> sims ! i \<longrightarrow>
                 (\<exists>y. py_int (release_year_text (cps ! i)) = Inr y)"
  shows "\<exists>ms. score_loop N sims (List.enumerate 0 cps) = Inr ms \<and>
    (\<forall>i < length cps. 0.03 \<le> sims ! i \<longrightarrow>
       (\<exists>m \<in> set ms. sm_profile m = cps ! i \<and> similarity_score m = sims ! i)) \<and>
    (\<forall>m \<in> set ms. \<exists>i y. i < length cps \<and> sm_profile m = cps ! i \<and>
       similarity_score m = sims ! i \<and> 0.03 \<le> sims ! i \<and>
       py_int (release_year_text (cps ! i)) = Inr y \<and>
       final_score m =
         sims ! i
         + (if 6 \<le> p_vote_average (cps ! i) then (p_vote_average (cps ! i) / 10) * 0.08 else 0)
         + min ((case p_popularity (cps ! i) of None \<Rightarrow> 0 | Some v \<Rightarrow> v) / 1000) 0.02
         + (if 0 < y \<and> y < 1990 \<and> p_vote_average (cps ! i) < 7.5 then - 0.05 else 0)
         + cf_boost N (cps ! i))"
proof -
  have "\<forall>(i, p) \<in> set (List.enumerate 0 cps). i < length sims \<and>
       (0.03 \<le> sims ! i \<longrightarrow> (\<exists>y. py_int (release_year_text p) = Inr y))"
    using len years by (auto simp: in_set_enumerate0)
  from score_loop_total [OF this] obtain ms where
    ms: "score_loop N sims (List.enumerate 0 cps) = Inr ms" by blast
  have a: "\<exists>m \<in> set ms. sm_profile m = cps ! i \<and> similarity_score m = sims ! i"
    if "i < length cps" "0.03 \<le> sims ! i" for i
  proof -
    from that have "(i, cps ! i) \<in> set (List.enumerate 0 cps)" by (simp add: in_set_enumerate0)
    from score_loop_complete [OF ms this that(2)] obtain y where
      "scored_entry N (sims ! i) (cps ! i) y \<in> set ms" by blast
    then show ?thesis by (force simp: scored_entry_def)
  qed
  have b: "\<exists>i y. i < length cps \<and> sm_profile m = cps ! i \<and>
       similarity_score m = sims ! i \<and> 0.03 \<le> sims ! i \<and>
       py_int (release_year_text (cps ! i)) = Inr y \<and>
       final_score m =
         sims ! i
         + (if 6 \<le> p_vote_average (cps ! i) then (p_vote_average (cps ! i) / 10) * 0.08 else 0)
         + min ((case p_popularity (cps ! i) of None \<Rightarrow> 0 | Some v \<Rightarrow> v) / 1000) 0.02
         + (if 0 < y \<and> y < 1990 \<and> p_vote_average (cps ! i) < 7.5 then - 0.05 else 0)
         + cf_boost N (cps ! i)"
    if "m \<in> set ms" for m
  proof -
    from score_loop_sound [OF ms that] obtain i p y where
      ip: "(i, p) \<in> set (List.enumerate 0 cps)" and s: "0.03 \<le> sims ! i" and
      y: "py_int (release_year_text p) = Inr y" and m: "m = scored_entry N (sims ! i) p y"
      by blast
    from ip have i: "i < length cps" and p: "p = cps ! i" by (simp_all add: in_set_enumerate0)
    show ?thesis
      apply (rule exI [of _ i], rule exI [of _ y])
      using i s y unfolding m p
      by (simp add: scored_entry_def rating_boost_def popularity_boost_def age_penalty_def)
  qed
  from ms a b show ?thesis by blast
qed

lemma py_int_1968: "py_int ''1968'' = Inr 1968"
  by (simp add: py_int_def int_strip_def is_int_space_def is_digit_def digits_value_def digit_val_def)

lemma py_int_1999: "py_int ''1999'' = Inr 1999"
  by (simp add: py_int_def int_strip_def is_int_space_def is_digit_def digits_value_def digit_val_def)

theorem score_adjustments_witness:
  "\<exists>ms. score_loop {603} [0.5, 0.2] (List.enumerate 0 [ex_profile, ex_old_profile]) = Inr ms \<and>
     (\<exists>m \<in> set ms. sm_profile m = ex_old_profile \<and> final_score m = 0.211) \<and>
     (\<exists>m \<in> set ms. sm_profile m = ex_profile \<and> final_score m = 0.6356)"
proof -
  let ?cps = "[ex_profile, ex_old_profile]"
  let ?sims = "[0.5, 0.2 :: real]"
  have y0: "py_int (release_year_text ex_profile) = Inr 1999"
    by (simp add: release_year_text_def ex_profile_def py_int_1999)
  have y1: "py_int (release_year_text ex_old_profile) = Inr 1968"
    by (simp add: release_year_text_def ex_old_profile_def py_int_1968)
  have len: "length ?cps \<le> length ?sims" by simp
  have years: "\<forall>i < length ?cps. 0.03 \<le> ?sims ! i \<longrightarrow>
                 (\<exists>y. py_int (release_year_text (?cps ! i)) = Inr y)"
    using y0 y1 by (simp add: less_Suc_eq nth_Cons')
  from score_adjustments [OF len years, of "{603}"] obtain ms where
    ms: "score_loop {603} ?sims (List.enumerate 0 ?cps) = Inr ms" and
    a: "\<forall>i < length ?cps. 0.03 \<le> ?sims ! i \<longrightarrow>
       (\<exists>m \<in> set ms. sm_profile m = ?cps ! i \<and> similarity_score m = ?sims ! i)" and
    b: "\<forall>m \<in> set ms. \<exists>i y. i < length ?cps \<and> sm_profile m = ?cps ! i \<and>
       similarity_score m = ?sims ! i \<and> 0.03 \<le> ?sims ! i \<and>
       py_int (release_year_text (?cps ! i)) = Inr y \<and>
       final_score m =
         ?sims ! i
         + (if 6 \<le> p_vote_average (?cps ! i) then (p_vote_average (?cps ! i) / 10) * 0.08 else 0)
         + min ((case p_popularity (?cps ! i) of None \<Rightarrow> 0 | Some v \<Rightarrow> v) / 1000) 0.02
         + (if 0 < y \<and> y < 1990 \<and> p_vote_average (?cps ! i) < 7.5 then - 0.05 else 0)
         + cf_boost {603} (?cps ! i)"
    by blast
  have ne: "ex_profile \<noteq> ex_old_profile"
    by (simp add: ex_profile_def ex_old_profile_def)
  from a [rule_format, of 1] obtain m1 where
    m1: "m1 \<in> set ms" "sm_profile m1 = ex_old_profile" "similarity_score m1 = 0.2" by auto
  from a [rule_format, of 0] obtain m0 where
    m0: "m0 \<in> set ms" "sm_profile m0 = ex_profile" "similarity_score m0 = 0.5" by auto
  from b [rule_format, OF m1(1)] m1(2) ne y1 have "final_score m1 = 0.211"
    by (auto simp: less_Suc_eq ex_old_profile_def cf_boost_def)
  moreover from b [rule_format, OF m0(1)] m0(2) ne y0 have "final_score m0 = 0.6356"
    by (auto simp: less_Suc_eq ex_profile_def cf_boost_def)
  ultimately show ?thesis using ms m0 m1 by blast
qed





section \<open>Properties of the MMR selection\<close>

lemma mmr_scan_cases:
  "(mmr_scan f avail (bi, bm) = (bi, bm) \<and> (\<forall>a \<in> set avail. f a \<le> bm)) \<or>
   (\<exists>as b bs. avail = as @ b # bs \<and> mmr_scan f avail (bi, bm) = (Some b, f b) \<and>
      bm < f b \<and> (\<forall>a \<in> set as. f a < f b) \<and> (\<forall>a \<in> set bs. f a \<le> f b))"
proof (induction avail arbitrary: bi bm)
  case Nil
  show ?case by simp
next
  case (Cons x rest)
  show ?case
  proof (cases "bm < f x")
    case True
    from Cons.IH [of "Some x" "f x"] show ?thesis
    proof
      assume "mmr_scan f rest (Some x, f x) = (Some x, f x) \<and> (\<forall>a \<in> set rest. f a \<le> f x)"
      with True have "x # rest = [] @ x # rest \<and> mmr_scan f (x # rest) (bi, bm) = (Some x, f x) \<and>
        bm < f x \<and> (\<forall>a \<in> set []. f a < f x) \<and> (\<forall>a \<in> set rest. f a \<le> f x)"
        by simp
      then show ?thesis by blast
    next
      assume "\<exists>as b bs. rest = as @ b # bs \<and> mmr_scan f rest (Some x, f x) = (Some b, f b) \<and>
        f x < f b \<and> (\<forall>a \<in> set as. f a < f b) \<and> (\<forall>a \<in> set bs. f a \<le> f b)"
      then obtain as b bs where r: "rest = as @ b # bs"
        "mmr_scan f rest (Some x, f x) = (Some b, f b)" "f x < f b"
        "\<forall>a \<in> set as. f a < f b" "\<forall>a \<in> set bs. f a \<le> f b" by blast
      with True have "x # rest = (x # as) @ b # bs \<and>
        mmr_scan f (x # rest) (bi, bm) = (Some b, f b) \<and>
        bm < f b \<and> (\<forall>a \<in> set (x # as). f a < f b) \<and> (\<forall>a \<in> set bs. f a \<le> f b)"
        by simp
      then show ?thesis by blast
    qed
  next
    case False
    from Cons.IH [of bi bm] show ?thesis
    proof
      assume "mmr_scan f rest (bi, bm) = (bi, bm) \<and> (\<forall>a \<in> set rest. f a \<le> bm)"
      with False show ?thesis by simp
    next
      assume "\<exists>as b bs. rest = as @ b # bs \<and> mmr_scan f rest (bi, bm) = (Some b, f b) \<and>
        bm < f b \<and> (\<forall>a \<in> set as. f a < f b) \<and> (\<forall>a \<in> set bs. f a \<le> f b)"
      then obtain as b bs where r: "rest = as @ b # bs"
        "mmr_scan f rest (bi, bm) = (Some b, f b)" "bm < f b"
        "\<forall>a \<in> set as. f a < f b" "\<forall>a \<in> set bs. f a \<le> f b" by blast
      with False have "x # rest = (x # as) @ b # bs \<and>
        mmr_scan f (x # rest) (bi, bm) = (Some b, f b) \<and>
        bm < f b \<and> (\<forall>a \<in> set (x # as). f a < f b) \<and> (\<forall>a \<in> set bs. f a \<le> f b)"
        by auto
      then show ?thesis by blast
    qed
  qed
qed

lemma sort_key_first_max:
  fixes f :: "'a \<Rightarrow> real"
  assumes as: "\<forall>a \<in> set as. f a < f b" and bs: "\<forall>a \<in> set bs. f a \<le> f b"
  shows "sort_key (\<lambda>x. - f x) (as @ b # bs) = b # sort_key (\<lambda>x. - f x) (as @ bs)"
proof (rule properties_for_sort_key)
  show "mset (b # sort_key (\<lambda>x. - f x) (as @ bs)) = mset (as @ b # bs)" by simp
next
  fix k assume "k \<in> set (b # sort_key (\<lambda>x. - f x) (as @ bs))"
  have st: "filter (\<lambda>x. - f k = - f x) (sort_key (\<lambda>x. - f x) (as @ bs)) =
        filter (\<lambda>x. - f k = - f x) (as @ bs)"
    using sort_key_stable [of "\<lambda>x. - f x" "- f k" "as @ bs"] by (simp add: eq_commute)
  show "filter (\<lambda>x. - f k = - f x) (b # sort_key (\<lambda>x. - f x) (as @ bs)) =
        filter (\<lambda>x. - f k = - f x) (as @ b # bs)"
  proof (cases "f k = f b")
    case True
    with as have "filter (\<lambda>x. - f k = - f x) as = []" by (auto simp: filter_empty_conv)
    with True st show ?thesis by simp
  next
    case False
    with st show ?thesis by simp
  qed
next
  show "sorted (map (\<lambda>x. - f x) (b # sort_key (\<lambda>x. - f x) (as @ bs)))"
    using as bs by (auto simp: less_imp_le)
qed

lemma mmr_loop_const:
  fixes f :: "nat \<Rightarrow> real"
  shows "mmr_loop (\<lambda>sel. f) n avail sel =
    (if \<forall>a \<in> set (take n (sort_key (\<lambda>x. - f x) avail)). - 1000000000 < f a
     then Some (sel @ take n (sort_key (\<lambda>x. - f x) avail)) else None)"
proof (induction n arbitrary: avail sel)
  case 0
  show ?case by simp
next
  case (Suc n)
  show ?case
  proof (cases "avail = []")
    case True
    then show ?thesis by simp
  next
    case ne: False
    from mmr_scan_cases [of f avail None "- 1000000000"] show ?thesis
    proof
      assume a: "mmr_scan f avail (None, - 1000000000) = (None, - 1000000000) \<and>
          (\<forall>a \<in> set avail. f a \<le> - 1000000000)"
      from ne obtain y ys where s: "sort_key (\<lambda>x. - f x) avail = y # ys"
        by (cases "sort_key (\<lambda>x. - f x) avail") (auto dest: arg_cong [where f = length])
      then have "y \<in> set avail" using set_sort [of "\<lambda>x. - f x" avail] by auto
      with a have "f y \<le> - 1000000000" by blast
      with a s ne show ?thesis by auto
    next
      assume "\<exists>as b bs. avail = as @ b # bs \<and>
        mmr_scan f avail (None, - 1000000000) = (Some b, f b) \<and>
        - 1000000000 < f b \<and> (\<forall>a \<in> set as. f a < f b) \<and> (\<forall>a \<in> set bs. f a \<le> f b)"
      then obtain as b bs where r: "avail = as @ b # bs"
        "mmr_scan f avail (None, - 1000000000) = (Some b, f b)" "- 1000000000 < f b"
        "\<forall>a \<in> set as. f a < f b" "\<forall>a \<in> set bs. f a \<le> f b" by blast
      from r(4) have "b \<notin> set as" by auto
      then have rm: "remove1 b avail = as @ bs" unfolding r(1) by (simp add: remove1_append)
      have s: "sort_key (\<lambda>x. - f x) avail = b # sort_key (\<lambda>x. - f x) (as @ bs)"
        unfolding r(1) using r(4,5) by (rule sort_key_first_max)
      show ?thesis
        using ne r(2,3) Suc.IH [of "as @ bs" "sel @ [b]"] by (simp add: rm s)
    qed
  qed
qed

lemma insort_key_map:
  "insort_key f (h i) (map h js) = map h (insort_key (\<lambda>j. f (h j)) i js)"
  by (induction js) simp_all

lemma sort_key_map: "sort_key f (map h js) = map h (sort_key (\<lambda>j. f (h j)) js)"
  by (induction js) (simp_all add: insort_key_map)

lemma mmr_value_one: "mmr_value 1 idmap pw xs sel si = final_score (xs ! si)"
  by (simp add: mmr_value_def Let_def)

lemma mmr_select_one:
  "mmr_select 1 idmap pw xs n =
     (if \<forall>m \<in> set (take n (sort_desc final_score xs)). - 1000000000 < final_score m
      then take n (sort_desc final_score xs) else take n xs)"
proof -
  let ?f = "\<lambda>i. final_score (xs ! i)"
  let ?S = "sort_key (\<lambda>i. - ?f i) [0..<length xs]"
  have m: "mmr_value 1 idmap pw xs = (\<lambda>sel. ?f)"
    by (intro ext) (rule mmr_value_one)
  have s: "map (\<lambda>i. xs ! i) ?S = sort_desc final_score xs"
    using sort_key_map [of "\<lambda>m. - final_score m" "\<lambda>i. xs ! i" "[0..<length xs]"]
    by (simp add: sort_desc_def map_nth)
  have t: "take n (sort_desc final_score xs) = map (\<lambda>i. xs ! i) (take n ?S)"
    unfolding s [symmetric] by (simp add: take_map)
  show ?thesis
    unfolding mmr_select_def m mmr_loop_const t by simp
qed

lemma sort_desc_idem: "sort_desc key (sort_desc key xs) = sort_desc key xs"
  unfolding sort_desc_def by (rule sort_key_id_if_sorted) simp

text \<open>
  Claim C5. With \<open>lam = 1\<close> the greedy selection returns the first \<open>n\<close> entries of the
  list in descending order of final score (equal scores in their given order): for the
  list as the engine sorts it before the selection, whatever its scores, and for a list in
  any order whose final scores all exceed the initial \<open>best_mmr = -1e9\<close>. For every
  \<open>lam\<close>, the candidate a step selects attains the maximal value, every candidate before
  it in the iteration order is strictly below it, and a candidate is selected whenever
  some value exceeds the initial \<open>best_mmr\<close>.
\<close>

theorem mmr_relevance_only:
  "mmr_select 1 idmap pw (sort_desc final_score xs) n = take n (sort_desc final_score xs) \<and>
   ((\<forall>m \<in> set xs. - 1000000000 < final_score m) \<longrightarrow>
      mmr_select 1 idmap pw xs n = take n (sort_desc final_score xs)) \<and>
   (fst (mmr_scan (mmr_value lam idmap pw xs sel) avail (None, - 1000000000)) = Some b \<longrightarrow>
      (\<exists>as bs. avail = as @ b # bs \<and>
         (\<forall>a \<in> set as. mmr_value lam idmap pw xs sel a < mmr_value lam idmap pw xs sel b) \<and>
         (\<forall>a \<in> set bs. mmr_value lam idmap pw xs sel a \<le> mmr_value lam idmap pw xs sel b))) \<and>
   ((\<exists>a \<in> set avail. - 1000000000 < mmr_value lam idmap pw xs sel a) \<longrightarrow>
      (\<exists>b. fst (mmr_scan (mmr_value lam idmap pw xs sel) avail (None, - 1000000000)) = Some b))"
proof (intro conjI impI)
  show "mmr_select 1 idmap pw (sort_desc final_score xs) n = take n (sort_desc final_score xs)"
    by (simp add: mmr_select_one sort_desc_idem)
next
  assume "\<forall>m \<in> set xs. - 1000000000 < final_score m"
  then have "\<forall>m \<in> set (take n (sort_desc final_score xs)). - 1000000000 < final_score m"
    by (auto simp: sort_desc_def dest: in_set_takeD)
  then show "mmr_select 1 idmap pw xs n = take n (sort_desc final_score xs)"
    by (simp add: mmr_select_one)
next
  let ?f = "mmr_value lam idmap pw xs sel"
  assume b: "fst (mmr_scan ?f avail (None, - 1000000000)) = Some b"
  from mmr_scan_cases [of ?f avail None "- 1000000000"] b
  obtain as b' bs where "avail = as @ b' # bs" "Some b' = Some b"
    "\<forall>a \<in> set as. ?f a < ?f b'" "\<forall>a \<in> set bs. ?f a \<le> ?f b'"
    by auto
  then show "\<exists>as bs. avail = as @ b # bs \<and> (\<forall>a \<in> set as. ?f a < ?f b) \<and> (\<forall>a \<in> set bs. ?f a \<le> ?f b)"
    by blast
next
  let ?f = "mmr_value lam idmap pw xs sel"
  assume "\<exists>a \<in> set avail. - 1000000000 < ?f a"
  with mmr_scan_cases [of ?f avail None "- 1000000000"]
  show "\<exists>b. fst (mmr_scan ?f avail (None, - 1000000000)) = Some b"
    by (auto simp: not_le [symmetric])
qed

lemma ex_scored_sorted:
  "sort_desc final_score ex_scored = [ex_scored ! 1, ex_scored ! 2, ex_scored ! 0]"
  by (simp add: sort_desc_def ex_scored_def)

theorem mmr_relevance_only_witness:
  "mmr_select 1 Map.empty (\<lambda>i j. 0) ex_scored 2 = [ex_scored ! 1, ex_scored ! 2] \<and>
   fst (mmr_scan (mmr_value lambda_rel Map.empty (\<lambda>i j. 0) ex_scored []) [0, 1, 2]
         (None, - 1000000000)) \<noteq> Some 2"
proof -
  note t = mmr_relevance_only [of Map.empty "\<lambda>i j. 0" ex_scored 2 lambda_rel "[]" "[0, 1, 2]" 2]
  have "\<forall>m \<in> set ex_scored. - 1000000000 < final_score m"
    by (simp add: ex_scored_def)
  with t have "mmr_select 1 Map.empty (\<lambda>i j. 0) ex_scored 2 = take 2 (sort_desc final_score ex_scored)"
    by blast
  then have a: "mmr_select 1 Map.empty (\<lambda>i j. 0) ex_scored 2 = [ex_scored ! 1, ex_scored ! 2]"
    by (simp add: ex_scored_sorted)
  have b: "fst (mmr_scan (mmr_value lambda_rel Map.empty (\<lambda>i j. 0) ex_scored []) [0, 1, 2]
         (None, - 1000000000)) \<noteq> Some 2"
  proof
    let ?f = "mmr_value lambda_rel Map.empty (\<lambda>i j. 0) ex_scored []"
    assume "fst (mmr_scan ?f [0, 1, 2] (None, - 1000000000)) = Some 2"
    with t obtain as bs where s: "[0, 1, 2] = as @ 2 # bs" and l: "\<forall>a \<in> set as. ?f a < ?f 2"
      by blast
    from s have "as = [0, 1]"
      by (auto simp: append_eq_Cons_conv Cons_eq_append_conv)
    with l have "?f 1 < ?f 2" by simp
    then show False by (simp add: mmr_value_def ex_scored_def)
  qed
  from a b show ?thesis by blast
qed

section \<open>Properties of the request\<close>

lemma mmr_scan_in:
  "fst (mmr_scan f avail (bi, bm)) = Some b \<Longrightarrow> b \<in> set avail \<or> bi = Some b"
  using mmr_scan_cases [of f avail bi bm] by auto

lemma mmr_loop_subset:
  "mmr_loop f n avail sel = Some r \<Longrightarrow> set r \<subseteq> set avail \<union> set sel"
proof (induction n arbitrary: avail sel)
  case 0
  then show ?case by auto
next
  case (Suc n)
  show ?case
  proof (cases "avail = []")
    case True
    with Suc.prems show ?thesis by auto
  next
    case False
    with Suc.prems obtain b where
      b: "fst (mmr_scan (f sel) avail (None, - 1000000000)) = Some b" and
      r: "mmr_loop f n (remove1 b avail) (sel @ [b]) = Some r"
      by (auto split: option.splits)
    from mmr_scan_in [OF b] have "b \<in> set avail" by simp
    with Suc.IH [OF r] set_remove1_subset [of b avail] show ?thesis by auto
  qed
qed

lemma mmr_select_subset: "set (mmr_select lam idmap pw xs n) \<subseteq> set xs"
proof (cases "mmr_loop (mmr_value lam idmap pw xs) n [0..<length xs] []")
  case None
  then show ?thesis by (auto simp: mmr_select_def dest: in_set_takeD)
next
  case (Some sel)
  from mmr_loop_subset [OF Some] have "set sel \<subseteq> {0..<length xs}" by auto
  with Some show ?thesis by (auto simp: mmr_select_def)
qed

lemma attach_scores_core: "map core (attach_scores xs ss) = map core xs"
  by (induction xs ss rule: attach_scores.induct) (simp_all add: core_def)

lemma rerank_core: "core ` set (rerank w sp xs) = core ` set xs"
proof -
  have k: "core ` (set (sort_desc key (attach_scores (take k xs) ss)) \<union> set (drop k xs))
      = core ` set xs" for key k ss
  proof -
    have "core ` set (attach_scores (take k xs) ss) = core ` set (take k xs)"
      using attach_scores_core [of "take k xs" ss] by (metis set_map)
    then have "core ` (set (sort_desc key (attach_scores (take k xs) ss)) \<union> set (drop k xs))
       = core ` (set (take k xs) \<union> set (drop k xs))"
      by (simp add: sort_desc_def image_Un)
    also have "set (take k xs) \<union> set (drop k xs) = set xs"
      by (metis append_take_drop_id set_append)
    finally show ?thesis .
  qed
  show ?thesis
    by (simp add: rerank_def Let_def k split: option.splits)
qed

lemma rank_scored_sound:
  assumes "r \<in> set (rank_scored w sp cps pw ms n)"
  shows "\<exists>m \<in> set ms. 0.03 \<le> similarity_score m \<and> rec_profile r = Some (sm_profile m) \<and>
           rec_id r = p_id (sm_profile m)"
proof -
  let ?a = "filter (\<lambda>m. 0.03 \<le> similarity_score m) ms"
  let ?b = "sort_desc final_score ?a"
  let ?c = "rerank w sp ?b"
  let ?d = "mmr_select lambda_rel (id_to_idx cps) pw ?c n"
  from assms obtain m where m: "m \<in> set (take n ?d)" and r: "r = to_recommendation m"
    by (auto simp: rank_scored_def Let_def)
  from m have "m \<in> set ?c" using mmr_select_subset by (blast dest: in_set_takeD)
  then have "core m \<in> core ` set ?b" using rerank_core by blast
  then obtain m' where m': "m' \<in> set ?a" "core m = core m'"
    by (auto simp: sort_desc_def)
  then have "m' \<in> set ms" "0.03 \<le> similarity_score m'" "sm_profile m = sm_profile m'"
    by (auto simp: core_def)
  with r show ?thesis by (auto simp: to_recommendation_def)
qed

lemma build_movie_profile_id: "build_movie_profile w i = Some p \<Longrightarrow> p_id p = i"
  by (auto simp: build_movie_profile_def)

lemma candidate_profile_ids:
  "map p_id (List.map_filter (build_movie_profile w) ids) =
     filter (\<lambda>i. build_movie_profile w i \<noteq> None) ids"
  by (induction ids) (auto simp: List.map_filter_simps dest: build_movie_profile_id split: option.splits)

lemma tmdb_loop_length:
  "length acc < top_n \<Longrightarrow> length (tmdb_loop m2t top_n mids acc) \<le> top_n"
proof (induction mids arbitrary: acc)
  case Nil
  then show ?case by simp
next
  case (Cons mid mids)
  let ?acc' = "(case m2t mid of None \<Rightarrow> acc
                | Some tid \<Rightarrow> if tid \<noteq> 0 then acc @ [tid] else acc)"
  have l: "length ?acc' \<le> top_n" using Cons.prems by (simp split: option.splits)
  show ?case
  proof (cases "top_n \<le> length ?acc'")
    case True
    with l show ?thesis by (simp add: Let_def)
  next
    case False
    then have "length ?acc' < top_n" by simp
    from Cons.IH [OF this] False show ?thesis by (simp add: Let_def)
  qed
qed

lemma cf_neighbors_card:
  assumes "cf_neighbors_for_tmdb ml file eng t top_n = (Inr N, eng')" "0 < top_n"
  shows "finite N \<and> card N \<le> top_n"
proof -
  have r: "finite (set recs) \<and> card (set recs) \<le> top_n"
    if "recommend_similar_by_tmdbId t m top_n = Inr recs" for m recs
  proof -
    from that have "length recs \<le> top_n"
      using tmdb_loop_length [of "[]" top_n] assms(2)
      by (auto simp: recommend_similar_by_tmdbId_def split: option.splits sum.splits)
    with card_length [of recs] show ?thesis by simp
  qed
  from assms(1) r show ?thesis
    by (auto simp: cf_neighbors_for_tmdb_def Let_def split: option.splits sum.splits)
qed

lemma map_filter_origin:
  "p \<in> set (List.map_filter f xs) \<Longrightarrow> \<exists>x \<in> set xs. f x = Some p"
  by (auto simp: List.map_filter_def)

lemma cf_fallback_props:
  assumes look: "cf_neighbors_for_tmdb (ml_available w) (cf_model_file w) eng source_movie_id 12
                   = (Inr N, eng')"
  shows "\<exists>recs. cf_fallback w eng source_movie_id = (Inr recs, eng') \<and>
     length recs \<le> 12 \<and> distinct (map rec_id recs) \<and>
     rec_id ` set recs = {i \<in> N. build_movie_profile w i \<noteq> None} \<and>
     (\<forall>r \<in> set recs. rec_similarity_score r = Some 0 \<and>
        rec_profile r = build_movie_profile w (rec_id r))"
proof -
  from cf_neighbors_card [OF look] have fin: "finite N" and card: "card N \<le> 12" by simp_all
  let ?L = "sorted_list_of_set N"
  let ?mk = "\<lambda>prof. \<lparr>rec_id = p_id prof, rec_title = p_title prof,
                rec_profile = Some prof, rec_similarity_score = Some (0::real),
                rec_final_score = None, rec_personalization_score = None\<rparr>"
  let ?ps = "List.map_filter (build_movie_profile w) ?L"
  let ?recs = "map ?mk ?ps"
  have tk: "take 12 ?L = ?L" using card by simp
  have e: "cf_fallback w eng source_movie_id = (Inr ?recs, eng')"
  proof (cases "N = {}")
    case True
    then show ?thesis by (simp add: cf_fallback_def look List.map_filter_simps)
  next
    case False
    then show ?thesis by (simp add: cf_fallback_def look tk)
  qed
  have ids: "map rec_id ?recs = filter (\<lambda>i. build_movie_profile w i \<noteq> None) ?L"
    using candidate_profile_ids [of w ?L] by (simp add: o_def)
  have "length (map rec_id ?recs) \<le> length ?L" unfolding ids by (rule length_filter_le)
  then have a: "length ?recs \<le> 12" using card by simp
  have b: "distinct (map rec_id ?recs)" unfolding ids by simp
  have "set (map rec_id ?recs) = {i \<in> N. build_movie_profile w i \<noteq> None}"
    unfolding ids using fin by auto
  then have c: "rec_id ` set ?recs = {i \<in> N. build_movie_profile w i \<noteq> None}"
    unfolding set_map .
  have d: "rec_similarity_score r = Some 0 \<and> rec_profile r = build_movie_profile w (rec_id r)"
    if "r \<in> set ?recs" for r
  proof -
    from that obtain p where p: "p \<in> set ?ps" "r = ?mk p" by auto
    from map_filter_origin [OF p(1)] obtain i where "build_movie_profile w i = Some p" by blast
    with build_movie_profile_id [OF this] p(2) show ?thesis by simp
  qed
  from e a b c d show ?thesis by blast
qed

lemma scoring_path_sound:
  assumes cps: "cps = List.map_filter (build_movie_profile w) (candidate_ids w)"
    and path: "scoring_path w eng source_movie_id n sp cps = (Inr recs, eng')"
  shows "\<exists>sims pw. similarity w (create_feature_string (Some sp))
                (map (\<lambda>p. create_feature_string (Some p)) cps) = Some (sims, pw) \<and>
    (\<forall>r \<in> set recs. \<exists>i < length cps. rec_profile r = Some (cps ! i) \<and> rec_id r = p_id (cps ! i)
        \<and> 0.03 \<le> sims ! i) \<and>
    (distinct (candidate_ids w) \<longrightarrow>
       (\<forall>i < length cps. sims ! i < 0.03 \<longrightarrow> p_id (cps ! i) \<notin> rec_id ` set recs))"
proof -
  from path obtain sims pw N ms where
    sim: "similarity w (create_feature_string (Some sp))
                (map (\<lambda>p. create_feature_string (Some p)) cps) = Some (sims, pw)" and
    loop: "score_loop N sims (List.enumerate 0 cps) = Inr ms" and
    recs: "recs = rank_scored w sp cps pw ms n"
    by (auto simp: scoring_path_def Let_def split: option.splits prod.splits sum.splits)
  have b: "\<exists>i < length cps. rec_profile r = Some (cps ! i) \<and> rec_id r = p_id (cps ! i)
        \<and> 0.03 \<le> sims ! i" if "r \<in> set recs" for r
  proof -
    from rank_scored_sound [OF that [unfolded recs]] obtain m where
      m: "m \<in> set ms" "rec_profile r = Some (sm_profile m)" "rec_id r = p_id (sm_profile m)"
      by blast
    from score_loop_sound [OF loop m(1)] obtain i p y where
      "(i, p) \<in> set (List.enumerate 0 cps)" "0.03 \<le> sims ! i" "m = scored_entry N (sims ! i) p y"
      by blast
    with m show ?thesis by (auto simp: in_set_enumerate0 scored_entry_def)
  qed
  have c: "p_id (cps ! i) \<notin> rec_id ` set recs"
    if d: "distinct (candidate_ids w)" and i: "i < length cps" "sims ! i < 0.03" for i
  proof
    assume "p_id (cps ! i) \<in> rec_id ` set recs"
    then obtain r where r: "r \<in> set recs" "rec_id r = p_id (cps ! i)" by auto
    from b [OF r(1)] r(2) obtain j where
      j: "j < length cps" "p_id (cps ! j) = p_id (cps ! i)" "0.03 \<le> sims ! j" by auto
    have "distinct (map p_id cps)"
      unfolding cps candidate_profile_ids using d by simp
    with i(1) j(1,2) have "i = j"
      by (metis distinct_conv_nth length_map nth_map)
    with i(2) j(3) show False by simp
  qed
  from sim b c show ?thesis by blast
qed

lemma scoring_path_empty:
  assumes "scoring_path w eng source_movie_id n sp [] = (Inr recs, eng')"
  shows "recs = []"
proof -
  from assms obtain sims pw N ms where
    loop: "score_loop N sims (List.enumerate 0 []) = Inr ms" and
    recs: "recs = rank_scored w sp [] pw ms n"
    by (auto simp: scoring_path_def Let_def split: option.splits prod.splits sum.splits)
  show ?thesis
  proof (cases recs)
    case Nil
    then show ?thesis .
  next
    case (Cons r rs)
    then have "r \<in> set (rank_scored w sp [] pw ms n)" using recs by simp
    from rank_scored_sound [OF this] loop show ?thesis by auto
  qed
qed

text \<open>
  Claim C2, as the code has it. When the scoring path of a request completes without an
  exception, the request returns its list, every returned entry is a candidate whose raw
  similarity is at least 0.03, and (the candidate ids being a set) no candidate below 0.03
  is returned, whatever its boosts. When the scoring path raises, the request looks up
  the neighbours of the seed in the model once more, now for at most twelve of them. If
  this lookup returns, the request returns one entry for each neighbour that has a
  profile, at most twelve entries in all, each with the similarity score 0 and none
  filtered by similarity; if the lookup raises, the request raises its exception.
\<close>

theorem similarity_filter:
  assumes cps: "cps = List.map_filter (build_movie_profile w) (candidate_ids w)"
    and src: "build_movie_profile w source_movie_id = Some sp"
  shows "(\<forall>recs eng'. scoring_path w eng source_movie_id n sp cps = (Inr recs, eng') \<longrightarrow>
      fst (get_intelligent_recommendations w eng source_movie_id n) = Inr recs \<and>
      (\<exists>sims pw. similarity w (create_feature_string (Some sp))
                (map (\<lambda>p. create_feature_string (Some p)) cps) = Some (sims, pw) \<and>
         (\<forall>r \<in> set recs. \<exists>i < length cps. rec_profile r = Some (cps ! i) \<and>
             rec_id r = p_id (cps ! i) \<and> 0.03 \<le> sims ! i) \<and>
         (distinct (candidate_ids w) \<longrightarrow>
            (\<forall>i < length cps. sims ! i < 0.03 \<longrightarrow> p_id (cps ! i) \<notin> rec_id ` set recs)))) \<and>
    (\<forall>e eng1. cps \<noteq> [] \<and> scoring_path w eng source_movie_id n sp cps = (Inl e, eng1) \<longrightarrow>
      (\<forall>N eng2. cf_neighbors_for_tmdb (ml_available w) (cf_model_file w) eng1 source_movie_id 12
                  = (Inr N, eng2) \<longrightarrow>
         (\<exists>recs. fst (get_intelligent_recommendations w eng source_movie_id n) = Inr recs \<and>
            length recs \<le> 12 \<and> distinct (map rec_id recs) \<and>
            rec_id ` set recs = {i \<in> N. build_movie_profile w i \<noteq> None} \<and>
            (\<forall>r \<in> set recs. rec_similarity_score r = Some 0 \<and>
               rec_profile r = build_movie_profile w (rec_id r)))) \<and>
      (\<forall>e' eng2. cf_neighbors_for_tmdb (ml_available w) (cf_model_file w) eng1 source_movie_id 12
                  = (Inl e', eng2) \<longrightarrow>
         fst (get_intelligent_recommendations w eng source_movie_id n) = Inl e'))"
proof (intro conjI allI impI)
  fix recs eng'
  assume path: "scoring_path w eng source_movie_id n sp cps = (Inr recs, eng')"
  have "recs = []" if "cps = []"
    using path scoring_path_empty unfolding that by blast
  then show "fst (get_intelligent_recommendations w eng source_movie_id n) = Inr recs"
    using src path cps by (auto simp: get_intelligent_recommendations_def Let_def)
  show "\<exists>sims pw. similarity w (create_feature_string (Some sp))
                (map (\<lambda>p. create_feature_string (Some p)) cps) = Some (sims, pw) \<and>
         (\<forall>r \<in> set recs. \<exists>i < length cps. rec_profile r = Some (cps ! i) \<and>
             rec_id r = p_id (cps ! i) \<and> 0.03 \<le> sims ! i) \<and>
         (distinct (candidate_ids w) \<longrightarrow>
            (\<forall>i < length cps. sims ! i < 0.03 \<longrightarrow> p_id (cps ! i) \<notin> rec_id ` set recs))"
    using cps path by (rule scoring_path_sound)
next
  fix e eng1 N eng2
  assume p: "cps \<noteq> [] \<and> scoring_path w eng source_movie_id n sp cps = (Inl e, eng1)"
    and look: "cf_neighbors_for_tmdb (ml_available w) (cf_model_file w) eng1 source_movie_id 12
                  = (Inr N, eng2)"
  from p src cps have g: "get_intelligent_recommendations w eng source_movie_id n
      = cf_fallback w eng1 source_movie_id"
    by (simp add: get_intelligent_recommendations_def Let_def)
  from cf_fallback_props [OF look] show
    "\<exists>recs. fst (get_intelligent_recommendations w eng source_movie_id n) = Inr recs \<and>
            length recs \<le> 12 \<and> distinct (map rec_id recs) \<and>
            rec_id ` set recs = {i \<in> N. build_movie_profile w i \<noteq> None} \<and>
            (\<forall>r \<in> set recs. rec_similarity_score r = Some 0 \<and>
               rec_profile r = build_movie_profile w (rec_id r))"
    unfolding g by auto
next
  fix e eng1 e' eng2
  assume p: "cps \<noteq> [] \<and> scoring_path w eng source_movie_id n sp cps = (Inl e, eng1)"
    and look: "cf_neighbors_for_tmdb (ml_available w) (cf_model_file w) eng1 source_movie_id 12
                  = (Inl e', eng2)"
  from p src cps have g: "get_intelligent_recommendations w eng source_movie_id n
      = cf_fallback w eng1 source_movie_id"
    by (simp add: get_intelligent_recommendations_def Let_def)
  show "fst (get_intelligent_recommendations w eng source_movie_id n) = Inl e'"
    unfolding g by (simp add: cf_fallback_def look)
qed

text \<open>
  The three cases on examples: a request whose scoring completes and does not return
  candidate 7, of similarity 0.01; the request whose scoring raises and which returns
  the neighbours 6 and 7 with the score 0; and the request that raises, because the
  lookup of the neighbours raises in the scoring and again in the fallback.
\<close>

theorem similarity_filter_witness:
  "(\<exists>recs. fst (get_intelligent_recommendations ex_world_ok init_engine 1 12) = Inr recs \<and>
      7 \<notin> rec_id ` set recs) \<and>
   (\<exists>recs. fst (get_intelligent_recommendations ex_world init_engine 1 12) = Inr recs \<and>
      rec_id ` set recs = {6, 7} \<and> (\<forall>r \<in> set recs. rec_similarity_score r = Some 0)) \<and>
   fst (get_intelligent_recommendations ex_world_short init_engine 1 12) = Inl IndexError"
proof (intro conjI)
  let ?sp = "the (build_movie_profile ex_world_ok 1)"
  let ?cps = "List.map_filter (build_movie_profile ex_world_ok) (candidate_ids ex_world_ok)"
  have src: "build_movie_profile ex_world_ok 1 = Some ?sp"
    by (simp add: ex_world_ok_def ex_world_def build_movie_profile_def)
  have "\<not> isl (fst (scoring_path ex_world_ok init_engine 1 12 ?sp ?cps))"
    by code_simp
  then obtain recs eng' where
    path: "scoring_path ex_world_ok init_engine 1 12 ?sp ?cps = (Inr recs, eng')"
    by (cases "scoring_path ex_world_ok init_engine 1 12 ?sp ?cps";
        cases "fst (scoring_path ex_world_ok init_engine 1 12 ?sp ?cps)") auto
  from similarity_filter [OF refl src, of init_engine 12, THEN conjunct1, rule_format, OF path]
  obtain sims pw where
    a: "fst (get_intelligent_recommendations ex_world_ok init_engine 1 12) = Inr recs" and
    sim: "similarity ex_world_ok (create_feature_string (Some ?sp))
                (map (\<lambda>p. create_feature_string (Some p)) ?cps) = Some (sims, pw)" and
    f: "distinct (candidate_ids ex_world_ok) \<longrightarrow>
          (\<forall>i < length ?cps. sims ! i < 0.03 \<longrightarrow> p_id (?cps ! i) \<notin> rec_id ` set recs)"
    by blast
  from sim have sims: "sims = [0.5, 0.01]"
    by (simp add: ex_world_ok_def ex_world_def)
  have d: "distinct (candidate_ids ex_world_ok)"
    by (simp add: ex_world_ok_def ex_world_def)
  have c: "?cps = [ex_profile\<lparr>p_id := 9\<rparr>, ex_old_profile\<lparr>p_id := 7\<rparr>]"
    by (simp add: ex_world_ok_def ex_world_def build_movie_profile_def List.map_filter_simps)
  from f d have "\<forall>i < length ?cps. sims ! i < 0.03 \<longrightarrow> p_id (?cps ! i) \<notin> rec_id ` set recs"
    by blast
  from this [rule_format, of 1] have "7 \<notin> rec_id ` set recs"
    unfolding c sims by simp
  with a show "\<exists>recs. fst (get_intelligent_recommendations ex_world_ok init_engine 1 12) = Inr recs \<and>
      7 \<notin> rec_id ` set recs" by blast
next
  let ?sp = "the (build_movie_profile ex_world 1)"
  let ?cps = "List.map_filter (build_movie_profile ex_world) (candidate_ids ex_world)"
  let ?eng1 = "snd (scoring_path ex_world init_engine 1 12 ?sp ?cps)"
  let ?look = "cf_neighbors_for_tmdb (ml_available ex_world) (cf_model_file ex_world) ?eng1 1 12"
  have src: "build_movie_profile ex_world 1 = Some ?sp"
    by (simp add: ex_world_def build_movie_profile_def)
  have ne: "?cps \<noteq> []"
    by (simp add: ex_world_def build_movie_profile_def List.map_filter_simps)
  have "fst (scoring_path ex_world init_engine 1 12 ?sp ?cps) = Inl ValueError"
    by code_simp
  then have path: "scoring_path ex_world init_engine 1 12 ?sp ?cps = (Inl ValueError, ?eng1)"
    by (simp add: prod_eq_iff)
  have "fst ?look = Inr {6, 7}"
    by code_simp
  then have look: "?look = (Inr {6, 7}, snd ?look)"
    by (simp add: prod_eq_iff)
  have n: "{i \<in> {6, 7}. build_movie_profile ex_world i \<noteq> None} = {6, 7}"
    by (auto simp: ex_world_def build_movie_profile_def)
  from similarity_filter [OF refl src, of init_engine 12, THEN conjunct2, rule_format,
    OF conjI [OF ne path], THEN conjunct1, rule_format, OF look]
  show "\<exists>recs. fst (get_intelligent_recommendations ex_world init_engine 1 12) = Inr recs \<and>
      rec_id ` set recs = {6, 7} \<and> (\<forall>r \<in> set recs. rec_similarity_score r = Some 0)"
    unfolding n by blast
next
  let ?sp = "the (build_movie_profile ex_world_short 1)"
  let ?cps = "List.map_filter (build_movie_profile ex_world_short) (candidate_ids ex_world_short)"
  let ?eng1 = "snd (scoring_path ex_world_short init_engine 1 12 ?sp ?cps)"
  let ?look = "cf_neighbors_for_tmdb (ml_available ex_world_short) (cf_model_file ex_world_short)
                 ?eng1 1 12"
  have src: "build_movie_profile ex_world_short 1 = Some ?sp"
    by (simp add: ex_world_short_def ex_world_def build_movie_profile_def)
  have ne: "?cps \<noteq> []"
    by (simp add: ex_world_short_def ex_world_def build_movie_profile_def List.map_filter_simps)
  have "fst (scoring_path ex_world_short init_engine 1 12 ?sp ?cps) = Inl IndexError"
    by code_simp
  then have path: "scoring_path ex_world_short init_engine 1 12 ?sp ?cps = (Inl IndexError, ?eng1)"
    by (simp add: prod_eq_iff)
  have "fst ?look = Inl IndexError"
    by code_simp
  then have look: "?look = (Inl IndexError, snd ?look)"
    by (simp add: prod_eq_iff)
  from similarity_filter [OF refl src, of init_engine 12, THEN conjunct2, rule_format,
    OF conjI [OF ne path], THEN conjunct2, rule_format, OF look]
  show "fst (get_intelligent_recommendations ex_world_short init_engine 1 12) = Inl IndexError" .
qed

text \<open>
  Claim C2 as stated fails on the fallback: candidate 7 has raw similarity 0.01, the
  release year of candidate 6 makes \<open>int\<close> raise, and the request returns the
  model's neighbours 6 and 7 of the seed.
\<close>

theorem similarity_filter_counterexample:
  "List.map_filter (build_movie_profile ex_world) (candidate_ids ex_world) ! 1
     = ex_old_profile\<lparr>p_id := 7\<rparr> \<and>
   map_option (\<lambda>r. fst r ! 1)
     (similarity ex_world
        (create_feature_string (build_movie_profile ex_world 1))
        (map (\<lambda>p. create_feature_string (Some p))
           (List.map_filter (build_movie_profile ex_world) (candidate_ids ex_world))))
     = Some 0.01 \<and>
   (0.01 :: real) < 0.03 \<and>
   map_sum id (map rec_id) (fst (get_intelligent_recommendations ex_world init_engine 1 12))
     = Inr [6, 7]"
proof (intro conjI)
  show "List.map_filter (build_movie_profile ex_world) (candidate_ids ex_world) ! 1
     = ex_old_profile\<lparr>p_id := 7\<rparr>"
    by (simp add: ex_world_def build_movie_profile_def List.map_filter_simps)
  show "map_option (\<lambda>r. fst r ! 1)
     (similarity ex_world
        (create_feature_string (build_movie_profile ex_world 1))
        (map (\<lambda>p. create_feature_string (Some p))
           (List.map_filter (build_movie_profile ex_world) (candidate_ids ex_world))))
     = Some 0.01"
    by (simp add: ex_world_def)
  show "(0.01 :: real) < 0.03" by simp
  show "map_sum id (map rec_id) (fst (get_intelligent_recommendations ex_world init_engine 1 12))
     = Inr [6, 7]"
    by code_simp
qed

section \<open>Properties of the personalization layer\<close>

lemma overlap_mono:
  assumes "m k = Some v" "v \<le> v'" "0 \<le> w" "s \<le> s'"
  shows "overlap m w names s \<le> overlap (m(k \<mapsto> v')) w names s'"
  using assms(4)
proof (induction names arbitrary: s s')
  case Nil
  then show ?case by simp
next
  case (Cons n names)
  show ?case
  proof (cases "n = k")
    case True
    have "s + v * w \<le> s' + v' * w"
      using Cons.prems assms(2,3) by (simp add: add_mono mult_right_mono)
    from Cons.IH [OF this] True assms(1) show ?thesis by simp
  next
    case False
    show ?thesis
    proof (cases "m n")
      case None
      with False Cons.IH [OF Cons.prems] show ?thesis by simp
    next
      case (Some u)
      have "s + u * w \<le> s' + u * w" using Cons.prems by simp
      from Cons.IH [OF this] False Some show ?thesis by simp
    qed
  qed
qed

lemma score_mono:
  "g \<le> g' \<Longrightarrow> d \<le> d' \<Longrightarrow> a \<le> a' \<Longrightarrow>
    min (0 + min g 0.15 + min d 0.10 + min a 0.05) (0.30 :: real)
    \<le> min (0 + min g' 0.15 + min d' 0.10 + min a' 0.05) 0.30"
  by (auto simp: min_def)

lemma cps_unfold:
  "calculate_personalization_score up mp =
     min (0 + min (genre_score up mp) 0.15 + min (director_score up mp) 0.10
            + min (actor_score up mp) 0.05) 0.30"
  by (simp add: calculate_personalization_score_def Let_def)

text \<open>
  Claim C6. Raising one accumulator value (of a genre, a director, an actor or a keyword)
  never lowers the personalization boost. The boost is the sum of the genre term, capped
  at 0.15, the director term, capped at 0.10, and the actor term, capped at 0.05, itself
  capped at 0.30; it reaches 0.30 when every term reaches its cap.
\<close>

theorem personalization_boost_monotone_capped:
  assumes "v \<le> v'"
  shows
   "(pref_genres up k = Some v \<longrightarrow>
       calculate_personalization_score up mp
       \<le> calculate_personalization_score (up\<lparr>pref_genres := (pref_genres up)(k \<mapsto> v')\<rparr>) mp) \<and>
    (pref_directors up k = Some v \<longrightarrow>
       calculate_personalization_score up mp
       \<le> calculate_personalization_score (up\<lparr>pref_directors := (pref_directors up)(k \<mapsto> v')\<rparr>) mp) \<and>
    (pref_actors up k = Some v \<longrightarrow>
       calculate_personalization_score up mp
       \<le> calculate_personalization_score (up\<lparr>pref_actors := (pref_actors up)(k \<mapsto> v')\<rparr>) mp) \<and>
    (pref_keywords up k = Some v \<longrightarrow>
       calculate_personalization_score up mp
       \<le> calculate_personalization_score (up\<lparr>pref_keywords := (pref_keywords up)(k \<mapsto> v')\<rparr>) mp) \<and>
    calculate_personalization_score up mp =
       min (min (genre_score up mp) 0.15 + min (director_score up mp) 0.10
              + min (actor_score up mp) 0.05) 0.30 \<and>
    min (genre_score up mp) 0.15 \<le> 0.15 \<and>
    min (director_score up mp) 0.10 \<le> 0.10 \<and>
    min (actor_score up mp) 0.05 \<le> 0.05 \<and>
    calculate_personalization_score up mp \<le> 0.30 \<and>
    (0.15 \<le> genre_score up mp \<and> 0.10 \<le> director_score up mp \<and> 0.05 \<le> actor_score up mp
       \<longrightarrow> calculate_personalization_score up mp = 0.30)"
proof (intro conjI impI)
  assume k: "pref_genres up k = Some v"
  have "genre_score up mp \<le> genre_score (up\<lparr>pref_genres := (pref_genres up)(k \<mapsto> v')\<rparr>) mp"
    unfolding genre_score_def using overlap_mono [where m = "pref_genres up" and w = "0.03" and s = 0 and s' = 0, OF k assms]
    by simp
  then show "calculate_personalization_score up mp
       \<le> calculate_personalization_score (up\<lparr>pref_genres := (pref_genres up)(k \<mapsto> v')\<rparr>) mp"
    unfolding cps_unfold by (intro score_mono) (simp_all add: director_score_def actor_score_def)
next
  assume k: "pref_directors up k = Some v"
  have "director_score up mp
      \<le> director_score (up\<lparr>pref_directors := (pref_directors up)(k \<mapsto> v')\<rparr>) mp"
    unfolding director_score_def using overlap_mono [where m = "pref_directors up" and w = "0.05" and s = 0 and s' = 0, OF k assms]
    by simp
  then show "calculate_personalization_score up mp
       \<le> calculate_personalization_score (up\<lparr>pref_directors := (pref_directors up)(k \<mapsto> v')\<rparr>) mp"
    unfolding cps_unfold by (intro score_mono) (simp_all add: genre_score_def actor_score_def)
next
  assume k: "pref_actors up k = Some v"
  have "actor_score up mp \<le> actor_score (up\<lparr>pref_actors := (pref_actors up)(k \<mapsto> v')\<rparr>) mp"
    unfolding actor_score_def using overlap_mono [where m = "pref_actors up" and w = "0.01" and s = 0 and s' = 0, OF k assms]
    by simp
  then show "calculate_personalization_score up mp
       \<le> calculate_personalization_score (up\<lparr>pref_actors := (pref_actors up)(k \<mapsto> v')\<rparr>) mp"
    unfolding cps_unfold by (intro score_mono) (simp_all add: genre_score_def director_score_def)
next
  show "calculate_personalization_score up mp
       \<le> calculate_personalization_score (up\<lparr>pref_keywords := (pref_keywords up)(k \<mapsto> v')\<rparr>) mp"
    unfolding cps_unfold by (simp add: genre_score_def director_score_def actor_score_def)
next
  show "calculate_personalization_score up mp =
       min (min (genre_score up mp) 0.15 + min (director_score up mp) 0.10
              + min (actor_score up mp) 0.05) 0.30"
    unfolding cps_unfold by simp
next
  show "calculate_personalization_score up mp \<le> 0.30"
    unfolding cps_unfold by simp
next
  assume "0.15 \<le> genre_score up mp \<and> 0.10 \<le> director_score up mp \<and> 0.05 \<le> actor_score up mp"
  then show "calculate_personalization_score up mp = 0.30"
    unfolding cps_unfold by (simp add: min_def)
qed simp_all

theorem personalization_boost_monotone_capped_witness:
  "calculate_personalization_score ex_prefs (Some ex_profile) = 0.075 \<and>
   calculate_personalization_score
     (ex_prefs\<lparr>pref_genres := (pref_genres ex_prefs)(''Action'' \<mapsto> 10)\<rparr>) (Some ex_profile) = 0.165 \<and>
   calculate_personalization_score ex_prefs (Some ex_profile)
     \<le> calculate_personalization_score
         (ex_prefs\<lparr>pref_genres := (pref_genres ex_prefs)(''Action'' \<mapsto> 10)\<rparr>) (Some ex_profile)"
proof -
  have le: "(2 :: real) \<le> 10" by simp
  have k: "pref_genres ex_prefs ''Action'' = Some 2" by (simp add: ex_prefs_def)
  note t = personalization_boost_monotone_capped [OF le, of ex_prefs "''Action''" "Some ex_profile"]
  have a: "calculate_personalization_score ex_prefs (Some ex_profile) = 0.075"
    by (simp add: calculate_personalization_score_def genre_score_def director_score_def
        actor_score_def movie_genres_def movie_director_def movie_cast_def ex_prefs_def
        ex_profile_def)
  have b: "calculate_personalization_score
     (ex_prefs\<lparr>pref_genres := (pref_genres ex_prefs)(''Action'' \<mapsto> 10)\<rparr>) (Some ex_profile) = 0.165"
    by (simp add: calculate_personalization_score_def genre_score_def director_score_def
        actor_score_def movie_genres_def movie_director_def movie_cast_def ex_prefs_def
        ex_profile_def)
  from t k have "calculate_personalization_score ex_prefs (Some ex_profile)
     \<le> calculate_personalization_score
         (ex_prefs\<lparr>pref_genres := (pref_genres ex_prefs)(''Action'' \<mapsto> 10)\<rparr>) (Some ex_profile)"
    by blast
  with a b show ?thesis by blast
qed

lemma personalize_Some:
  "personalize profile b = Some r \<Longrightarrow>
     up_ratings profile (rating_key b) = None \<and>
     rec_id r = rec_id b \<and> rec_profile r = rec_profile b \<and>
     rec_final_score r =
       Some (base_score b + calculate_personalization_score (up_preferences profile) (rec_profile b)
             - (if is_disliked profile b then 0.5 else 0))"
  by (auto simp: personalize_def Let_def split: if_splits)

lemma personalize_None:
  "personalize profile b = None \<longleftrightarrow> up_ratings profile (rating_key b) \<noteq> None"
  by (auto simp: personalize_def Let_def)

lemma set_map_filter: "set (List.map_filter f xs) = {y. \<exists>x \<in> set xs. f x = Some y}"
  by (induction xs) (auto simp: List.map_filter_simps split: option.splits)

lemma take_sorted_desc:
  fixes key :: "'a \<Rightarrow> real"
  assumes "sorted (map (\<lambda>x. - key x) S)" "y \<in> set S" "y \<notin> set (take n S)"
  shows "length (take n S) = n \<and> (\<forall>x \<in> set (take n S). key y \<le> key x)"
proof -
  have S: "S = take n S @ drop n S" by simp
  with assms(2,3) have y: "y \<in> set (drop n S)"
    by (metis Un_iff set_append)
  then have "drop n S \<noteq> []" by auto
  then have l: "length (take n S) = n" by simp
  from assms(1) have "sorted (map (\<lambda>x. - key x) (take n S) @ map (\<lambda>x. - key x) (drop n S))"
    by (metis S map_append)
  then have "\<forall>a \<in> set (map (\<lambda>x. - key x) (take n S)).
             \<forall>b \<in> set (map (\<lambda>x. - key x) (drop n S)). a \<le> b"
    by (simp add: sorted_append)
  with y have "\<forall>x \<in> set (take n S). - key x \<le> - key y" by auto
  with l show ?thesis by simp
qed

lemma personalized_length:
  "length (List.map_filter (personalize profile) base_recs)
     = length (filter (\<lambda>b. up_ratings profile (rating_key b) = None) base_recs)"
proof (induction base_recs)
  case Nil
  show ?case by (simp add: List.map_filter_simps)
next
  case (Cons b bs)
  show ?case
  proof (cases "personalize profile b")
    case None
    then have "up_ratings profile (rating_key b) \<noteq> None" by (simp add: personalize_None)
    with None Cons show ?thesis by (simp add: List.map_filter_simps)
  next
    case (Some r)
    then have "\<not> up_ratings profile (rating_key b) \<noteq> None"
      using personalize_None [of profile b] by simp
    with Some Cons show ?thesis by (simp add: List.map_filter_simps)
  qed
qed

text \<open>
  Claim C7, as the code has it. Every entry of the personalized list comes from an unrated
  entry of the base list, with the same id and profile, and its final score is the base
  score plus the personalization boost, minus 0.5 when the film is disliked. A disliked
  film is not removed. The list has as many entries as there are unrated entries in the
  base list, but at most \<open>n\<close>; it is in descending order of the final scores; and an
  unrated entry of the base list, disliked or not, is missing from it only when the list
  has \<open>n\<close> entries whose final scores are all at least the score of the missing entry.
  In particular, when the base list has at most \<open>n\<close> entries every unrated entry is in
  the result.
\<close>

theorem disliked_penalty:
  "(\<forall>r \<in> set (get_personalized_recommendations profile base_recs n).
       \<exists>b \<in> set base_recs. up_ratings profile (rating_key b) = None \<and>
          rec_id r = rec_id b \<and> rec_profile r = rec_profile b \<and>
          rec_final_score r =
            Some (base_score b
                  + calculate_personalization_score (up_preferences profile) (rec_profile b)
                  - (if is_disliked profile b then 0.5 else 0))) \<and>
   (length base_recs \<le> n \<longrightarrow>
      (\<forall>b \<in> set base_recs. up_ratings profile (rating_key b) = None \<longrightarrow>
         (\<exists>r \<in> set (get_personalized_recommendations profile base_recs n).
            rec_id r = rec_id b \<and> rec_profile r = rec_profile b))) \<and>
   length (get_personalized_recommendations profile base_recs n)
     = min n (length (filter (\<lambda>b. up_ratings profile (rating_key b) = None) base_recs)) \<and>
   (\<forall>i j. i \<le> j \<and> j < length (get_personalized_recommendations profile base_recs n) \<longrightarrow>
      (\<exists>f g. rec_final_score (get_personalized_recommendations profile base_recs n ! i) = Some f \<and>
             rec_final_score (get_personalized_recommendations profile base_recs n ! j) = Some g \<and>
             g \<le> f)) \<and>
   (\<forall>b \<in> set base_recs. up_ratings profile (rating_key b) = None \<longrightarrow>
      (\<exists>r \<in> set (get_personalized_recommendations profile base_recs n).
          rec_id r = rec_id b \<and> rec_profile r = rec_profile b \<and>
          rec_final_score r =
            Some (base_score b
                  + calculate_personalization_score (up_preferences profile) (rec_profile b)
                  - (if is_disliked profile b then 0.5 else 0))) \<or>
      (length (get_personalized_recommendations profile base_recs n) = n \<and>
       (\<forall>r \<in> set (get_personalized_recommendations profile base_recs n).
          \<exists>f. rec_final_score r = Some f \<and>
              base_score b
                + calculate_personalization_score (up_preferences profile) (rec_profile b)
                - (if is_disliked profile b then 0.5 else 0) \<le> f)))"
proof -
  define out where "out = get_personalized_recommendations profile base_recs n"
  let ?key = "\<lambda>x. case rec_final_score x of None \<Rightarrow> 0 | Some f \<Rightarrow> f"
  let ?ps = "List.map_filter (personalize profile) base_recs"
  let ?S = "sort_desc ?key ?ps"
  let ?adj = "\<lambda>b. base_score b
                  + calculate_personalization_score (up_preferences profile) (rec_profile b)
                  - (if is_disliked profile b then 0.5 else 0)"
  have out: "out = take n ?S"
    by (simp add: out_def get_personalized_recommendations_def sort_desc_def List.map_filter_simps)
  have setS: "set ?S = set ?ps" by (simp add: sort_desc_def)
  have srt: "sorted (map (\<lambda>x. - ?key x) ?S)" by (simp add: sort_desc_def)
  have origin: "\<exists>b \<in> set base_recs. up_ratings profile (rating_key b) = None \<and>
          rec_id r = rec_id b \<and> rec_profile r = rec_profile b \<and>
          rec_final_score r = Some (?adj b)" if "r \<in> set ?ps" for r
  proof -
    from that obtain b where "b \<in> set base_recs" "personalize profile b = Some r"
      by (auto simp: set_map_filter)
    with personalize_Some [of profile b r] show ?thesis by blast
  qed
  have image: "\<exists>r \<in> set ?ps. rec_id r = rec_id b \<and> rec_profile r = rec_profile b \<and>
          rec_final_score r = Some (?adj b)"
    if b: "b \<in> set base_recs" and u: "up_ratings profile (rating_key b) = None" for b
  proof -
    from u obtain r where r: "personalize profile b = Some r"
      using personalize_None [of profile b] by (cases "personalize profile b") auto
    with b have "r \<in> set ?ps" by (auto simp: set_map_filter)
    with personalize_Some [OF r] show ?thesis by blast
  qed
  have c1: "\<forall>r \<in> set out.
       \<exists>b \<in> set base_recs. up_ratings profile (rating_key b) = None \<and>
          rec_id r = rec_id b \<and> rec_profile r = rec_profile b \<and>
          rec_final_score r = Some (?adj b)"
    using origin setS unfolding out by (blast dest: in_set_takeD)
  have c3: "length out
      = min n (length (filter (\<lambda>b. up_ratings profile (rating_key b) = None) base_recs))"
    unfolding out by (simp add: sort_desc_def personalized_length min.commute)
  have c2: "length base_recs \<le> n \<longrightarrow>
      (\<forall>b \<in> set base_recs. up_ratings profile (rating_key b) = None \<longrightarrow>
         (\<exists>r \<in> set out. rec_id r = rec_id b \<and> rec_profile r = rec_profile b))"
  proof (intro impI ballI)
    fix b assume n: "length base_recs \<le> n" and b: "b \<in> set base_recs"
      and u: "up_ratings profile (rating_key b) = None"
    have "length ?ps \<le> length base_recs" by (simp add: List.map_filter_def)
    with n have "out = ?S" unfolding out by (simp add: sort_desc_def)
    with setS image [OF b u]
    show "\<exists>r \<in> set out. rec_id r = rec_id b \<and> rec_profile r = rec_profile b" by auto
  qed
  have c4: "\<forall>i j. i \<le> j \<and> j < length out \<longrightarrow>
      (\<exists>f g. rec_final_score (out ! i) = Some f \<and> rec_final_score (out ! j) = Some g \<and> g \<le> f)"
  proof (intro allI impI)
    fix i j assume ij: "i \<le> j \<and> j < length out"
    then have lt: "i < length out" "j < length out" by simp_all
    then have "out ! i \<in> set out" "out ! j \<in> set out" by simp_all
    with c1 obtain f g where
      fg: "rec_final_score (out ! i) = Some f" "rec_final_score (out ! j) = Some g" by blast
    from srt have "sorted (map (\<lambda>x. - ?key x) out)"
      unfolding out by (simp add: take_map [symmetric] sorted_wrt_take)
    then have "map (\<lambda>x. - ?key x) out ! i \<le> map (\<lambda>x. - ?key x) out ! j"
      using ij by (intro sorted_nth_mono) simp_all
    with lt fg have "g \<le> f" by simp
    with fg show "\<exists>f g. rec_final_score (out ! i) = Some f \<and>
        rec_final_score (out ! j) = Some g \<and> g \<le> f" by blast
  qed
  have c5: "\<forall>b \<in> set base_recs. up_ratings profile (rating_key b) = None \<longrightarrow>
      (\<exists>r \<in> set out. rec_id r = rec_id b \<and> rec_profile r = rec_profile b \<and>
          rec_final_score r = Some (?adj b)) \<or>
      (length out = n \<and>
       (\<forall>r \<in> set out. \<exists>f. rec_final_score r = Some f \<and> ?adj b \<le> f))"
  proof (intro ballI impI)
    fix b assume b: "b \<in> set base_recs" and u: "up_ratings profile (rating_key b) = None"
    from image [OF b u] obtain y where
      y: "y \<in> set ?S" "rec_id y = rec_id b" "rec_profile y = rec_profile b"
         "rec_final_score y = Some (?adj b)"
      unfolding setS by blast
    show "(\<exists>r \<in> set out. rec_id r = rec_id b \<and> rec_profile r = rec_profile b \<and>
          rec_final_score r = Some (?adj b)) \<or>
      (length out = n \<and>
       (\<forall>r \<in> set out. \<exists>f. rec_final_score r = Some f \<and> ?adj b \<le> f))"
    proof (cases "y \<in> set out")
      case True
      with y show ?thesis by blast
    next
      case False
      from take_sorted_desc [OF srt y(1) False [unfolded out]]
      have l: "length out = n" and le: "\<forall>x \<in> set out. ?key y \<le> ?key x"
        unfolding out by simp_all
      have "\<exists>f. rec_final_score r = Some f \<and> ?adj b \<le> f" if "r \<in> set out" for r
      proof -
        from c1 that obtain f where f: "rec_final_score r = Some f" by blast
        from le that have "?key y \<le> ?key r" by blast
        with f y(4) show ?thesis by simp
      qed
      with l show ?thesis by blast
    qed
  qed
  from c1 c2 c3 c4 c5 show ?thesis unfolding out_def by blast
qed

text \<open>
  Claim C7 as stated fails: film 42 is disliked, and of the two films of the base list it
  is the one the personalized list of length 1 contains, with the penalty in its score.
\<close>

theorem disliked_penalty_counterexample:
  "42 \<in> set (up_disliked ex_user) \<and>
   map rec_id (get_personalized_recommendations ex_user [ex_rec42, ex_rec43] 1) = [42] \<and>
   map rec_final_score (get_personalized_recommendations ex_user [ex_rec42, ex_rec43] 1)
     = [Some 44.875]"
  by (simp add: get_personalized_recommendations_def List.map_filter_simps personalize_def
      ex_user_def ex_rec42_def ex_rec43_def empty_profile_def rating_key_def is_disliked_def
      base_score_def sort_desc_def calculate_personalization_score_def genre_score_def
      director_score_def actor_score_def movie_genres_def movie_director_def movie_cast_def
      ex_prefs_def ex_profile_def ex_old_profile_def)

theorem disliked_penalty_witness:
  "length (get_personalized_recommendations ex_user [ex_rec42, ex_rec43] 1) = 1 \<and>
   (\<exists>r \<in> set (get_personalized_recommendations ex_user [ex_rec42, ex_rec43] 1).
      rec_id r = 42 \<and> rec_final_score r = Some (45.3 + 0.075 - 0.5))"
proof -
  let ?out = "get_personalized_recommendations ex_user [ex_rec42, ex_rec43] 1"
  let ?adj = "\<lambda>b. base_score b
      + calculate_personalization_score (up_preferences ex_user) (rec_profile b)
      - (if is_disliked ex_user b then 0.5 else 0)"
  note t = disliked_penalty [of ex_user "[ex_rec42, ex_rec43]" 1]
  have u: "up_ratings ex_user (rating_key ex_rec42) = None"
      "up_ratings ex_user (rating_key ex_rec43) = None"
    by (simp_all add: ex_user_def empty_profile_def)
  have a42: "?adj ex_rec42 = 45.3 + 0.075 - 0.5"
    by (simp add: ex_user_def ex_rec42_def empty_profile_def is_disliked_def base_score_def
      calculate_personalization_score_def genre_score_def director_score_def
      actor_score_def movie_genres_def movie_director_def movie_cast_def ex_prefs_def
      ex_profile_def)
  have a43: "?adj ex_rec43 = 30"
    by (simp add: ex_user_def ex_rec43_def empty_profile_def is_disliked_def base_score_def
      calculate_personalization_score_def genre_score_def director_score_def
      actor_score_def movie_genres_def movie_director_def movie_cast_def ex_prefs_def
      ex_old_profile_def)
  from t have origin: "\<forall>r \<in> set ?out. \<exists>b \<in> set [ex_rec42, ex_rec43].
      up_ratings ex_user (rating_key b) = None \<and> rec_id r = rec_id b \<and>
      rec_profile r = rec_profile b \<and> rec_final_score r = Some (?adj b)"
    by (rule conjunct1)
  from t [THEN conjunct2, THEN conjunct2, THEN conjunct1] u
  have len: "length ?out = 1" by simp
  have m42: "ex_rec42 \<in> set [ex_rec42, ex_rec43]" by simp
  note top = t [THEN conjunct2, THEN conjunct2, THEN conjunct2, THEN conjunct2, rule_format,
    OF m42 u(1)]
  have "\<exists>r \<in> set ?out. rec_id r = rec_id ex_rec42 \<and> rec_final_score r = Some (?adj ex_rec42)"
  proof (rule disjE [OF top])
    assume "\<exists>r \<in> set ?out. rec_id r = rec_id ex_rec42 \<and>
        rec_profile r = rec_profile ex_rec42 \<and> rec_final_score r = Some (?adj ex_rec42)"
    then show ?thesis by blast
  next
    assume full: "length ?out = 1 \<and>
        (\<forall>r \<in> set ?out. \<exists>f. rec_final_score r = Some f \<and> ?adj ex_rec42 \<le> f)"
    from len have "?out \<noteq> []" by auto
    then have m: "hd ?out \<in> set ?out" by (rule hd_in_set)
    from full m obtain f where f: "rec_final_score (hd ?out) = Some f" "?adj ex_rec42 \<le> f"
      by blast
    from origin m obtain b where
      b: "b = ex_rec42 \<or> b = ex_rec43" "rec_id (hd ?out) = rec_id b"
         "rec_final_score (hd ?out) = Some (?adj b)"
      by auto
    from b(1) show ?thesis
    proof
      assume e: "b = ex_rec42"
      show ?thesis
        by (rule bexI [OF _ m]) (use b(2,3) in \<open>simp add: e\<close>)
    next
      assume "b = ex_rec43"
      with b(3) f have "?adj ex_rec42 \<le> ?adj ex_rec43" by simp
      then show ?thesis unfolding a42 a43 by simp
    qed
  qed
  then show ?thesis using len unfolding a42 by (simp add: ex_rec42_def)
qed

section \<open>Properties of rating tracking\<close>

lemma bump_accumulated: "bump w names prefs name = accumulated w names prefs name"
proof (induction names arbitrary: prefs)
  case Nil
  show ?case by (simp add: accumulated_def)
next
  case (Cons n names)
  show ?case
  proof (cases "n = name \<and> n \<noteq> []")
    case True
    then have n: "n = name" "name \<noteq> []" by auto
    let ?F = "\<lambda>v. py_round (v + w) 2"
    have sw: "(?F ^^ c) (?F x) = ?F ((?F ^^ c) x)" for c x
      by (rule funpow_swap1 [symmetric])
    show ?thesis
      unfolding bump.simps Cons.IH
      using n sw by (simp add: accumulated_def)
  next
    case False
    then show ?thesis
      unfolding bump.simps Cons.IH
      by (auto simp: accumulated_def)
  qed
qed

text \<open>
  Claim C10. \<open>track_rating\<close> always stores the rating with its timestamp under
  \<open>str(movie_id)\<close> in the profile it returns, and on disk when the write succeeds.
  Without movie data, or for a rating below 4, the four preference accumulators are
  unchanged. With movie data and a rating of at least 4, every named genre and director
  accumulates the weight \<open>rating / 5\<close>, each of the first five actors half of it and
  each of the first ten keywords 0.3 of it, each addition rounded to two decimals; the
  accumulators of all other names are unchanged.
\<close>

theorem track_rating_frame:
  "up_ratings (fst (track_rating disk write_ok user_id now movie_id r movie_data)) =
     (up_ratings (load_user_profile disk user_id))
       (str_int movie_id \<mapsto> \<lparr>rating = r, timestamp = now\<rparr>) \<and>
   (write_ok \<longrightarrow>
      snd (track_rating disk write_ok user_id now movie_id r movie_data) user_id =
        Some (fst (track_rating disk write_ok user_id now movie_id r movie_data))) \<and>
   (movie_data = None \<or> r < 4 \<longrightarrow>
      up_preferences (fst (track_rating disk write_ok user_id now movie_id r movie_data)) =
        up_preferences (load_user_profile disk user_id)) \<and>
   (\<forall>md. movie_data = Some md \<and> 4 \<le> r \<longrightarrow>
      (\<forall>name.
         pref_genres (up_preferences (fst (track_rating disk write_ok user_id now movie_id r movie_data))) name =
           accumulated (r / 5) (map item_name (get_list (md_genres md)))
             (pref_genres (up_preferences (load_user_profile disk user_id))) name \<and>
         pref_directors (up_preferences (fst (track_rating disk write_ok user_id now movie_id r movie_data))) name =
           accumulated (r / 5) (get_list (md_director md))
             (pref_directors (up_preferences (load_user_profile disk user_id))) name \<and>
         pref_actors (up_preferences (fst (track_rating disk write_ok user_id now movie_id r movie_data))) name =
           accumulated (r / 5 * 0.5) (map item_name (take 5 (get_list (md_cast md))))
             (pref_actors (up_preferences (load_user_profile disk user_id))) name \<and>
         pref_keywords (up_preferences (fst (track_rating disk write_ok user_id now movie_id r movie_data))) name =
           accumulated (r / 5 * 0.3) (map item_name (take 10 (get_list (md_keywords md))))
             (pref_keywords (up_preferences (load_user_profile disk user_id))) name))"
proof (intro conjI impI allI)
  show "up_ratings (fst (track_rating disk write_ok user_id now movie_id r movie_data)) =
     (up_ratings (load_user_profile disk user_id))
       (str_int movie_id \<mapsto> \<lparr>rating = r, timestamp = now\<rparr>)"
    by (simp add: track_rating_def Let_def split: option.splits)
next
  assume write_ok
  then show "snd (track_rating disk write_ok user_id now movie_id r movie_data) user_id =
        Some (fst (track_rating disk write_ok user_id now movie_id r movie_data))"
    by (simp add: track_rating_def Let_def save_user_profile_def)
next
  assume "movie_data = None \<or> r < 4"
  then show "up_preferences (fst (track_rating disk write_ok user_id now movie_id r movie_data)) =
        up_preferences (load_user_profile disk user_id)"
    by (auto simp: track_rating_def Let_def split: option.splits)
next
  fix md name assume m: "movie_data = Some md \<and> 4 \<le> r"
  then have p: "up_preferences (fst (track_rating disk write_ok user_id now movie_id r movie_data))
      = update_preferences (up_preferences (load_user_profile disk user_id)) md (r / 5)"
    by (simp add: track_rating_def Let_def)
  show "pref_genres (up_preferences (fst (track_rating disk write_ok user_id now movie_id r movie_data))) name =
           accumulated (r / 5) (map item_name (get_list (md_genres md)))
             (pref_genres (up_preferences (load_user_profile disk user_id))) name"
    unfolding p by (simp add: update_preferences_def bump_accumulated)
  show "pref_directors (up_preferences (fst (track_rating disk write_ok user_id now movie_id r movie_data))) name =
           accumulated (r / 5) (get_list (md_director md))
             (pref_directors (up_preferences (load_user_profile disk user_id))) name"
    unfolding p by (simp add: update_preferences_def bump_accumulated)
  show "pref_actors (up_preferences (fst (track_rating disk write_ok user_id now movie_id r movie_data))) name =
           accumulated (r / 5 * 0.5) (map item_name (take 5 (get_list (md_cast md))))
             (pref_actors (up_preferences (load_user_profile disk user_id))) name"
    unfolding p by (simp add: update_preferences_def bump_accumulated)
  show "pref_keywords (up_preferences (fst (track_rating disk write_ok user_id now movie_id r movie_data))) name =
           accumulated (r / 5 * 0.3) (map item_name (take 10 (get_list (md_keywords md))))
             (pref_keywords (up_preferences (load_user_profile disk user_id))) name"
    unfolding p by (simp add: update_preferences_def bump_accumulated)
qed

lemma str_int_603: "str_int 603 = ''603''"
  by code_simp

theorem track_rating_frame_witness:
  "up_ratings (fst (track_rating ex_disk True ''u1'' ''2024-01-01T00:00:00'' 603 3 (Some ex_movie_data)))
     ''603'' = Some \<lparr>rating = 3, timestamp = ''2024-01-01T00:00:00''\<rparr> \<and>
   up_preferences (fst (track_rating ex_disk True ''u1'' ''2024-01-01T00:00:00'' 603 3 (Some ex_movie_data)))
     = ex_prefs \<and>
   snd (track_rating ex_disk True ''u1'' ''2024-01-01T00:00:00'' 603 3 (Some ex_movie_data)) ''u1''
     = Some (fst (track_rating ex_disk True ''u1'' ''2024-01-01T00:00:00'' 603 3 (Some ex_movie_data))) \<and>
   pref_genres (up_preferences
       (fst (track_rating ex_disk True ''u1'' ''2024-01-01T00:00:00'' 603 4 (Some ex_movie_data))))
     ''Action'' = Some 2.8 \<and>
   pref_genres (up_preferences
       (fst (track_rating ex_disk True ''u1'' ''2024-01-01T00:00:00'' 603 4 (Some ex_movie_data))))
     ''Drama'' = Some 0.8 \<and>
   pref_actors (up_preferences
       (fst (track_rating ex_disk True ''u1'' ''2024-01-01T00:00:00'' 603 4 (Some ex_movie_data))))
     ''Keanu Reeves'' = Some 1.9 \<and>
   pref_keywords (up_preferences
       (fst (track_rating ex_disk True ''u1'' ''2024-01-01T00:00:00'' 603 4 (Some ex_movie_data))))
     ''hacker'' = Some 0.24"
proof -
  note t3 = track_rating_frame [of ex_disk True "''u1''" "''2024-01-01T00:00:00''" 603 3
      "Some ex_movie_data"]
  note t4 = track_rating_frame [of ex_disk True "''u1''" "''2024-01-01T00:00:00''" 603 4
      "Some ex_movie_data"]
  have l: "load_user_profile ex_disk ''u1'' = ex_user"
    by (simp add: load_user_profile_def ex_disk_def)
  have p: "up_preferences ex_user = ex_prefs"
    by (simp add: ex_user_def)
  have a: "up_ratings (fst (track_rating ex_disk True ''u1'' ''2024-01-01T00:00:00'' 603 3
      (Some ex_movie_data))) ''603'' = Some \<lparr>rating = 3, timestamp = ''2024-01-01T00:00:00''\<rparr>"
    using t3 by (simp add: str_int_603)
  have b: "up_preferences (fst (track_rating ex_disk True ''u1'' ''2024-01-01T00:00:00'' 603 3
      (Some ex_movie_data))) = ex_prefs"
    using t3 l p by simp
  have c: "snd (track_rating ex_disk True ''u1'' ''2024-01-01T00:00:00'' 603 3 (Some ex_movie_data))
      ''u1''
     = Some (fst (track_rating ex_disk True ''u1'' ''2024-01-01T00:00:00'' 603 3 (Some ex_movie_data)))"
    using t3 by blast
  have e1: "accumulated (4 / 5) (map item_name (get_list (md_genres ex_movie_data)))
      (pref_genres ex_prefs) ''Action'' = Some 2.8"
    by code_simp
  have e2: "accumulated (4 / 5) (map item_name (get_list (md_genres ex_movie_data)))
      (pref_genres ex_prefs) ''Drama'' = Some 0.8"
    by code_simp
  have e3: "accumulated (4 / 5 * 0.5) (map item_name (take 5 (get_list (md_cast ex_movie_data))))
      (pref_actors ex_prefs) ''Keanu Reeves'' = Some 1.9"
    by code_simp
  have e4: "accumulated (4 / 5 * 0.3) (map item_name (take 10 (get_list (md_keywords ex_movie_data))))
      (pref_keywords ex_prefs) ''hacker'' = Some 0.24"
    by code_simp
  from t4 have t4': "\<forall>name.
         pref_genres (up_preferences (fst (track_rating ex_disk True ''u1'' ''2024-01-01T00:00:00''
            603 4 (Some ex_movie_data)))) name =
           accumulated (4 / 5) (map item_name (get_list (md_genres ex_movie_data)))
             (pref_genres (up_preferences (load_user_profile ex_disk ''u1''))) name \<and>
         pref_directors (up_preferences (fst (track_rating ex_disk True ''u1''
            ''2024-01-01T00:00:00'' 603 4 (Some ex_movie_data)))) name =
           accumulated (4 / 5) (get_list (md_director ex_movie_data))
             (pref_directors (up_preferences (load_user_profile ex_disk ''u1''))) name \<and>
         pref_actors (up_preferences (fst (track_rating ex_disk True ''u1'' ''2024-01-01T00:00:00''
            603 4 (Some ex_movie_data)))) name =
           accumulated (4 / 5 * 0.5) (map item_name (take 5 (get_list (md_cast ex_movie_data))))
             (pref_actors (up_preferences (load_user_profile ex_disk ''u1''))) name \<and>
         pref_keywords (up_preferences (fst (track_rating ex_disk True ''u1''
            ''2024-01-01T00:00:00'' 603 4 (Some ex_movie_data)))) name =
           accumulated (4 / 5 * 0.3) (map item_name (take 10 (get_list (md_keywords ex_movie_data))))
             (pref_keywords (up_preferences (load_user_profile ex_disk ''u1''))) name"
    by simp
  from t4' [rule_format, of "''Action''"] t4' [rule_format, of "''Drama''"]
    t4' [rule_format, of "''Keanu Reeves''"] t4' [rule_format, of "''hacker''"]
    a b c e1 e2 e3 e4
  show ?thesis unfolding l p by simp
qed

section \<open>Properties of the model builder\<close>

lemma item_count_pos: "r \<in> set rows \<Longrightarrow> 1 \<le> item_count rows (movieId r)"
proof -
  assume "r \<in> set rows"
  then have "r \<in> set (filter (\<lambda>x. movieId x = movieId r) rows)" by simp
  then have "filter (\<lambda>x. movieId x = movieId r) rows \<noteq> []"
    by (metis empty_iff empty_set)
  then show ?thesis by (cases "filter (\<lambda>x. movieId x = movieId r) rows") (simp_all add: item_count_def)
qed

text \<open>
  Claim C8. When, after the ratings of films without a TMDb id are dropped, every
  remaining film has fewer ratings than \<open>min_item_ratings\<close>, the builder returns
  \<open>None\<close>: it raises nothing and writes no file, for every \<open>top_k\<close> and block size.
\<close>

theorem sparse_ratings_give_no_model:
  assumes few: "\<forall>r \<in> set (filter (\<lambda>r. fst (build_tmdb_mapping links) (movieId r) \<noteq> None) ratings).
      item_count (filter (\<lambda>r. fst (build_tmdb_mapping links) (movieId r) \<noteq> None) ratings) (movieId r)
        < min_item_ratings"
  shows "build_and_save_cf_model ar files ratings links model_path top_k min_item_ratings block_size
           = Inr (None, files)"
proof -
  let ?valid = "filter (\<lambda>r. fst (build_tmdb_mapping links) (movieId r) \<noteq> None) ratings"
  have pruned: "(if 1 < min_item_ratings
          then filter (\<lambda>r. min_item_ratings \<le> item_count ?valid (movieId r)) ?valid
          else ?valid) = []"
  proof (cases "1 < min_item_ratings")
    case True
    from few have "filter (\<lambda>r. min_item_ratings \<le> item_count ?valid (movieId r)) ?valid = []"
      by (auto simp: filter_empty_conv)
    with True show ?thesis by simp
  next
    case False
    have "?valid = []"
    proof (rule ccontr)
      assume "?valid \<noteq> []"
      then have "hd ?valid \<in> set ?valid" by (rule hd_in_set)
      then obtain r where r: "r \<in> set ?valid" ..
      from item_count_pos [OF r] few r False show False by force
    qed
    with False show ?thesis by simp
  qed
  show ?thesis
    unfolding build_and_save_cf_model_def Let_def
    by (simp add: case_prod_beta pruned)
qed

theorem sparse_ratings_give_no_model_witness:
  "build_and_save_cf_model float32_arith Map.empty ex_ratings ex_links ''models/movielens_cf.pkl'' 50 5 500
     = Inr (None, Map.empty)"
proof (rule sparse_ratings_give_no_model)
  show "\<forall>r \<in> set (filter (\<lambda>r. fst (build_tmdb_mapping ex_links) (movieId r) \<noteq> None) ex_ratings).
      item_count (filter (\<lambda>r. fst (build_tmdb_mapping ex_links) (movieId r) \<noteq> None) ex_ratings)
        (movieId r) < 5"
    by (simp add: ex_ratings_def ex_links_def build_tmdb_mapping_def dict_zip_def item_count_def)
qed

subsection \<open>Rounding to a 32-bit float\<close>

lemma round_half_even_near:
  "\<bar>z - of_int f\<bar> < 1 / 2 \<Longrightarrow> round_half_even z = f"
proof -
  assume a: "\<bar>z - of_int f\<bar> < 1 / 2"
  show ?thesis
  proof (cases "of_int f \<le> z")
    case True
    with a have "\<lfloor>z\<rfloor> = f" by (intro floor_unique) auto
    with a True show ?thesis by (simp add: round_half_even_def Let_def)
  next
    case False
    with a have fl: "\<lfloor>z\<rfloor> = f - 1" by (intro floor_unique) auto
    from False a have "1 / 2 < z - of_int (f - 1)" by simp
    with fl show ?thesis by (simp add: round_half_even_def Let_def)
  qed
qed

lemma round_half_even_int: "round_half_even (of_int j) = j"
  by (rule round_half_even_near) simp

lemma round_half_even_ge_floor: "\<lfloor>z\<rfloor> \<le> round_half_even z"
  by (simp add: round_half_even_def Let_def)

lemma float32_eval:
  assumes "2 powr of_int k \<le> \<bar>x\<bar>" "\<bar>x\<bar> < 2 powr of_int (k + 1)"
  shows "float32 x = of_int (round_half_even (x / 2 powr of_int (k - 23))) * 2 powr of_int (k - 23)"
proof -
  have "0 < (2::real) powr of_int k" by simp
  with assms(1) have pos: "0 < \<bar>x\<bar>" by linarith
  then have "\<lfloor>log 2 \<bar>x\<bar>\<rfloor> = k"
    using assms by (simp add: floor_log_eq_powr_iff)
  with pos show ?thesis by (simp add: float32_def Let_def)
qed

lemma float32_pos: "0 < x \<Longrightarrow> 0 < float32 x"
proof -
  assume x: "0 < x"
  define k where "k = \<lfloor>log 2 \<bar>x\<bar>\<rfloor>"
  from x have b: "2 powr of_int k \<le> \<bar>x\<bar>" "\<bar>x\<bar> < 2 powr of_int (k + 1)"
    using floor_log_eq_powr_iff [of "\<bar>x\<bar>" 2 k] by (simp_all add: k_def)
  have "(2::real) powr of_int (k - 23) \<le> 2 powr of_int k" by simp
  with b(1) x have "2 powr of_int (k - 23) \<le> x" by linarith
  then have "1 \<le> x / 2 powr of_int (k - 23)" by (simp add: le_divide_eq)
  then have "1 \<le> \<lfloor>x / 2 powr of_int (k - 23)\<rfloor>" by simp
  with round_half_even_ge_floor [of "x / 2 powr of_int (k - 23)"]
  have "0 < round_half_even (x / 2 powr of_int (k - 23))" by linarith
  then show ?thesis unfolding float32_eval [OF b] by simp
qed

lemma float32_nonneg: "0 \<le> x \<Longrightarrow> 0 \<le> float32 x"
  using float32_pos [of x] by (cases "x = 0") (simp_all add: float32_def less_eq_real_def)

lemma float32_int:
  assumes "\<bar>m\<bar> < 2 ^ 24"
  shows "float32 (of_int m) = of_int m"
proof (cases "m = 0")
  case True
  then show ?thesis by (simp add: float32_def)
next
  case False
  define x :: real where "x = of_int m"
  define k where "k = \<lfloor>log 2 \<bar>x\<bar>\<rfloor>"
  from False have pos: "0 < \<bar>x\<bar>" by (simp add: x_def)
  then have b: "2 powr of_int k \<le> \<bar>x\<bar>" "\<bar>x\<bar> < 2 powr of_int (k + 1)"
    using floor_log_eq_powr_iff [of "\<bar>x\<bar>" 2 k] by (simp_all add: k_def)
  from assms have "\<bar>x\<bar> < 2 powr of_int 24" by (simp add: x_def flip: of_int_abs)
  with b(1) have "(2::real) powr of_int k < 2 powr of_int 24" by linarith
  then have "real_of_int k < real_of_int 24"
    by (subst (asm) powr_less_cancel_iff) simp_all
  then have "k < 24" by simp
  then have n: "k - 23 = - int (nat (23 - k))" by simp
  define n where "n = nat (23 - k)"
  have p: "(2::real) powr of_int (k - 23) = 1 / 2 ^ n"
    unfolding n n_def [symmetric] by (simp add: powr_minus_divide powr_realpow)
  have "x / 2 powr of_int (k - 23) = of_int (m * 2 ^ n)"
    unfolding p by (simp add: x_def)
  then have "round_half_even (x / 2 powr of_int (k - 23)) = m * 2 ^ n"
    by (simp only: round_half_even_int)
  then show ?thesis
    unfolding x_def [symmetric] float32_eval [OF b] p by (simp add: x_def)
qed

lemma float32_numeral:
  "(numeral n :: int) < 16777216 \<Longrightarrow> float32 (numeral n) = numeral n"
  "(numeral n :: int) < 16777216 \<Longrightarrow> float32 (- numeral n) = - numeral n"
  "float32 0 = 0" "float32 1 = 1"
  using float32_int [of "numeral n"] float32_int [of "- numeral n"] float32_int [of 1]
  by (simp_all add: float32_def)

lemma float32_dot_nonneg:
  assumes "\<forall>x \<in> set u. 0 \<le> x" "\<forall>x \<in> set v. 0 \<le> x"
  shows "0 \<le> float32_dot u v"
proof -
  have "0 \<le> foldl (\<lambda>acc (a, b). float32 (acc + float32 (a * b))) acc ps"
    if "0 \<le> acc" "\<forall>(a, b) \<in> set ps. 0 \<le> a \<and> 0 \<le> b" for acc :: real and ps
    using that
  proof (induction ps arbitrary: acc)
    case Nil
    then show ?case by simp
  next
    case (Cons p ps)
    obtain a b where p: "p = (a, b)" by (cases p)
    with Cons.prems have "0 \<le> a * b" by simp
    then have "0 \<le> acc + float32 (a * b)" using Cons.prems(1) float32_nonneg by (simp add: add_nonneg_nonneg)
    then have "0 \<le> float32 (acc + float32 (a * b))" by (rule float32_nonneg)
    with Cons.IH [of "float32 (acc + float32 (a * b))"] Cons.prems(2) show ?case
      by (simp add: p)
  qed
  moreover have "\<forall>(a, b) \<in> set (zip u v). 0 \<le> a \<and> 0 \<le> b"
    using assms by (auto dest: set_zip_leftD set_zip_rightD)
  ultimately show ?thesis unfolding float32_dot_def by simp
qed

lemma float32_norm_pos: "0 < float32_norm u"
proof -
  have "0 \<le> float32 (sqrt (foldl (\<lambda>acc a. float32 (acc + float32 (a * a))) 0 u))"
    (is "0 \<le> float32 (sqrt ?s)")
  proof (cases "0 \<le> ?s")
    case True
    then show ?thesis by (intro float32_nonneg) simp
  next
    case False
    have "0 \<le> foldl (\<lambda>acc a. float32 (acc + float32 (a * a))) acc u" if "0 \<le> acc" for acc :: real
      using that
    proof (induction u arbitrary: acc)
      case Nil
      then show ?case by simp
    next
      case (Cons a u)
      have "0 \<le> acc + float32 (a * a)" using Cons.prems float32_nonneg [of "a * a"] by simp
      then have "0 \<le> float32 (acc + float32 (a * a))" by (rule float32_nonneg)
      from Cons.IH [OF this] show ?case by simp
    qed
    from this [of 0] False show ?thesis by simp
  qed
  moreover have "0 < float32 (1 / 10 ^ 10)" by (rule float32_pos) simp
  ultimately show ?thesis unfolding float32_norm_def by (intro float32_pos) simp
qed

lemma sign_faithful_float32: "sign_faithful float32_arith"
  unfolding sign_faithful_def float32_arith_def
  using float32_dot_nonneg float32_norm_pos float32_pos float32_nonneg by simp

subsection \<open>The rounded values of the examples\<close>

lemma float32_tiny: "float32 (1 / 10 ^ 10) = 14411519 / 2 ^ 57"
proof -
  have "float32 (1 / 10 ^ 10) =
      of_int (round_half_even ((1 / 10 ^ 10) / 2 powr of_int (- 34 - 23))) * 2 powr of_int (- 34 - 23)"
    by (rule float32_eval) (simp_all add: powr_minus_divide)
  also have "round_half_even ((1 / 10 ^ 10) / 2 powr of_int (- 34 - 23)) = 14411519"
    by (rule round_half_even_near) (simp add: powr_minus_divide)
  finally show ?thesis by (simp add: powr_minus_divide)
qed

lemma float32_sqrt_34: "float32 (sqrt 34) = 12228392 / 2 ^ 21"
proof -
  have lo: "(12228392 - 1 / 2) / 2 ^ 21 < sqrt 34"
    by (rule real_less_rsqrt) (simp add: power2_eq_square)
  have hi: "sqrt 34 < (12228392 + 1 / 2) / 2 ^ 21"
    by (rule real_less_lsqrt) (simp_all add: power2_eq_square)
  have "float32 (sqrt 34) =
      of_int (round_half_even (sqrt 34 / 2 powr of_int (2 - 23))) * 2 powr of_int (2 - 23)"
  proof (rule float32_eval)
    from lo show "2 powr real_of_int 2 \<le> \<bar>sqrt 34\<bar>" by simp
    from hi show "\<bar>sqrt 34\<bar> < 2 powr real_of_int (2 + 1)" by simp
  qed
  also have "round_half_even (sqrt 34 / 2 powr of_int (2 - 23)) = 12228392"
  proof (rule round_half_even_near)
    have e: "sqrt 34 / 2 powr real_of_int (2 - 23) = sqrt 34 * 2097152"
      by (simp add: powr_minus_divide)
    from lo hi have "24456783 < sqrt 34 * 4194304" "sqrt 34 * 4194304 < 24456785"
      by simp_all
    then show "\<bar>sqrt 34 / 2 powr real_of_int (2 - 23) - real_of_int 12228392\<bar> < 1 / 2"
      unfolding e by linarith
  qed
  finally show ?thesis by (simp add: powr_minus_divide)
qed

lemma float32_value:
  assumes "2 powr of_int k \<le> \<bar>x\<bar>" "\<bar>x\<bar> < 2 powr of_int (k + 1)"
    and "\<bar>x / 2 powr of_int (k - 23) - of_int m\<bar> < 1 / 2"
  shows "float32 x = of_int m * 2 powr of_int (k - 23)"
  unfolding float32_eval [OF assms(1,2)] round_half_even_near [OF assms(3)] ..

lemma float32_minus_one: "float32 (- 1) = - 1"
  using float32_int [of "- 1"] by simp

lemma float32_dot_3_5: "float32_dot [3, 5] [3, 5] = 34"
  by (simp add: float32_dot_def float32_numeral)

lemma float32_norm_3_5: "float32_norm [3, 5] = 12228392 / 2 ^ 21"
proof -
  have s: "foldl (\<lambda>acc a. float32 (acc + float32 (a * a))) 0 [3, 5] = 34"
    by (simp add: float32_numeral)
  have "float32 (12228392 / 2 ^ 21 + 14411519 / 2 ^ 57)
      = of_int 12228392 * 2 powr of_int (2 - 23)"
    by (rule float32_value) (simp_all add: powr_minus_divide)
  then have r: "float32 (12228392 / 2 ^ 21 + 14411519 / 2 ^ 57) = 12228392 / 2 ^ 21"
    by (simp add: powr_minus_divide)
  show ?thesis unfolding float32_norm_def s float32_sqrt_34 float32_tiny r ..
qed

lemma float32_denom_3_5: "float32 (12228392 / 2 ^ 21 * (12228392 / 2 ^ 21)) = 8912895 / 2 ^ 18"
proof -
  have "float32 (12228392 / 2 ^ 21 * (12228392 / 2 ^ 21))
      = of_int 8912895 * 2 powr of_int (5 - 23)"
    by (rule float32_value) (simp_all add: powr_minus_divide)
  then show ?thesis by (simp add: powr_minus_divide)
qed

lemma float32_quot_3_5: "float32 (34 / (8912895 / 2 ^ 18)) = 8388609 / 2 ^ 23"
proof -
  have "float32 (34 / (8912895 / 2 ^ 18)) = of_int 8388609 * 2 powr of_int (0 - 23)"
    by (rule float32_value) (simp_all add: powr_minus_divide)
  then show ?thesis by (simp add: powr_minus_divide)
qed

lemma stored_sim_3_5:
  "stored_sim float32_arith [[3, 5], [3, 5]] g j = 8388609 / 2 ^ 23" if "g < 2" "j < 2"
proof -
  from that have r: "[[3, 5], [3, 5 :: real]] ! g = [3, 5]" "[[3, 5], [3, 5 :: real]] ! j = [3, 5]"
    by (auto simp: less_Suc_eq numeral_2_eq_2)
  have "stored_sim float32_arith [[3, 5], [3, 5]] g j
      = float32 (float32_dot [3, 5] [3, 5] / float32 (float32_norm [3, 5] * float32_norm [3, 5]))"
    unfolding stored_sim_def r by (simp add: float32_arith_def)
  also have "\<dots> = 8388609 / 2 ^ 23"
    unfolding float32_dot_3_5 float32_norm_3_5 float32_denom_3_5 float32_quot_3_5 ..
  finally show ?thesis .
qed

lemma float32_norm_unit: "float32_norm [1] = 1" "float32_norm [- 1] = 1"
proof -
  have s: "foldl (\<lambda>acc a. float32 (acc + float32 (a * a))) 0 [1] = 1"
      "foldl (\<lambda>acc a. float32 (acc + float32 (a * a))) 0 [- 1] = 1"
    by (simp_all add: float32_numeral)
  have "float32 (1 + 14411519 / 2 ^ 57) = of_int 8388608 * 2 powr of_int (0 - 23)"
    by (rule float32_value) (simp_all add: powr_minus_divide)
  then have r: "float32 (1 + 14411519 / 2 ^ 57) = 1"
    by (simp add: powr_minus_divide)
  show "float32_norm [1] = 1" "float32_norm [- 1] = 1"
    unfolding float32_norm_def s real_sqrt_one float32_numeral float32_tiny r by (rule refl)+
qed

subsection \<open>The neighbours of a row and their order\<close>

lemma masked_row_eq:
  "masked_row ar M (map (a_norm ar) M) g =
     (neighbors_of ar M g, map (stored_sim ar M g) (neighbors_of ar M g))" if "g < length M"
proof -
  let ?idx = "filter (\<lambda>j. a_dot ar (M ! g) (M ! j) \<noteq> 0) [0..<length M]"
  have z: "zip (map (\<lambda>j. a_dot ar (M ! g) (M ! j)) ?idx)
               (map (\<lambda>j. a_mul ar (map (a_norm ar) M ! g) (map (a_norm ar) M ! j)) ?idx)
         = map (\<lambda>j. (a_dot ar (M ! g) (M ! j), a_mul ar (a_norm ar (M ! g)) (a_norm ar (M ! j)))) ?idx"
    using that by (simp add: zip_map_map zip_same_conv_map)
  have s: "map (\<lambda>(v, d). a_div ar v d)
             (map (\<lambda>j. (a_dot ar (M ! g) (M ! j), a_mul ar (a_norm ar (M ! g)) (a_norm ar (M ! j)))) ?idx)
         = map (stored_sim ar M g) ?idx"
    by (simp add: stored_sim_def)
  have k: "filter (\<lambda>(j, s). j \<noteq> g) (zip ?idx (map (stored_sim ar M g) ?idx))
         = map (\<lambda>j. (j, stored_sim ar M g j)) (neighbors_of ar M g)"
    by (simp add: zip_map2 zip_same_conv_map filter_map o_def neighbors_of_def conj_commute)
  show ?thesis
    unfolding masked_row_def Let_def z s k by (simp add: o_def)
qed

lemma neighbors_of_props:
  "distinct (neighbors_of ar M g)"
  "j \<in> set (neighbors_of ar M g) \<Longrightarrow> j < length M \<and> j \<noteq> g \<and> a_dot ar (M ! g) (M ! j) \<noteq> 0"
  by (auto simp: neighbors_of_def)

lemma argsort_desc_props:
  "set (argsort_desc sims) = {0..<length sims}"
  "distinct (argsort_desc sims)"
  "length (argsort_desc sims) = length sims"
  "sorted (map (\<lambda>j. - (sims ! j)) (argsort_desc sims))"
  by (simp_all add: argsort_desc_def)

lemma argsort_desc_mono:
  assumes "p \<le> q" "q < length sims"
  shows "sims ! (argsort_desc sims ! q) \<le> sims ! (argsort_desc sims ! p)"
proof -
  let ?a = "argsort_desc sims"
  have "map (\<lambda>j. - (sims ! j)) ?a ! p \<le> map (\<lambda>j. - (sims ! j)) ?a ! q"
    using argsort_desc_props(4) assms by (intro sorted_nth_mono) (simp_all add: argsort_desc_props)
  then show ?thesis using assms by (simp add: argsort_desc_props)
qed

lemma top_order_length: "length (top_order sims K) = min K (length sims)"
  by (simp add: top_order_def Let_def argsort_desc_props)

lemma top_order_range: "i \<in> set (top_order sims K) \<Longrightarrow> i < length sims"
proof (cases "length sims \<le> K")
  case True
  assume "i \<in> set (top_order sims K)"
  with True show ?thesis by (simp add: top_order_def argsort_desc_props)
next
  case False
  let ?part = "take K (argsort_desc sims)"
  let ?a = "argsort_desc (map (\<lambda>i. sims ! i) ?part)"
  assume "i \<in> set (top_order sims K)"
  with False obtain t where t: "t \<in> set ?a" "i = ?part ! t"
    by (auto simp: top_order_def Let_def)
  from t(1) have "t < length ?part" by (simp add: argsort_desc_props)
  then have "?part ! t \<in> set ?part" by (rule nth_mem)
  then have "?part ! t \<in> set (argsort_desc sims)" by (rule in_set_takeD)
  with t(2) show ?thesis by (simp add: argsort_desc_props)
qed

lemma top_order_distinct: "distinct (top_order sims K)"
proof (cases "length sims \<le> K")
  case True
  then show ?thesis by (simp add: top_order_def argsort_desc_props)
next
  case False
  let ?part = "take K (argsort_desc sims)"
  let ?a = "argsort_desc (map (\<lambda>i. sims ! i) ?part)"
  have dp: "distinct ?part" by (simp add: argsort_desc_props)
  have "inj_on (\<lambda>i. ?part ! i) (set ?a)"
  proof (rule inj_onI)
    fix x y assume "x \<in> set ?a" "y \<in> set ?a" "?part ! x = ?part ! y"
    then have "x < length ?part" "y < length ?part" by (simp_all add: argsort_desc_props)
    with dp \<open>?part ! x = ?part ! y\<close> show "x = y"
      using nth_eq_iff_index_eq [of ?part x y] by blast
  qed
  then have "distinct (map (\<lambda>i. ?part ! i) ?a)"
    by (simp add: distinct_map argsort_desc_props)
  with False show ?thesis by (simp add: top_order_def Let_def)
qed

lemma top_order_mono:
  assumes "p \<le> q" "q < length (top_order sims K)"
  shows "sims ! (top_order sims K ! q) \<le> sims ! (top_order sims K ! p)"
proof (cases "length sims \<le> K")
  case True
  with assms show ?thesis
    by (simp add: top_order_def argsort_desc_props argsort_desc_mono)
next
  case False
  let ?part = "take K (argsort_desc sims)"
  let ?s = "map (\<lambda>i. sims ! i) ?part"
  let ?a = "argsort_desc ?s"
  have o: "top_order sims K = map (\<lambda>i. ?part ! i) ?a"
    using False by (simp add: top_order_def Let_def)
  from assms have q: "q < length ?s" by (simp add: o argsort_desc_props)
  with assms(1) have p: "p < length ?s" by simp
  have lt: "?a ! q < length ?part" "?a ! p < length ?part"
    using argsort_desc_props(1) [of ?s] q p
    by (metis argsort_desc_props(3) atLeastLessThan_iff length_map nth_mem)+
  have "?s ! (?a ! q) \<le> ?s ! (?a ! p)" using assms(1) q by (rule argsort_desc_mono)
  then have "sims ! (?part ! (?a ! q)) \<le> sims ! (?part ! (?a ! p))"
    using lt by simp
  then show ?thesis
    unfolding o using q p by (simp add: argsort_desc_props)
qed

subsection \<open>The loops fill every row once\<close>

lemma top_order_Nil: "top_order [] K = []"
  using top_order_length [of "[]" K] by simp

lemma store_row_eq:
  assumes g: "g < length M" and z: "ti ! g = replicate K 0" "ts ! g = replicate K 0"
  shows "store_row ar M (map (a_norm ar) M) K g (ti, ts) =
           (ti[g := fst (neighbor_row ar M K g)], ts[g := snd (neighbor_row ar M K g)])"
proof -
  let ?idx = "neighbors_of ar M g"
  let ?sims = "map (stored_sim ar M g) ?idx"
  let ?order = "top_order ?sims K"
  have m: "masked_row ar M (map (a_norm ar) M) g = (?idx, ?sims)" using g by (rule masked_row_eq)
  have nr: "neighbor_row ar M K g =
      (map (\<lambda>i. ?idx ! i) ?order @ replicate (K - length ?order) 0,
       map (\<lambda>i. ?sims ! i) ?order @ replicate (K - length ?order) 0)"
    by (simp add: neighbor_row_def m Let_def)
  show ?thesis
  proof (cases "?sims = []")
    case True
    then have "neighbor_row ar M K g = (replicate K 0, replicate K 0)"
      unfolding nr by (simp add: top_order_Nil)
    moreover have "ti[g := replicate K 0] = ti" "ts[g := replicate K 0] = ts"
      using z list_update_id [of ti g] list_update_id [of ts g] by simp_all
    ultimately show ?thesis using True
      by (simp add: store_row_def m Let_def)
  next
    case False
    have k: "min K (length ?order) = length ?order"
      by (simp add: top_order_length)
    show ?thesis
      using False unfolding store_row_def m nr Let_def k
      by (simp add: top_order_length z)
  qed
qed

lemma store_row_inv:
  assumes "tables_upto ar M K g tables" "g < length M"
  shows "tables_upto ar M K (Suc g) (store_row ar M (map (a_norm ar) M) K g tables)"
proof -
  obtain ti ts where t: "tables = (ti, ts)" by (cases tables)
  from assms have z: "ti ! g = replicate K 0" "ts ! g = replicate K 0"
    and l: "length ti = length M" "length ts = length M"
    unfolding tables_upto_def t by (auto split: if_splits)
  have e: "store_row ar M (map (a_norm ar) M) K g (ti, ts) =
           (ti[g := fst (neighbor_row ar M K g)], ts[g := snd (neighbor_row ar M K g)])"
    using assms(2) z by (rule store_row_eq)
  show ?thesis
    unfolding t e tables_upto_def
  proof (intro conjI allI impI)
    fix h assume h: "h < length M"
    show "if h < Suc g
         then (fst (ti[g := fst (neighbor_row ar M K g)], ts[g := snd (neighbor_row ar M K g)]) ! h,
               snd (ti[g := fst (neighbor_row ar M K g)], ts[g := snd (neighbor_row ar M K g)]) ! h) =
              neighbor_row ar M K h
         else (fst (ti[g := fst (neighbor_row ar M K g)], ts[g := snd (neighbor_row ar M K g)]) ! h,
               snd (ti[g := fst (neighbor_row ar M K g)], ts[g := snd (neighbor_row ar M K g)]) ! h) =
              (replicate K 0, replicate K 0)"
    proof (cases "h = g")
      case True
      with l assms(2) show ?thesis by simp
    next
      case False
      with assms(1) h show ?thesis
        unfolding tables_upto_def t by (auto simp: less_Suc_eq split: if_splits)
    qed
  qed (simp_all add: l)
qed

lemma rows_loop_inv:
  assumes "tables_upto ar M K a tables" "a \<le> b" "b \<le> length M"
  shows "tables_upto ar M K b (rows_loop ar M (map (a_norm ar) M) K [a..<b] tables)"
  using assms
proof (induction "b - a" arbitrary: a tables)
  case 0
  then show ?case by simp
next
  case (Suc d)
  then have lt: "a < b" by simp
  then have u: "[a..<b] = a # [Suc a..<b]" by (rule upt_conv_Cons)
  have s: "tables_upto ar M K (Suc a) (store_row ar M (map (a_norm ar) M) K a tables)"
    using Suc.prems(1) lt Suc.prems(3) by (intro store_row_inv) simp_all
  have "tables_upto ar M K b
      (rows_loop ar M (map (a_norm ar) M) K [Suc a..<b] (store_row ar M (map (a_norm ar) M) K a tables))"
    using Suc.hyps(2) lt Suc.prems(3) by (intro Suc.hyps(1) s) simp_all
  then show ?case unfolding u by simp
qed

lemma tables_upto_beyond:
  "tables_upto ar M K s tables \<Longrightarrow> length M \<le> s \<Longrightarrow> tables_upto ar M K (length M) tables"
  by (auto simp: tables_upto_def)

lemma tables_upto_min:
  "tables_upto ar M K (min s (length M)) tables \<Longrightarrow> tables_upto ar M K s tables"
  by (auto simp: tables_upto_def split: if_splits)

lemma block_loop_inv:
  "tables_upto ar M K start tables \<Longrightarrow> 0 < bs \<Longrightarrow>
     tables_upto ar M K (length M) (block_loop ar M (map (a_norm ar) M) K bs start tables)"
proof (induction ar M "map (a_norm ar) M" K bs start tables rule: block_loop.induct)
  case (1 ar M K bs start tables)
  show ?case
  proof (cases "start < length M")
    case True
    have "tables_upto ar M K (min (start + bs) (length M))
        (rows_loop ar M (map (a_norm ar) M) K [start..<min (start + bs) (length M)] tables)"
      using "1.prems"(1) True by (intro rows_loop_inv) simp_all
    then have "tables_upto ar M K (start + bs)
        (rows_loop ar M (map (a_norm ar) M) K [start..<min (start + bs) (length M)] tables)"
      by (rule tables_upto_min)
    from "1.hyps" [OF _ this "1.prems"(2)] True "1.prems"(2) show ?thesis
      by (simp add: block_loop.simps [of ar M "map (a_norm ar) M" K bs start])
  next
    case False
    then have "length M \<le> start" by simp
    with "1.prems"(1) have "tables_upto ar M K (length M) tables"
      by (rule tables_upto_beyond)
    with False show ?thesis
      by (simp add: block_loop.simps [of ar M "map (a_norm ar) M" K bs start])
  qed
qed

lemma compute_tables:
  assumes "0 \<le> top_k" "0 < block_size"
  shows "\<exists>tables. compute_item_similarities_blockwise ar M top_k block_size = Inr tables \<and>
           tables_upto ar M (nat top_k) (length M) tables"
proof -
  let ?z = "(replicate (length M) (replicate (nat top_k) (0::nat)),
             replicate (length M) (replicate (nat top_k) (0::real)))"
  have "tables_upto ar M (nat top_k) 0 ?z" by (simp add: tables_upto_def)
  then have "tables_upto ar M (nat top_k) (length M)
      (block_loop ar M (map (a_norm ar) M) (nat top_k) (nat block_size) 0 ?z)"
    using assms(2) by (intro block_loop_inv) simp_all
  with assms show ?thesis
    by (simp add: compute_item_similarities_blockwise_def Let_def)
qed

lemma compute_eq:
  assumes "0 \<le> top_k" "0 < block_size"
  shows "compute_item_similarities_blockwise ar M top_k block_size =
     Inr (map (\<lambda>g. fst (neighbor_row ar M (nat top_k) g)) [0..<length M],
          map (\<lambda>g. snd (neighbor_row ar M (nat top_k) g)) [0..<length M])"
proof -
  from compute_tables [OF assms, of ar M] obtain ti ts where
    c: "compute_item_similarities_blockwise ar M top_k block_size = Inr (ti, ts)" and
    t: "tables_upto ar M (nat top_k) (length M) (ti, ts)"
    by (metis surj_pair)
  from t have l: "length ti = length M" "length ts = length M"
    and r: "\<forall>g < length M. (ti ! g, ts ! g) = neighbor_row ar M (nat top_k) g"
    by (auto simp: tables_upto_def)
  have "ti = map (\<lambda>g. fst (neighbor_row ar M (nat top_k) g)) [0..<length M]"
  proof (rule nth_equalityI)
    show "length ti = length (map (\<lambda>g. fst (neighbor_row ar M (nat top_k) g)) [0..<length M])"
      using l by simp
    fix i assume "i < length ti"
    with l r have "(ti ! i, ts ! i) = neighbor_row ar M (nat top_k) i" "i < length M" by simp_all
    then show "ti ! i = map (\<lambda>g. fst (neighbor_row ar M (nat top_k) g)) [0..<length M] ! i"
      by (metis fst_conv nth_map_upt add_0 diff_zero length_upt)
  qed
  moreover have "ts = map (\<lambda>g. snd (neighbor_row ar M (nat top_k) g)) [0..<length M]"
  proof (rule nth_equalityI)
    show "length ts = length (map (\<lambda>g. snd (neighbor_row ar M (nat top_k) g)) [0..<length M])"
      using l by simp
    fix i assume "i < length ts"
    with l r have "(ti ! i, ts ! i) = neighbor_row ar M (nat top_k) i" "i < length M" by simp_all
    then show "ts ! i = map (\<lambda>g. snd (neighbor_row ar M (nat top_k) g)) [0..<length M] ! i"
      by (metis snd_conv nth_map_upt add_0 diff_zero length_upt)
  qed
  ultimately show ?thesis using c by simp
qed

subsection \<open>The neighbour tables\<close>

lemma stored_sim_nonneg:
  assumes "sign_faithful ar" "\<forall>row \<in> set M. \<forall>x \<in> set row. 0 \<le> x" "g < length M" "j < length M"
  shows "0 \<le> stored_sim ar M g j"
proof -
  from assms(2-4) have "\<forall>x \<in> set (M ! g). 0 \<le> x" "\<forall>x \<in> set (M ! j). 0 \<le> x" by auto
  with assms(1) have "0 \<le> a_dot ar (M ! g) (M ! j)" unfolding sign_faithful_def by blast
  moreover from assms(1) have "0 < a_mul ar (a_norm ar (M ! g)) (a_norm ar (M ! j))"
    unfolding sign_faithful_def by blast
  ultimately show ?thesis using assms(1) unfolding sign_faithful_def stored_sim_def by blast
qed

lemma neighbor_row_props:
  fixes ar :: arith and M :: "real list list" and K g :: nat
  assumes g: "g < length M"
  defines "k \<equiv> min K (length (neighbors_of ar M g))"
  defines "ri \<equiv> fst (neighbor_row ar M K g)" and "rs \<equiv> snd (neighbor_row ar M K g)"
  shows "length ri = K" "length rs = K" "distinct (take k ri)"
    "p < k \<Longrightarrow> ri ! p \<noteq> g \<and> ri ! p < length M \<and> a_dot ar (M ! g) (M ! (ri ! p)) \<noteq> 0
        \<and> rs ! p = stored_sim ar M g (ri ! p)"
    "p \<le> q \<Longrightarrow> q < k \<Longrightarrow> rs ! q \<le> rs ! p"
    "k \<le> p \<Longrightarrow> p < K \<Longrightarrow> ri ! p = 0 \<and> rs ! p = 0"
proof -
  let ?idx = "neighbors_of ar M g"
  let ?sims = "map (stored_sim ar M g) ?idx"
  let ?order = "top_order ?sims K"
  have m: "masked_row ar M (map (a_norm ar) M) g = (?idx, ?sims)" using g by (rule masked_row_eq)
  have lo: "length ?order = k" by (simp add: top_order_length k_def)
  have ri: "ri = map (\<lambda>i. ?idx ! i) ?order @ replicate (K - k) 0"
    and rs: "rs = map (\<lambda>i. ?sims ! i) ?order @ replicate (K - k) 0"
    by (simp_all add: ri_def rs_def neighbor_row_def m Let_def lo)
  have kK: "k \<le> K" by (simp add: k_def)
  show "length ri = K" "length rs = K" using kK by (simp_all add: ri rs lo)
  have rng: "?order ! p < length ?idx" if "p < k" for p
    using top_order_range [of "?order ! p" ?sims K] that lo by simp
  have "inj_on (\<lambda>i. ?idx ! i) (set ?order)"
  proof (rule inj_onI)
    fix x y assume "x \<in> set ?order" "y \<in> set ?order" "?idx ! x = ?idx ! y"
    then have "x < length ?idx" "y < length ?idx"
      using top_order_range [of x ?sims K] top_order_range [of y ?sims K] by simp_all
    with \<open>?idx ! x = ?idx ! y\<close> show "x = y"
      using nth_eq_iff_index_eq [of ?idx x y] neighbors_of_props(1) [of ar M g] by blast
  qed
  then show "distinct (take k ri)"
    by (simp add: ri lo distinct_map top_order_distinct)
  show "ri ! p \<noteq> g \<and> ri ! p < length M \<and> a_dot ar (M ! g) (M ! (ri ! p)) \<noteq> 0
        \<and> rs ! p = stored_sim ar M g (ri ! p)" if p: "p < k"
  proof -
    have a: "ri ! p = ?idx ! (?order ! p)" using p by (simp add: ri nth_append lo)
    have b: "rs ! p = stored_sim ar M g (ri ! p)"
      using p rng [OF p] by (simp add: rs a nth_append lo)
    have "ri ! p \<in> set ?idx" unfolding a using rng [OF p] by (rule nth_mem)
    from neighbors_of_props(2) [OF this] b show ?thesis by simp
  qed
  show "rs ! q \<le> rs ! p" if "p \<le> q" "q < k"
  proof -
    from that have "?sims ! (?order ! q) \<le> ?sims ! (?order ! p)"
      by (intro top_order_mono) (simp_all add: lo)
    with that show ?thesis by (simp add: rs nth_append lo)
  qed
  show "ri ! p = 0 \<and> rs ! p = 0" if "k \<le> p" "p < K"
    using that by (simp add: ri rs nth_append lo)
qed

text \<open>
  Claim C9, as the code has it. For every rounding of the arithmetic, every matrix, every
  \<open>top_k \<ge> 0\<close> and every positive block size the function returns two tables with one
  row of length \<open>top_k\<close> per film, whatever the block size. In row \<open>g\<close> the first \<open>k\<close>
  slots, where \<open>k\<close> is the smaller of \<open>top_k\<close> and the number of other films with a
  non-zero product, hold distinct films other than \<open>g\<close>, each with a non-zero product and
  with the similarity the code computes for it, the quotient of the product by the product
  of the two norms; these similarities are in descending order. The slots from \<open>k\<close> on hold
  the index 0 and the score 0. No bound on a similarity is stated: the operations are
  rounded, and the quotient can exceed 1.
  When the operations keep the signs and the matrix has no negative entry, no score is
  negative and the whole row of scores is in descending order.
\<close>

theorem neighbor_tables:
  assumes "0 \<le> top_k" "0 < block_size"
  shows "\<exists>ti ts. compute_item_similarities_blockwise ar M top_k block_size = Inr (ti, ts) \<and>
     length ti = length M \<and> length ts = length M \<and>
     (\<forall>g < length M. \<exists>k. k = min (nat top_k) (length (neighbors_of ar M g)) \<and>
         length (ti ! g) = nat top_k \<and> length (ts ! g) = nat top_k \<and>
         distinct (take k (ti ! g)) \<and>
         (\<forall>p < k. ti ! g ! p \<noteq> g \<and> ti ! g ! p < length M \<and>
                  a_dot ar (M ! g) (M ! (ti ! g ! p)) \<noteq> 0 \<and>
                  ts ! g ! p = stored_sim ar M g (ti ! g ! p)) \<and>
         (\<forall>p q. p \<le> q \<and> q < k \<longrightarrow> ts ! g ! q \<le> ts ! g ! p) \<and>
         (\<forall>p. k \<le> p \<and> p < nat top_k \<longrightarrow> ti ! g ! p = 0 \<and> ts ! g ! p = 0) \<and>
         (sign_faithful ar \<and> (\<forall>row \<in> set M. \<forall>x \<in> set row. 0 \<le> x) \<longrightarrow>
            (\<forall>p < nat top_k. 0 \<le> ts ! g ! p) \<and>
            (\<forall>p q. p \<le> q \<and> q < nat top_k \<longrightarrow> ts ! g ! q \<le> ts ! g ! p)))"
proof -
  let ?K = "nat top_k"
  from compute_tables [OF assms, of ar M] obtain ti ts where
    c: "compute_item_similarities_blockwise ar M top_k block_size = Inr (ti, ts)" and
    t: "tables_upto ar M ?K (length M) (ti, ts)"
    by (metis surj_pair)
  from t have l: "length ti = length M" "length ts = length M"
    and r0: "\<forall>g < length M. (ti ! g, ts ! g) = neighbor_row ar M ?K g"
    by (auto simp: tables_upto_def)
  have r: "ti ! g = fst (neighbor_row ar M ?K g) \<and> ts ! g = snd (neighbor_row ar M ?K g)"
    if "g < length M" for g
    using r0 [rule_format, OF that] by (metis fst_conv snd_conv)
  have row: "\<exists>k. k = min ?K (length (neighbors_of ar M g)) \<and>
         length (ti ! g) = ?K \<and> length (ts ! g) = ?K \<and>
         distinct (take k (ti ! g)) \<and>
         (\<forall>p < k. ti ! g ! p \<noteq> g \<and> ti ! g ! p < length M \<and>
                  a_dot ar (M ! g) (M ! (ti ! g ! p)) \<noteq> 0 \<and>
                  ts ! g ! p = stored_sim ar M g (ti ! g ! p)) \<and>
         (\<forall>p q. p \<le> q \<and> q < k \<longrightarrow> ts ! g ! q \<le> ts ! g ! p) \<and>
         (\<forall>p. k \<le> p \<and> p < ?K \<longrightarrow> ti ! g ! p = 0 \<and> ts ! g ! p = 0) \<and>
         (sign_faithful ar \<and> (\<forall>row \<in> set M. \<forall>x \<in> set row. 0 \<le> x) \<longrightarrow>
            (\<forall>p < ?K. 0 \<le> ts ! g ! p) \<and>
            (\<forall>p q. p \<le> q \<and> q < ?K \<longrightarrow> ts ! g ! q \<le> ts ! g ! p))" if g: "g < length M" for g
  proof -
    let ?k = "min ?K (length (neighbors_of ar M g))"
    have ei: "fst (neighbor_row ar M ?K g) = ti ! g" and es: "snd (neighbor_row ar M ?K g) = ts ! g"
      using r [OF g] by simp_all
    note P = neighbor_row_props [OF g, where K = ?K and ar = ar, unfolded ei es]
    have nn: "(\<forall>p < ?K. 0 \<le> ts ! g ! p) \<and>
            (\<forall>p q. p \<le> q \<and> q < ?K \<longrightarrow> ts ! g ! q \<le> ts ! g ! p)"
      if sf: "sign_faithful ar" and nonneg: "\<forall>row \<in> set M. \<forall>x \<in> set row. 0 \<le> x"
    proof -
      have pos: "0 \<le> ts ! g ! p" if "p < ?K" for p
      proof (cases "p < ?k")
        case True
        from P(4) [OF True] stored_sim_nonneg [OF sf nonneg g, of "ti ! g ! p"] show ?thesis by simp
      next
        case False
        with P(6) [of p] that show ?thesis by simp
      qed
      have mono: "ts ! g ! q \<le> ts ! g ! p" if "p \<le> q" "q < ?K" for p q
      proof (cases "q < ?k")
        case True
        with P(5) that show ?thesis by blast
      next
        case False
        with P(6) [of q] that have "ts ! g ! q = 0" by simp
        moreover from that have "p < ?K" by simp
        ultimately show ?thesis using pos [of p] by simp
      qed
      from pos mono show ?thesis by blast
    qed
    show ?thesis
      apply (rule exI [of _ ?k])
      using P(1,2,3) P(4) P(5) P(6) nn by blast
  qed
  from c l row show ?thesis by blast
qed

lemma upt_2: "[0..<2] = [0, 1]"
  by (simp add: upt_rec)

lemma upt_3: "[0..<3] = [0, 1, 2]"
  by (simp add: upt_rec)

lemma neighbor_row_3_5:
  "neighbor_row float32_arith [[3, 5], [3, 5]] (Suc 0) 0 = ([Suc 0], [8388609 / 2 ^ 23])"
  "neighbor_row float32_arith [[3, 5], [3, 5]] (Suc 0) (Suc 0) = ([0], [8388609 / 2 ^ 23])"
proof -
  let ?M = "[[3, 5], [3, 5 :: real]]"
  have n: "neighbors_of float32_arith ?M 0 = [Suc 0]"
      "neighbors_of float32_arith ?M (Suc 0) = [0]"
    by (simp_all add: neighbors_of_def upt_2 float32_arith_def float32_dot_3_5)
  have "masked_row float32_arith ?M (map (a_norm float32_arith) ?M) 0 =
      (neighbors_of float32_arith ?M 0,
       map (stored_sim float32_arith ?M 0) (neighbors_of float32_arith ?M 0))"
    by (rule masked_row_eq) simp
  then have m0: "masked_row float32_arith ?M (map (a_norm float32_arith) ?M) 0
      = ([Suc 0], [8388609 / 2 ^ 23])"
    unfolding n by (simp add: stored_sim_3_5)
  have "masked_row float32_arith ?M (map (a_norm float32_arith) ?M) (Suc 0) =
      (neighbors_of float32_arith ?M (Suc 0),
       map (stored_sim float32_arith ?M (Suc 0)) (neighbors_of float32_arith ?M (Suc 0)))"
    by (rule masked_row_eq) simp
  then have m1: "masked_row float32_arith ?M (map (a_norm float32_arith) ?M) (Suc 0)
      = ([0], [8388609 / 2 ^ 23])"
    unfolding n by (simp add: stored_sim_3_5)
  show "neighbor_row float32_arith ?M (Suc 0) 0 = ([Suc 0], [8388609 / 2 ^ 23])"
    unfolding neighbor_row_def m0 by (simp add: top_order_def argsort_desc_def)
  show "neighbor_row float32_arith ?M (Suc 0) (Suc 0) = ([0], [8388609 / 2 ^ 23])"
    unfolding neighbor_row_def m1 by (simp add: top_order_def argsort_desc_def)
qed

lemma stored_sim_unit:
  "stored_sim float32_arith [[1], [- 1]] 0 (Suc 0) = - 1"
  "stored_sim float32_arith [[1], [- 1]] (Suc 0) 0 = - 1"
  by (simp_all add: stored_sim_def float32_arith_def float32_dot_def float32_norm_unit
      float32_numeral float32_minus_one)

lemma neighbor_row_unit:
  "neighbor_row float32_arith [[1], [- 1]] 2 0 = ([Suc 0, 0], [- 1, 0])"
  "neighbor_row float32_arith [[1], [- 1]] 2 (Suc 0) = ([0, 0], [- 1, 0])"
proof -
  let ?M = "[[1], [- 1 :: real]]"
  have n: "neighbors_of float32_arith ?M 0 = [Suc 0]"
      "neighbors_of float32_arith ?M (Suc 0) = [0]"
    by (simp_all add: neighbors_of_def upt_2 float32_arith_def float32_dot_def float32_numeral
        float32_minus_one)
  have "masked_row float32_arith ?M (map (a_norm float32_arith) ?M) 0 =
      (neighbors_of float32_arith ?M 0,
       map (stored_sim float32_arith ?M 0) (neighbors_of float32_arith ?M 0))"
    by (rule masked_row_eq) simp
  then have m0: "masked_row float32_arith ?M (map (a_norm float32_arith) ?M) 0
      = ([Suc 0], [- 1])"
    unfolding n by (simp add: stored_sim_unit)
  have "masked_row float32_arith ?M (map (a_norm float32_arith) ?M) (Suc 0) =
      (neighbors_of float32_arith ?M (Suc 0),
       map (stored_sim float32_arith ?M (Suc 0)) (neighbors_of float32_arith ?M (Suc 0)))"
    by (rule masked_row_eq) simp
  then have m1: "masked_row float32_arith ?M (map (a_norm float32_arith) ?M) (Suc 0)
      = ([0], [- 1])"
    unfolding n by (simp add: stored_sim_unit)
  show "neighbor_row float32_arith ?M 2 0 = ([Suc 0, 0], [- 1, 0])"
    unfolding neighbor_row_def m0 by (simp add: top_order_def argsort_desc_def)
  show "neighbor_row float32_arith ?M 2 (Suc 0) = ([0, 0], [- 1, 0])"
    unfolding neighbor_row_def m1 by (simp add: top_order_def argsort_desc_def)
qed

text \<open>
  Claim C9 as stated fails in three places. The only row of a one-film matrix is padded
  with the index 0, which is the row's own index, whatever the rounding. With a negative
  entry, the single neighbour of a row has the similarity -1, which is stored before the
  padding 0, so the row is not in descending order. And for two films with the same
  ratings 3 and 5 the norm is rounded to 5.8309517, the product of the norms to 33.999996,
  and the similarity 34 / 33.999996 to 1.0000001, which is above 1.
\<close>

theorem neighbor_tables_counterexample:
  "(\<forall>ar. compute_item_similarities_blockwise ar [[1]] 1 500 = Inr ([[0]], [[0]])) \<and>
   compute_item_similarities_blockwise float32_arith [[1], [- 1]] 2 500
     = Inr ([[1, 0], [0, 0]], [[- 1, 0], [- 1, 0]]) \<and>
   compute_item_similarities_blockwise float32_arith [[3, 5], [3, 5]] 1 500
     = Inr ([[1], [0]], [[8388609 / 8388608], [8388609 / 8388608]]) \<and>
   (1 :: real) < 8388609 / 8388608"
proof (intro conjI)
  show "\<forall>ar. compute_item_similarities_blockwise ar [[1]] 1 500 = Inr ([[0]], [[0]])"
    by (simp add: compute_item_similarities_blockwise_def block_loop.simps store_row_def
      masked_row_def Let_def)
  show "compute_item_similarities_blockwise float32_arith [[1], [- 1]] 2 500
     = Inr ([[1, 0], [0, 0]], [[- 1, 0], [- 1, 0]])"
    unfolding compute_eq [of 2 500, simplified] by (simp add: upt_2 neighbor_row_unit)
  show "compute_item_similarities_blockwise float32_arith [[3, 5], [3, 5]] 1 500
     = Inr ([[1], [0]], [[8388609 / 8388608], [8388609 / 8388608]])"
    unfolding compute_eq [of 1 500, simplified] by (simp add: upt_2 neighbor_row_3_5)
  show "(1 :: real) < 8388609 / 8388608" by simp
qed

theorem neighbor_tables_witness:
  "\<exists>ti ts. compute_item_similarities_blockwise float32_arith ex_matrix 2 1 = Inr (ti, ts) \<and>
      length ti = 3 \<and> length (ti ! 0) = 2 \<and> ti ! 0 ! 0 \<noteq> 0 \<and> ti ! 0 ! 1 \<noteq> 0 \<and>
      ts ! 0 ! 1 \<le> ts ! 0 ! 0 \<and> 0 \<le> ts ! 0 ! 1"
proof -
  have n: "neighbors_of float32_arith ex_matrix 0 = [1, 2]"
    by (simp add: neighbors_of_def ex_matrix_def upt_3 float32_arith_def float32_dot_def
        float32_numeral)
  have nonneg: "\<forall>row \<in> set ex_matrix. \<forall>x \<in> set row. 0 \<le> x"
    by (simp add: ex_matrix_def)
  from neighbor_tables [of 2 1 float32_arith ex_matrix] obtain ti ts where
    c: "compute_item_similarities_blockwise float32_arith ex_matrix 2 1 = Inr (ti, ts)" and
    l: "length ti = length ex_matrix" and
    r: "\<forall>g < length ex_matrix. \<exists>k. k = min (nat 2) (length (neighbors_of float32_arith ex_matrix g)) \<and>
         length (ti ! g) = nat 2 \<and> length (ts ! g) = nat 2 \<and>
         distinct (take k (ti ! g)) \<and>
         (\<forall>p < k. ti ! g ! p \<noteq> g \<and> ti ! g ! p < length ex_matrix \<and>
                  a_dot float32_arith (ex_matrix ! g) (ex_matrix ! (ti ! g ! p)) \<noteq> 0 \<and>
                  ts ! g ! p = stored_sim float32_arith ex_matrix g (ti ! g ! p)) \<and>
         (\<forall>p q. p \<le> q \<and> q < k \<longrightarrow> ts ! g ! q \<le> ts ! g ! p) \<and>
         (\<forall>p. k \<le> p \<and> p < nat 2 \<longrightarrow> ti ! g ! p = 0 \<and> ts ! g ! p = 0) \<and>
         (sign_faithful float32_arith \<and> (\<forall>row \<in> set ex_matrix. \<forall>x \<in> set row. 0 \<le> x) \<longrightarrow>
            (\<forall>p < nat 2. 0 \<le> ts ! g ! p) \<and>
            (\<forall>p q. p \<le> q \<and> q < nat 2 \<longrightarrow> ts ! g ! q \<le> ts ! g ! p))"
    by auto
  have g: "0 < length ex_matrix" by (simp add: ex_matrix_def)
  from r [rule_format, OF g] obtain k where
    k: "k = min (nat 2) (length (neighbors_of float32_arith ex_matrix 0))" and
    a': "length (ti ! 0) = nat 2" and
    b': "\<forall>p < k. ti ! 0 ! p \<noteq> 0 \<and> ti ! 0 ! p < length ex_matrix \<and>
                  a_dot float32_arith (ex_matrix ! 0) (ex_matrix ! (ti ! 0 ! p)) \<noteq> 0 \<and>
                  ts ! 0 ! p = stored_sim float32_arith ex_matrix 0 (ti ! 0 ! p)" and
    d': "\<forall>p q. p \<le> q \<and> q < k \<longrightarrow> ts ! 0 ! q \<le> ts ! 0 ! p" and
    e': "sign_faithful float32_arith \<and> (\<forall>row \<in> set ex_matrix. \<forall>x \<in> set row. 0 \<le> x) \<longrightarrow>
            (\<forall>p < nat 2. 0 \<le> ts ! 0 ! p) \<and>
            (\<forall>p q. p \<le> q \<and> q < nat 2 \<longrightarrow> ts ! 0 ! q \<le> ts ! 0 ! p)"
    by blast
  have k2: "k = 2" unfolding k n by simp
  have a: "length (ti ! 0) = 2" using a' by simp
  have b: "\<forall>p < 2. ti ! 0 ! p \<noteq> 0" using b' unfolding k2 by blast
  have d: "\<forall>p q. p \<le> q \<and> q < 2 \<longrightarrow> ts ! 0 ! q \<le> ts ! 0 ! p" using d' unfolding k2 .
  have e: "\<forall>p < 2. 0 \<le> ts ! 0 ! p" using e' nonneg sign_faithful_float32 by simp
  from b have "ti ! 0 ! 0 \<noteq> 0" "ti ! 0 ! 1 \<noteq> 0" by simp_all
  moreover from d have "ts ! 0 ! 1 \<le> ts ! 0 ! 0" by simp
  moreover from e have "0 \<le> ts ! 0 ! 1" by simp
  ultimately show ?thesis using c l a by (simp add: ex_matrix_def)
qed

end
